(* ===== verification/Prelude.thy ===== *)
theory Prelude
  imports Main "HOL-Library.Char_ord" "HOL-Library.List_Lexorder"
begin

text \<open>
  The shared layer of the development: Go maps with string keys as key-sorted association
  lists, the functions of Go's \<^verbatim>\<open>strings\<close> and \<^verbatim>\<open>strconv\<close> packages that the operator calls, and the
  facts the components share.

  A Go string is a byte sequence, and so is a HOL \<^typ>\<open>string\<close>; Go compares strings bytewise,
  which is the order of \<^verbatim>\<open>List_Lexorder\<close> over \<^verbatim>\<open>Char_ord\<close>.
\<close>

named_theorems go_map \<open>how lookups and the invariant of a Go map behave under its operations\<close>

named_theorems go_str \<open>defining equations of the string functions\<close>

type_synonym ('e, 'a) result = "'e + 'a"

section \<open>Go maps as key-sorted association lists\<close>

text \<open>
  A \<^verbatim>\<open>map[string]T\<close> is an unordered finite map. Keeping the entries sorted by key makes the
  representation unique, so that equal maps are equal terms.
\<close>

fun aput :: "'k::linorder \<Rightarrow> 'v \<Rightarrow> ('k \<times> 'v) list \<Rightarrow> ('k \<times> 'v) list" where
  "aput k v [] = [(k, v)]"
| "aput k v ((a, b) # ps) =
     (if k < a then (k, v) # (a, b) # ps
      else if k = a then (k, v) # ps
      else (a, b) # aput k v ps)"

fun adel :: "'k::linorder \<Rightarrow> ('k \<times> 'v) list \<Rightarrow> ('k \<times> 'v) list" where
  "adel k [] = []"
| "adel k ((a, b) # ps) = (if k = a then ps else (a, b) # adel k ps)"

definition akeys_ok :: "('k::linorder \<times> 'v) list \<Rightarrow> bool" where
  "akeys_ok ps \<longleftrightarrow> sorted_wrt (<) (map fst ps)"

definition aof_list :: "('k::linorder \<times> 'v) list \<Rightarrow> ('k \<times> 'v) list" where
  "aof_list ps = fold (\<lambda>(k, v). aput k v) ps []"

subsection \<open>The contract of a map and what follows from it\<close>

locale finite_map =
  fixes get :: "'m \<Rightarrow> 'k \<Rightarrow> 'v option"
    and put :: "'k \<Rightarrow> 'v \<Rightarrow> 'm \<Rightarrow> 'm"
    and del :: "'k \<Rightarrow> 'm \<Rightarrow> 'm"
    and ok :: "'m \<Rightarrow> bool"
  assumes get_put: "get (put k v m) = (get m)(k \<mapsto> v)"
    and get_del: "ok m \<Longrightarrow> get (del k m) = (get m)(k := None)"
    and ok_put: "ok m \<Longrightarrow> ok (put k v m)"
    and ok_del: "ok m \<Longrightarrow> ok (del k m)"
    and ext: "ok m \<Longrightarrow> ok m' \<Longrightarrow> get m = get m' \<Longrightarrow> m = m'"
begin

lemma put_put: "ok m \<Longrightarrow> put k v (put k w m) = put k v m"
  by (rule ext) (simp_all add: get_put ok_put)

lemma put_commute: "ok m \<Longrightarrow> k \<noteq> l \<Longrightarrow> put k v (put l w m) = put l w (put k v m)"
  by (rule ext) (simp_all add: get_put ok_put fun_upd_twist)

lemma put_same: "ok m \<Longrightarrow> get m k = Some v \<Longrightarrow> put k v m = m"
  by (rule ext) (simp_all add: get_put ok_put fun_upd_idem)

lemma del_put_fresh: "ok m \<Longrightarrow> get m k = None \<Longrightarrow> del k (put k v m) = m"
  by (rule ext) (simp_all add: get_put get_del ok_put ok_del fun_upd_idem)

lemma del_put: "ok m \<Longrightarrow> del k (put k v m) = del k m"
  by (rule ext) (simp_all add: get_put get_del ok_put ok_del)

lemma del_absent: "ok m \<Longrightarrow> get m k = None \<Longrightarrow> del k m = m"
  by (rule ext) (simp_all add: get_del ok_del fun_upd_idem)

end

lemma map_of_aput: "map_of (aput k v ps) = (map_of ps)(k \<mapsto> v)"
  by (induction ps) (auto simp: fun_eq_iff)

lemma set_keys_aput: "fst ` set (aput k v ps) = insert k (fst ` set ps)"
  by (induction k v ps rule: aput.induct) (simp_all add: insert_commute)

lemma adel_subset: "set (adel k ps) \<subseteq> set ps"
  by (induction ps) (auto split: if_splits)

lemma set_keys_adel: "fst ` set (adel k ps) \<subseteq> fst ` set ps"
  by (rule image_mono[OF adel_subset])

lemma akeys_ok_Nil [simp, intro]: "akeys_ok []"
  by (simp add: akeys_ok_def)

lemma akeys_ok_Cons: "akeys_ok ((a, b) # ps) \<longleftrightarrow> (\<forall>x \<in> fst ` set ps. a < x) \<and> akeys_ok ps"
  by (auto simp: akeys_ok_def)

lemma akeys_ok_aput: "akeys_ok ps \<Longrightarrow> akeys_ok (aput k v ps)"
proof (induction k v ps rule: aput.induct)
  case (2 k v a b ps)
  then show ?case
    by (auto simp: akeys_ok_Cons set_keys_aput simp del: set_map dest: less_trans)
qed (simp add: akeys_ok_Cons)

lemma akeys_ok_adel: "akeys_ok ps \<Longrightarrow> akeys_ok (adel k ps)"
proof (induction k ps rule: adel.induct)
  case (2 k a b ps)
  then show ?case using adel_subset[of k ps] by (auto simp: akeys_ok_Cons)
qed simp

lemma map_of_adel: "akeys_ok ps \<Longrightarrow> map_of (adel k ps) = (map_of ps)(k := None)"
proof (induction ps)
  case (Cons p ps)
  obtain a b where p: "p = (a, b)" by (cases p)
  from Cons.prems p have "map_of ps a = None"
    by (auto simp: akeys_ok_Cons map_of_eq_None_iff)
  with Cons p show ?case by (auto simp: akeys_ok_Cons fun_eq_iff)
qed simp

lemma akeys_ok_distinct: "akeys_ok ps \<Longrightarrow> distinct (map fst ps)"
  unfolding akeys_ok_def by (simp add: strict_sorted_iff)

lemma akeys_ok_ext:
  assumes "akeys_ok ps" and "akeys_ok qs" and "map_of ps = map_of qs"
  shows "ps = qs"
proof -
  have "dom (map_of ps) = dom (map_of qs)" using assms(3) by simp
  then have keys: "map fst ps = map fst qs"
    using assms(1,2) by (intro strict_sorted_equal) (simp_all add: akeys_ok_def dom_map_of_conv_image_fst)
  have val: "map_of xs (fst p) = Some (snd p)" if "akeys_ok xs" and "p \<in> set xs" for xs p
    using that by (simp add: akeys_ok_distinct)
  have "map snd ps = map snd qs"
  proof (rule nth_equalityI)
    show len: "length (map snd ps) = length (map snd qs)"
      using keys by (metis length_map)
    fix i assume i: "i < length (map snd ps)"
    with len have "fst (ps ! i) = fst (qs ! i)" using keys by (metis length_map nth_map)
    with i len show "map snd ps ! i = map snd qs ! i"
      using val[OF assms(1), of "ps ! i"] val[OF assms(2), of "qs ! i"] assms(3) by simp
  qed
  with keys show ?thesis by (metis zip_map_fst_snd)
qed

interpretation am: finite_map map_of aput adel akeys_ok
  by unfold_locales (simp_all add: map_of_aput map_of_adel akeys_ok_aput akeys_ok_adel akeys_ok_ext)

lemmas amap_simps [go_map] = map_of_aput map_of_adel akeys_ok_aput akeys_ok_adel

lemma aput_neq_Nil [simp]: "aput k v ps \<noteq> []"
  by (induction k v ps rule: aput.induct) simp_all

lemma adel_eq_Nil: "akeys_ok ps \<Longrightarrow> adel k ps = [] \<longleftrightarrow> (\<forall>l. l \<noteq> k \<longrightarrow> map_of ps l = None)"
proof
  assume ok: "akeys_ok ps" and "adel k ps = []"
  then have "(map_of ps)(k := None) = Map.empty" using map_of_adel[OF ok, of k] by simp
  then show "\<forall>l. l \<noteq> k \<longrightarrow> map_of ps l = None" by (metis fun_upd_other)
next
  assume ok: "akeys_ok ps" and "\<forall>l. l \<noteq> k \<longrightarrow> map_of ps l = None"
  then have "map_of (adel k ps) = Map.empty" by (auto simp: map_of_adel)
  then show "adel k ps = []" by simp
qed

lemma map_of_neq_Nil: "map_of ps k = Some v \<Longrightarrow> ps \<noteq> []"
  by auto

lemma aput_value_cases: "(l, w) \<in> set (aput k v ps) \<Longrightarrow> (l, w) = (k, v) \<or> (l, w) \<in> set ps"
  by (induction ps) (auto split: if_splits)

end
