(* ===== verification/Json.thy ===== *)
theory Json
  imports GoStrings
begin

text \<open>
  The untyped object trees (\<^verbatim>\<open>any\<close>, \<^verbatim>\<open>map[string]any\<close>, \<^verbatim>\<open>[]any\<close>) that the operator renders, merges
  and reverts, their JSON encoding, their \<^verbatim>\<open>%v\<close> formatting, the deep copy and the content hash of
  \<^verbatim>\<open>internal/render/render.go\<close>.

  A decoded number is an \<^verbatim>\<open>int64\<close> (objects read through \<^verbatim>\<open>unstructured\<close>) or a \<^verbatim>\<open>float64\<close> (patch
  values decoded by \<^verbatim>\<open>encoding/json\<close>). A \<^verbatim>\<open>float64\<close> is given by its shortest decimal form, as
  \<^verbatim>\<open>strconv\<close> computes it: a sign, the digits and the position of the decimal point, so
  \<open>JFloat s d p\<close> is the number \<open>0.d * 10 ^ p\<close> with sign \<open>s\<close>.
\<close>

datatype json =
    JNull
  | JBool bool
  | JInt int
  | JFloat bool string int
  | JStr string
  | JArr "json list"
  | JObj "(string \<times> json) list"

type_synonym jmap = "(string \<times> json) list"

lemma json_induct [case_names JNull JBool JInt JFloat JStr JArr JObj]:
  assumes "P JNull" and "\<And>b. P (JBool b)" and "\<And>n. P (JInt n)" and "\<And>s d e. P (JFloat s d e)"
    and "\<And>s. P (JStr s)"
    and "\<And>xs. (\<And>x. x \<in> set xs \<Longrightarrow> P x) \<Longrightarrow> P (JArr xs)"
    and "\<And>m. (\<And>k v. (k, v) \<in> set m \<Longrightarrow> P v) \<Longrightarrow> P (JObj m)"
  shows "P v"
proof (induction v)
  case (JObj m)
  have "P w" if "(k, w) \<in> set m" for k w
    using JObj[OF that, of w] by simp
  then show ?case by (rule assms(7))
qed (use assms in auto)

section \<open>Well-formed trees\<close>

text \<open>
  Maps have distinct (sorted) keys, integers are in the \<^verbatim>\<open>int64\<close> range.
\<close>

fun wf_json :: "json \<Rightarrow> bool"
  and wf_elems :: "json list \<Rightarrow> bool"
  and wf_members :: "jmap \<Rightarrow> bool" where
  "wf_json (JInt n) = in_int64 n"
| "wf_json (JArr xs) = wf_elems xs"
| "wf_json (JObj m) = (akeys_ok m \<and> wf_members m)"
| "wf_json v = True"
| "wf_elems [] = True"
| "wf_elems (x # xs) = (wf_json x \<and> wf_elems xs)"
| "wf_members [] = True"
| "wf_members ((k, v) # m) = (wf_json v \<and> wf_members m)"

lemma wf_elems_iff: "wf_elems xs \<longleftrightarrow> (\<forall>x \<in> set xs. wf_json x)"
  by (induction xs) auto

lemma wf_members_iff: "wf_members m \<longleftrightarrow> (\<forall>v \<in> snd ` set m. wf_json v)"
  by (induction m) auto

lemma wf_JObj_iff: "wf_json (JObj m) \<longleftrightarrow> akeys_ok m \<and> (\<forall>v \<in> ran (map_of m). wf_json v)"
  by (cases "akeys_ok m") (auto simp: wf_members_iff ran_distinct akeys_ok_distinct)

declare wf_json.simps(3) [simp del]

lemma wf_JObjD:
  assumes "wf_json (JObj m)"
  shows "akeys_ok m" and "map_of m k = Some v \<Longrightarrow> wf_json v"
  using assms by (auto simp: wf_JObj_iff intro: ranI)

lemma wf_JObj_empty [simp]: "wf_json (JObj [])"
  by (simp add: wf_JObj_iff)

lemma wf_JObj_aput [simp]: "wf_json (JObj m) \<Longrightarrow> wf_json v \<Longrightarrow> wf_json (JObj (aput k v m))"
  by (auto simp: wf_JObj_iff go_map ran_def split: if_splits)

lemma wf_JObj_adel [simp]: "wf_json (JObj m) \<Longrightarrow> wf_json (JObj (adel k m))"
  by (auto simp: wf_JObj_iff go_map ran_def split: if_splits)

section \<open>Number formatting\<close>

text \<open>\<^verbatim>\<open>strconv.AppendFloat\<close> with the formats \<^verbatim>\<open>'e'\<close> and \<^verbatim>\<open>'f'\<close> and the shortest precision.\<close>

definition float_sign :: "bool \<Rightarrow> string" where
  "float_sign neg = (if neg then ''-'' else [])"

definition exp_text :: "int \<Rightarrow> string" where
  "exp_text e = (if e < 0 then ''-'' else ''+'') @
     (let ds = nat_digits (nat \<bar>e\<bar>) in if length ds < 2 then CHR ''0'' # ds else ds)"

definition float_e :: "string \<Rightarrow> int \<Rightarrow> string" where
  "float_e ds dp =
     (case ds of [] \<Rightarrow> ''0'' | d # r \<Rightarrow> d # (if r = [] then [] else CHR ''.'' # r))
       @ ''e'' @ exp_text (if ds = [] then 0 else dp - 1)"

definition float_f :: "string \<Rightarrow> int \<Rightarrow> string" where
  "float_f ds dp =
     (if dp > 0 then take (nat dp) ds @ replicate (nat dp - length ds) (CHR ''0'') else ''0'')
       @ (if int (length ds) > dp
          then CHR ''.'' # (if dp \<ge> 0 then drop (nat dp) ds else replicate (nat (- dp)) (CHR ''0'') @ ds)
          else [])"

text \<open>\<^verbatim>\<open>encoding/json\<close> uses \<^verbatim>\<open>'f'\<close> from \<^verbatim>\<open>1e-6\<close> up to \<^verbatim>\<open>1e21\<close>, else \<^verbatim>\<open>'e'\<close> with a one-digit exponent.\<close>

definition json_float :: "bool \<Rightarrow> string \<Rightarrow> int \<Rightarrow> string" where
  "json_float neg ds dp = float_sign neg @
     (if ds \<noteq> [] \<and> (dp < - 5 \<or> dp > 21)
      then (let t = float_e ds dp; n = length t
            in if t ! (n - 4) = CHR ''e'' \<and> t ! (n - 2) = CHR ''0''
               then take (n - 2) t @ [t ! (n - 1)] else t)
      else float_f ds dp)"

text \<open>\<^verbatim>\<open>%v\<close> is \<^verbatim>\<open>%g\<close>: exponents below \<open>-4\<close> or from \<open>6\<close> on use \<^verbatim>\<open>'e'\<close>.\<close>

definition fmtv_float :: "bool \<Rightarrow> string \<Rightarrow> int \<Rightarrow> string" where
  "fmtv_float neg ds dp = float_sign neg @
     (if dp - 1 < - 4 \<or> dp - 1 \<ge> 6 then float_e ds dp else float_f ds dp)"

section \<open>Encoding and formatting of trees\<close>

definition hex_digit :: "nat \<Rightarrow> char" where
  "hex_digit d = (if d < 10 then char_of (48 + d) else char_of (87 + d))"

definition json_escape :: "char \<Rightarrow> string" where
  "json_escape c =
     (if c = CHR 0x22 then [CHR 0x5C, CHR 0x22]
      else if c = CHR 0x5C then [CHR 0x5C, CHR 0x5C]
      else if c = CHR 0x08 then [CHR 0x5C, CHR ''b'']
      else if c = CHR 0x0C then [CHR 0x5C, CHR ''f'']
      else if c = CHR 0x0A then [CHR 0x5C, CHR ''n'']
      else if c = CHR 0x0D then [CHR 0x5C, CHR ''r'']
      else if c = CHR 0x09 then [CHR 0x5C, CHR ''t'']
      else if c < CHR '' '' \<or> c = CHR ''<'' \<or> c = CHR ''>'' \<or> c = CHR ''&''
      then [CHR 0x5C] @ ''u00'' @ [hex_digit (of_char c div 16), hex_digit (of_char c mod 16)]
      else [c])"

definition json_string :: "string \<Rightarrow> string" where
  "json_string s = CHR 0x22 # concat (map json_escape s) @ [CHR 0x22]"

text \<open>\<^verbatim>\<open>json.Marshal\<close>: compact, map keys in order.\<close>

fun json_marshal :: "json \<Rightarrow> string"
  and marshal_elems :: "json list \<Rightarrow> string"
  and marshal_members :: "jmap \<Rightarrow> string" where
  "json_marshal JNull = ''null''"
| "json_marshal (JBool b) = (if b then ''true'' else ''false'')"
| "json_marshal (JInt n) = Itoa n"
| "json_marshal (JFloat neg ds dp) = json_float neg ds dp"
| "json_marshal (JStr s) = json_string s"
| "json_marshal (JArr xs) = ''['' @ marshal_elems xs @ '']''"
| "json_marshal (JObj m) = ''{'' @ marshal_members m @ ''}''"
| "marshal_elems [] = []"
| "marshal_elems (x # xs) = json_marshal x @ (if xs = [] then [] else '','') @ marshal_elems xs"
| "marshal_members [] = []"
| "marshal_members ((k, v) # m) =
     json_string k @ '':'' @ json_marshal v @ (if m = [] then [] else '','') @ marshal_members m"

text \<open>\<^verbatim>\<open>fmt.Sprintf("%v", v)\<close>.\<close>

fun fmtv :: "json \<Rightarrow> string"
  and fmtv_elems :: "json list \<Rightarrow> string"
  and fmtv_members :: "jmap \<Rightarrow> string" where
  "fmtv JNull = ''<nil>''"
| "fmtv (JBool b) = (if b then ''true'' else ''false'')"
| "fmtv (JInt n) = Itoa n"
| "fmtv (JFloat neg ds dp) = fmtv_float neg ds dp"
| "fmtv (JStr s) = s"
| "fmtv (JArr xs) = ''['' @ fmtv_elems xs @ '']''"
| "fmtv (JObj m) = ''map['' @ fmtv_members m @ '']''"
| "fmtv_elems [] = []"
| "fmtv_elems (x # xs) = fmtv x @ (if xs = [] then [] else '' '') @ fmtv_elems xs"
| "fmtv_members [] = []"
| "fmtv_members ((k, v) # m) = k @ '':'' @ fmtv v @ (if m = [] then [] else '' '') @ fmtv_members m"

text \<open>A missing map key reads as nil.\<close>

definition mget :: "jmap \<Rightarrow> string \<Rightarrow> json" where
  "mget m k = (case map_of m k of None \<Rightarrow> JNull | Some v \<Rightarrow> v)"

section \<open>Deep copy and content hash\<close>

fun deepCopyValue :: "json \<Rightarrow> json"
  and deepCopyElems :: "json list \<Rightarrow> json list"
  and deepCopyMap :: "jmap \<Rightarrow> jmap" where
  "deepCopyValue (JObj m) = JObj (deepCopyMap m)"
| "deepCopyValue (JArr xs) = JArr (deepCopyElems xs)"
| "deepCopyValue v = v"
| "deepCopyElems [] = []"
| "deepCopyElems (x # xs) = deepCopyValue x # deepCopyElems xs"
| "deepCopyMap [] = []"
| "deepCopyMap ((k, v) # m) = (k, deepCopyValue v) # deepCopyMap m"

lemma deepCopy_id [simp]:
  "deepCopyValue v = v" "deepCopyElems xs = xs" "deepCopyMap m = m"
  by (induction v and xs and m rule: deepCopyValue_deepCopyElems_deepCopyMap.induct) simp_all

text \<open>
  The SHA-256 of the encoding, in hexadecimal, is the parameter \<open>sha\<close>: every result below holds for
  any digest function, and those that need distinct hashes say so.
\<close>

definition HashObject :: "(string \<Rightarrow> string) \<Rightarrow> json \<Rightarrow> string" where
  "HashObject sha v = ''sha256:'' @ sha (json_marshal v)"

section \<open>int64 and float64 encode alike\<close>

text \<open>
  \<open>as_float n\<close> is the \<^verbatim>\<open>float64\<close> that decoding the text of \<open>n\<close> gives, for the integers a \<^verbatim>\<open>float64\<close>
  represents exactly.
\<close>

definition strip_zeros :: "string \<Rightarrow> string" where
  "strip_zeros ds = rev (dropWhile (\<lambda>c. c = CHR ''0'') (rev ds))"

definition as_float :: "int \<Rightarrow> json" where
  "as_float n =
     (if n = 0 then JFloat False [] 0
      else (let ds = nat_digits (nat \<bar>n\<bar>) in JFloat (n < 0) (strip_zeros ds) (int (length ds))))"

lemma strip_zeros_pad:
  "strip_zeros ds @ replicate (length ds - length (strip_zeros ds)) (CHR ''0'') = ds"
proof -
  let ?z = "takeWhile (\<lambda>c. c = CHR ''0'') (rev ds)"
  have "replicate (length ?z) (CHR ''0'') = ?z"
    by (rule replicate_length_same) (auto dest: set_takeWhileD)
  then have "rev ?z = replicate (length ?z) (CHR ''0'')" by (metis rev_replicate)
  moreover have "ds = strip_zeros ds @ rev ?z"
    unfolding strip_zeros_def by (metis rev_append rev_rev_ident takeWhile_dropWhile_id)
  moreover from this have "length ds - length (strip_zeros ds) = length ?z"
    by (metis add_diff_cancel_left' length_append length_rev)
  ultimately show ?thesis by metis
qed

lemma strip_zeros_length: "length (strip_zeros ds) \<le> length ds"
  by (simp add: strip_zeros_def le_trans[OF length_dropWhile_le])

lemma length_nat_digits: "n < 10 ^ k \<Longrightarrow> 0 < k \<Longrightarrow> length (nat_digits n) \<le> k"
proof (induction k arbitrary: n)
  case (Suc k)
  show ?case
  proof (cases "n < 10")
    case True
    then show ?thesis by (simp add: nat_digits.simps[of n])
  next
    case False
    with Suc.prems have "n div 10 < 10 ^ k" and "0 < k" by (auto intro: gr0I)
    with Suc.IH[of "n div 10"] False show ?thesis by (simp add: nat_digits.simps[of n])
  qed
qed simp

lemma digit_char_0: "digit_char 0 = CHR ''0''"
  by code_simp

lemma json_marshal_as_float:
  assumes "in_int64 n"
  shows "json_marshal (as_float n) = json_marshal (JInt n)"
proof (cases "n = 0")
  case True
  then show ?thesis
    by (simp add: as_float_def json_float_def float_sign_def float_f_def Itoa_def nat_digits.simps
        digit_char_0)
next
  case False
  let ?ds = "nat_digits (nat \<bar>n\<bar>)"
  have "nat \<bar>n\<bar> < 10 ^ 19" using assms by (auto simp: in_int64_def)
  then have len: "length ?ds \<le> 19" by (rule length_nat_digits) simp
  have pos: "0 < length ?ds" using nat_digits_ok by simp
  have "float_f (strip_zeros ?ds) (int (length ?ds)) = ?ds"
    using strip_zeros_pad[of ?ds] strip_zeros_length[of ?ds] pos by (simp add: float_f_def)
  with False len show ?thesis
    by (auto simp: as_float_def Let_def json_float_def float_sign_def Itoa_def abs_if)
qed

end
