(* ===== verification/GoErrors.thy ===== *)
theory GoErrors
  imports GoStrings
begin

text \<open>
  Go errors as values: errors made by \<^verbatim>\<open>fmt.Errorf\<close> (the format and its arguments, with \<^verbatim>\<open>%w\<close> as a
  wrapped error) and API status errors with the reason, message and causes the operator reads. The
  classification predicates follow the wrapping chain, as \<^verbatim>\<open>apierrors\<close> does through \<^verbatim>\<open>errors.As\<close>.
\<close>

datatype StatusReason =
    StatusReasonNotFound
  | StatusReasonAlreadyExists
  | StatusReasonConflict
  | StatusReasonOther string

datatype CauseType = CauseTypeFieldManagerConflict | CauseTypeOther string

record StatusCause =
  scType :: CauseType
  scMessage :: string
  scField :: string

text \<open>\<open>stDetails\<close> is the list of causes of \<^verbatim>\<open>Status.Details\<close>, absent when the details are nil.\<close>

record Status =
  stReason :: StatusReason
  stMessage :: string
  stDetails :: "StatusCause list option"

datatype goerror =
    Errorf string "string list"
  | Errorw string "string list" goerror
  | ErrStatus Status

text \<open>A format with its verbs replaced in order; \<^verbatim>\<open>%q\<close> quotes its argument.\<close>

definition Quote :: "string \<Rightarrow> string" where
  "Quote s = CHR 0x22 # concat (map (\<lambda>c. if c = CHR 0x22 \<or> c = CHR 0x5C then [CHR 0x5C, c] else [c]) s) @ [CHR 0x22]"

fun Sprintf :: "string \<Rightarrow> string list \<Rightarrow> string" where
  "Sprintf [] args = []"
| "Sprintf [c] args = [c]"
| "Sprintf (c # d # f) args =
     (if c = CHR ''%'' then
        (case args of
           [] \<Rightarrow> Sprintf f []
         | a # args' \<Rightarrow> (if d = CHR ''q'' then Quote a else a) @ Sprintf f args')
      else c # Sprintf (d # f) args)"

fun ErrorText :: "goerror \<Rightarrow> string" where
  "ErrorText (Errorf f args) = Sprintf f args"
| "ErrorText (Errorw f args e) = Sprintf f (args @ [ErrorText e])"
| "ErrorText (ErrStatus s) = stMessage s"

text \<open>The status error of a chain, if there is one.\<close>

fun asAPIStatus :: "goerror \<Rightarrow> Status option" where
  "asAPIStatus (Errorf f args) = None"
| "asAPIStatus (Errorw f args e) = asAPIStatus e"
| "asAPIStatus (ErrStatus s) = Some s"

definition ReasonIs :: "StatusReason \<Rightarrow> goerror \<Rightarrow> bool" where
  "ReasonIs r e \<longleftrightarrow> (case asAPIStatus e of None \<Rightarrow> False | Some s \<Rightarrow> stReason s = r)"

definition IsNotFound :: "goerror \<Rightarrow> bool" where
  "IsNotFound e = ReasonIs StatusReasonNotFound e"

definition IsAlreadyExists :: "goerror \<Rightarrow> bool" where
  "IsAlreadyExists e = ReasonIs StatusReasonAlreadyExists e"

definition IsConflict :: "goerror \<Rightarrow> bool" where
  "IsConflict e = ReasonIs StatusReasonConflict e"

definition NewNotFound :: "string \<Rightarrow> string \<Rightarrow> goerror" where
  "NewNotFound resource name =
     ErrStatus \<lparr>stReason = StatusReasonNotFound, stMessage = Sprintf ''%s %q not found'' [resource, name],
       stDetails = Some []\<rparr>"

text \<open>\<^verbatim>\<open>client.IgnoreNotFound\<close>\<close>

definition IgnoreNotFound :: "goerror \<Rightarrow> goerror option" where
  "IgnoreNotFound e = (if IsNotFound e then None else Some e)"

lemmas status_predicates = IsNotFound_def IsAlreadyExists_def IsConflict_def ReasonIs_def

lemma wrapped_status [simp]:
  "IsNotFound (Errorw f args e) = IsNotFound e" "IsConflict (Errorw f args e) = IsConflict e"
  "IsAlreadyExists (Errorw f args e) = IsAlreadyExists e"
  "\<not> IsNotFound (Errorf f args)" "\<not> IsConflict (Errorf f args)" "\<not> IsAlreadyExists (Errorf f args)"
  by (simp_all add: status_predicates)

lemma status_exclusive:
  "IsNotFound e \<Longrightarrow> \<not> IsConflict e" "IsNotFound e \<Longrightarrow> \<not> IsAlreadyExists e" "IsConflict e \<Longrightarrow> \<not> IsAlreadyExists e"
  by (auto simp: status_predicates split: option.splits)

lemma IsNotFound_NewNotFound [simp]: "IsNotFound (NewNotFound r n)"
  by (simp add: NewNotFound_def status_predicates)

end
