(* ===== verification/Api.thy ===== *)
theory Api
  imports Json GoErrors
begin

text \<open>
  The API types of \<^verbatim>\<open>api/v1alpha1\<close>: the enumerations of \<^verbatim>\<open>common_types.go\<close> and \<^verbatim>\<open>tracker_types.go\<close>, the
  specs and statuses of the four kinds, the two interfaces their reconcilers work with, and the
  helpers of \<^verbatim>\<open>interfaces.go\<close> and \<^verbatim>\<open>identity.go\<close>. A pointer is an option; an enumeration, a string type
  in Go, has a last constructor for every other string, the unset one included. Field names carry a
  prefix of their struct.
\<close>

section \<open>Enumerations\<close>

datatype TargetMode = TargetModeSingle | TargetModeSelector | TargetModeOther string

datatype OnMissingPolicy = OnMissingFail | OnMissingWait | OnMissingCreate | OnMissingOther string

datatype OnReleasePolicy = OnReleaseRevert | OnReleaseOrphan | OnReleaseDelete | OnReleaseOther string

datatype BaseReconcilePolicy = BaseReconcileCreateOnly | BaseReconcileEnforce | BaseReconcileOther string

datatype ApplyMode = ApplyModeServerSideApply | ApplyModeClientSideApply | ApplyModeOther string

datatype ConflictPolicy =
    ConflictPolicyFail | ConflictPolicyPriority | ConflictPolicyForce | ConflictPolicyOther string

datatype PatchType = PatchTypeStrategicMerge | PatchTypeMerge | PatchTypeJSON6902 | PatchTypeOther string

datatype TrackerPhase =
    TrackerPhaseWaiting | TrackerPhaseApplied | TrackerPhaseConflicted | TrackerPhaseReleasing
  | TrackerPhasePromoting | TrackerPhaseOther string

datatype ContributorState =
    ContributorStateApplied | ContributorStateSuperseded | ContributorStateConflicted
  | ContributorStateReleasing | ContributorStateOther string

fun PatchTypeString :: "PatchType \<Rightarrow> string" where
  "PatchTypeString PatchTypeStrategicMerge = ''StrategicMerge''"
| "PatchTypeString PatchTypeMerge = ''Merge''"
| "PatchTypeString PatchTypeJSON6902 = ''JSON6902''"
| "PatchTypeString (PatchTypeOther s) = s"

fun ApplyModeString :: "ApplyMode \<Rightarrow> string" where
  "ApplyModeString ApplyModeServerSideApply = ''ServerSideApply''"
| "ApplyModeString ApplyModeClientSideApply = ''ClientSideApply''"
| "ApplyModeString (ApplyModeOther s) = s"

section \<open>Kubernetes metadata\<close>

text \<open>
  A \<^verbatim>\<open>runtime.RawExtension\<close> holds the bytes of a JSON document. It is represented by what
  \<^verbatim>\<open>json.Unmarshal\<close> makes of them: no bytes, bytes that are not JSON, or a document, whose numbers
  are then \<^verbatim>\<open>float64\<close>.
\<close>

datatype RawExtension = RawEmpty | RawInvalid string | RawJson json

type_synonym Time = int

text \<open>The zero \<^verbatim>\<open>metav1.Time\<close> is 0.\<close>

record ObjectMeta =
  omName :: string
  omNamespace :: string
  omUID :: string
  omGeneration :: int
  omResourceVersion :: string
  omCreationTimestamp :: Time
  omDeletionTimestamp :: "Time option"
  omFinalizers :: "string list"
  omAnnotations :: "(string \<times> string) list"

definition no_meta :: ObjectMeta where
  "no_meta = \<lparr>omName = '''', omNamespace = '''', omUID = '''', omGeneration = 0, omResourceVersion = '''',
     omCreationTimestamp = 0, omDeletionTimestamp = None, omFinalizers = [], omAnnotations = []\<rparr>"

record LabelSelector =
  lsMatchLabels :: "(string \<times> string) list"
  lsMatchExpressions :: "(string \<times> string \<times> string list) list"

datatype ConditionStatus = ConditionTrue | ConditionFalse | ConditionUnknown

record Condition =
  cdType :: string
  cdStatus :: ConditionStatus
  cdReason :: string
  cdMessage :: string
  cdLastTransitionTime :: Time

section \<open>Contributors\<close>

record TargetRef =
  trMode :: TargetMode
  trAPIVersion :: string
  trKind :: string
  trName :: string
  trNamespace :: string
  trSelector :: "LabelSelector option"
  trNamespaceSelector :: "LabelSelector option"
  trMaxTargets :: int

record LifecycleSpec =
  lcOnMissing :: OnMissingPolicy
  lcOnRelease :: OnReleasePolicy
  lcAdoptExisting :: "bool option"
  lcBaseReconcile :: BaseReconcilePolicy

record ApplySpec =
  asMode :: ApplyMode
  asFieldManager :: string
  asConflictPolicy :: ConflictPolicy

record MergeKey =
  mkPath :: string
  mkKey :: string

record PatchSpec =
  psType :: PatchType
  psValue :: "RawExtension option"
  psOps :: "RawExtension option"
  psMergeKeys :: "MergeKey list"

record ServiceAccountRef =
  saName :: string
  saNamespace :: string

record ResourcePatchSpec =
  rsTarget :: TargetRef
  rsLifecycle :: LifecycleSpec
  rsApply :: ApplySpec
  rsPriority :: int
  rsServiceAccountRef :: "ServiceAccountRef option"
  rsBase :: "RawExtension option"
  rsPatch :: PatchSpec

record TargetStatus =
  tsAPIVersion :: string
  tsKind :: string
  tsName :: string
  tsNamespace :: string
  tsUID :: string
  tsState :: ContributorState

record TrackerRef =
  tkKind :: string
  tkName :: string
  tkNamespace :: string

record ResourcePatchStatus =
  psConditions :: "Condition list"
  psObservedTargets :: "TargetStatus list"
  psSharedResourceRefs :: "TrackerRef list"
  psAppliedGeneration :: int
  psAuthorizedAs :: string
  psLastAuthorizedTime :: "Time option"

text \<open>
  \<^verbatim>\<open>ResourcePatch\<close> and \<^verbatim>\<open>ClusterResourcePatch\<close> have the same shape; \<open>coCluster\<close> says which of the two
  Go types the value has.
\<close>

record Contributor =
  coCluster :: bool
  coMeta :: ObjectMeta
  coSpec :: ResourcePatchSpec
  coStatus :: ResourcePatchStatus

definition KindResourcePatch :: string where "KindResourcePatch = ''ResourcePatch''"
definition KindClusterResourcePatch :: string where "KindClusterResourcePatch = ''ClusterResourcePatch''"
definition KindSharedResource :: string where "KindSharedResource = ''SharedResource''"
definition KindClusterSharedResource :: string where "KindClusterSharedResource = ''ClusterSharedResource''"

lemmas kind_names = KindResourcePatch_def KindClusterResourcePatch_def KindSharedResource_def
  KindClusterSharedResource_def

definition ContributorKind :: "Contributor \<Rightarrow> string" where
  "ContributorKind c = (if coCluster c then KindClusterResourcePatch else KindResourcePatch)"

abbreviation coName :: "Contributor \<Rightarrow> string" where "coName c \<equiv> omName (coMeta c)"
abbreviation coNamespace :: "Contributor \<Rightarrow> string" where "coNamespace c \<equiv> omNamespace (coMeta c)"
abbreviation coTarget :: "Contributor \<Rightarrow> TargetRef" where "coTarget c \<equiv> rsTarget (coSpec c)"

section \<open>Trackers\<close>

record ContributorRef =
  crKind :: string
  crName :: string
  crNamespace :: string
  crUID :: string

record ContributorStatus =
  csPatchRef :: ContributorRef
  csObservedGeneration :: int
  csPriority :: int
  csFieldManager :: string
  csState :: ContributorState
  csLastAppliedHash :: string
  csOwnedPaths :: "string list"
  csPriorValues :: "RawExtension option"
  csPriorValuesCaptured :: bool
  csCreationTimestamp :: "Time option"

record ConflictStatus =
  cfFieldPath :: string
  cfClaimants :: "string list"
  cfHolder :: string

record PromotionRef =
  prName :: string
  prAdopted :: bool

record TrackerTargetRef =
  ttAPIVersion :: string
  ttKind :: string
  ttName :: string
  ttNamespace :: string

record SharedResourceSpec =
  srTargetRef :: TrackerTargetRef

record SharedResourceStatus =
  ssPhase :: TrackerPhase
  ssConditions :: "Condition list"
  ssPromotedTo :: "PromotionRef option"
  ssCreatedByOperator :: bool
  ssCreatorPatchRef :: "ContributorRef option"
  ssObservedBaseHash :: string
  ssObservedTargetUID :: string
  ssObservedResourceVersion :: string
  ssContributors :: "ContributorStatus list"
  ssContributorCount :: int
  ssConflicts :: "ConflictStatus list"

record Tracker =
  tkCluster :: bool
  tkMeta :: ObjectMeta
  tkSpec :: SharedResourceSpec
  tkStatus :: SharedResourceStatus

definition TrackerKind :: "Tracker \<Rightarrow> string" where
  "TrackerKind t = (if tkCluster t then KindClusterSharedResource else KindSharedResource)"

definition no_status :: SharedResourceStatus where
  "no_status = \<lparr>ssPhase = TrackerPhaseOther '''', ssConditions = [], ssPromotedTo = None,
     ssCreatedByOperator = False, ssCreatorPatchRef = None, ssObservedBaseHash = '''',
     ssObservedTargetUID = '''', ssObservedResourceVersion = '''', ssContributors = [],
     ssContributorCount = 0, ssConflicts = []\<rparr>"

definition ContributorFinalizer :: string where "ContributorFinalizer = ''terasky.com/contributor''"
definition TrackerFinalizer :: string where "TrackerFinalizer = ''terasky.com/shared-resource''"
definition AuthorizedAsAnnotation :: string where "AuthorizedAsAnnotation = ''terasky.com/authorized-as''"
definition AuthorizedIdentityAnnotation :: string where
  "AuthorizedIdentityAnnotation = ''terasky.com/authorized-identity''"
definition FieldManagerPrefix :: string where "FieldManagerPrefix = ''patch-operator/''"
definition GroupName :: string where "GroupName = ''terasky.com''"

section \<open>Helpers\<close>

definition ContributorRefOf :: "Contributor \<Rightarrow> ContributorRef" where
  "ContributorRefOf c =
     \<lparr>crKind = ContributorKind c, crName = coName c, crNamespace = coNamespace c, crUID = omUID (coMeta c)\<rparr>"

definition SameContributor :: "ContributorRef \<Rightarrow> ContributorRef \<Rightarrow> bool" where
  "SameContributor a b \<longleftrightarrow>
     (if crUID a \<noteq> '''' \<and> crUID b \<noteq> '''' then crUID a = crUID b
      else crKind a = crKind b \<and> crName a = crName b \<and> crNamespace a = crNamespace b)"

definition RefString :: "ContributorRef \<Rightarrow> string" where
  "RefString r =
     (if crNamespace r = '''' then crKind r @ ''/'' @ crName r
      else crKind r @ ''/'' @ crNamespace r @ ''/'' @ crName r)"

definition IsFenced :: "SharedResourceStatus \<Rightarrow> bool" where
  "IsFenced s \<longleftrightarrow> ssPromotedTo s \<noteq> None"

definition FindContributor :: "SharedResourceStatus \<Rightarrow> ContributorRef \<Rightarrow> ContributorStatus option" where
  "FindContributor s r = find (\<lambda>c. SameContributor (csPatchRef c) r) (ssContributors s)"

text \<open>\<open>now\<close> is the clock reading of \<^verbatim>\<open>metav1.Now\<close>.\<close>

fun upsertCondition :: "Condition list \<Rightarrow> Condition \<Rightarrow> Condition list" where
  "upsertCondition [] c = [c]"
| "upsertCondition (d # ds) c =
     (if cdType d \<noteq> cdType c then d # upsertCondition ds c
      else (if cdStatus d = cdStatus c then c\<lparr>cdLastTransitionTime := cdLastTransitionTime d\<rparr> else c) # ds)"

definition SetCondition :: "Time \<Rightarrow> Condition list \<Rightarrow> Condition \<Rightarrow> Condition list" where
  "SetCondition now conds c =
     upsertCondition conds (if cdLastTransitionTime c = 0 then c\<lparr>cdLastTransitionTime := now\<rparr> else c)"

definition GetCondition :: "Condition list \<Rightarrow> string \<Rightarrow> Condition option" where
  "GetCondition conds t = find (\<lambda>c. cdType c = t) conds"

section \<open>The recorded identity\<close>

record UserInfo =
  uiUsername :: string
  uiUID :: string
  uiGroups :: "string list"
  uiExtra :: "(string \<times> string list) list"

definition no_user :: UserInfo where
  "no_user = \<lparr>uiUsername = '''', uiUID = '''', uiGroups = [], uiExtra = []\<rparr>"

text \<open>
  \<open>unmarshal\<close> is \<^verbatim>\<open>json.Unmarshal\<close> into a \<^verbatim>\<open>RecordedIdentity\<close>: the identity a text encodes, if it is
  well formed. A missing annotation reads as the empty string.
\<close>

type_synonym RecordedIdentity = UserInfo

definition annotation :: "ObjectMeta \<Rightarrow> string \<Rightarrow> string" where
  "annotation m k = (case map_of (omAnnotations m) k of None \<Rightarrow> '''' | Some v \<Rightarrow> v)"

definition IdentityFromAnnotations ::
  "(string \<Rightarrow> RecordedIdentity option) \<Rightarrow> ObjectMeta \<Rightarrow> UserInfo option" where
  "IdentityFromAnnotations unmarshal m =
     (let raw = annotation m AuthorizedIdentityAnnotation;
          username = annotation m AuthorizedAsAnnotation;
          fallback = (if username \<noteq> '''' then Some (no_user\<lparr>uiUsername := username\<rparr>) else None)
      in if raw = '''' then fallback
         else (case unmarshal raw of
                 None \<Rightarrow> fallback
               | Some stored \<Rightarrow> if uiUsername stored \<noteq> '''' then Some stored else fallback))"

section \<open>Laws of the helpers\<close>

lemma SameContributor_refl [simp]: "SameContributor r r"
  by (simp add: SameContributor_def)

lemma SameContributor_sym: "SameContributor a b \<longleftrightarrow> SameContributor b a"
  by (auto simp: SameContributor_def)

lemma find_Some_iff_filter: "find P xs = (case filter P xs of [] \<Rightarrow> None | x # _ \<Rightarrow> Some x)"
  by (induction xs) auto

lemma GetCondition_upsert:
  "GetCondition (upsertCondition conds c) t =
     (if t = cdType c then
        Some (case GetCondition conds t of
                Some d \<Rightarrow> (if cdStatus d = cdStatus c then c\<lparr>cdLastTransitionTime := cdLastTransitionTime d\<rparr> else c)
              | None \<Rightarrow> c)
      else GetCondition conds t)"
  by (induction conds) (auto simp: GetCondition_def)

lemma upsertCondition_types:
  "map cdType (upsertCondition conds c) =
     (if cdType c \<in> cdType ` set conds then map cdType conds else map cdType conds @ [cdType c])"
  by (induction conds) auto

end
