(* ===== verification/FieldPath.thy ===== *)
theory FieldPath
  imports Json
begin

text \<open>
  Field paths, \<^verbatim>\<open>internal/render/fieldpath.go\<close>: segments, the textual notation and its parser, and
  the operations that read, write and remove the value a path addresses.

  \<open>Set\<close> and \<open>Delete\<close> mutate the object they are given. The model returns the new object together with
  the error or the result, and also returns the object as it is left behind when \<open>Set\<close> fails half
  way, since \<^verbatim>\<open>restoreOrDelete\<close> continues with that object.
\<close>

section \<open>Segments and paths\<close>

record Segment =
  sField :: string
  sIndex :: int
  sKey :: string
  sValue :: string

type_synonym Path = "Segment list"

definition IsField :: "Segment \<Rightarrow> bool" where
  "IsField s \<longleftrightarrow> sField s \<noteq> []"

definition IsIndex :: "Segment \<Rightarrow> bool" where
  "IsIndex s \<longleftrightarrow> sField s = [] \<and> sKey s = [] \<and> 0 \<le> sIndex s"

definition IsKeyMatch :: "Segment \<Rightarrow> bool" where
  "IsKeyMatch s \<longleftrightarrow> sKey s \<noteq> []"

definition FieldSegment :: "string \<Rightarrow> Segment" where
  "FieldSegment name = \<lparr>sField = name, sIndex = -1, sKey = [], sValue = []\<rparr>"

definition IndexSegment :: "int \<Rightarrow> Segment" where
  "IndexSegment i = \<lparr>sField = [], sIndex = i, sKey = [], sValue = []\<rparr>"

definition KeySegment :: "string \<Rightarrow> string \<Rightarrow> Segment" where
  "KeySegment key val = \<lparr>sField = [], sIndex = -1, sKey = key, sValue = val\<rparr>"

definition Child :: "Path \<Rightarrow> Segment \<Rightarrow> Path" where
  "Child p s = p @ [s]"

definition PathEqual :: "Path \<Rightarrow> Path \<Rightarrow> bool" where
  "PathEqual p q \<longleftrightarrow> length p = length q \<and> list_all2 (=) p q"

section \<open>Notation\<close>

definition SegmentString :: "Segment \<Rightarrow> string" where
  "SegmentString s =
     (if IsField s then sField s
      else if IsKeyMatch s then ''['' @ sKey s @ ''='' @ sValue s @ '']''
      else if IsIndex s then ''['' @ Itoa (sIndex s) @ '']''
      else ''<empty>'')"

text \<open>The builder loop of \<^verbatim>\<open>Path.String\<close>; \<open>b\<close> is what has been written so far.\<close>

fun pathBuild :: "string \<Rightarrow> Path \<Rightarrow> string" where
  "pathBuild b [] = b"
| "pathBuild b (s # p) =
     pathBuild
       (if IsField s then b @ (if b \<noteq> [] then ''.'' else []) @ sField s
        else if IsKeyMatch s then b @ ''['' @ sKey s @ ''='' @ sValue s @ '']''
        else if IsIndex s then b @ ''['' @ Itoa (sIndex s) @ '']''
        else b) p"

definition PathString :: "Path \<Rightarrow> string" where
  "PathString p = pathBuild [] p"

datatype parse_error =
    EmptyPath
  | UnterminatedBracket nat
  | EmptyBracket nat
  | EmptyKey string
  | NeitherIndexNorKey string
  | NegativeIndex int
  | TrailingDot
  | NoSegments

text \<open>The text between brackets: a key match when it holds an equals sign, else an index.\<close>

definition parseBracket :: "nat \<Rightarrow> string \<Rightarrow> (parse_error, Segment) result" where
  "parseBracket i inner =
     (if inner = [] then Inl (EmptyBracket i)
      else (case IndexByte inner (CHR ''='') of
        Some eq \<Rightarrow>
          (if take eq inner = [] then Inl (EmptyKey inner)
           else Inr (KeySegment (take eq inner) (drop (Suc eq) inner)))
      | None \<Rightarrow>
          (case Atoi inner of
             None \<Rightarrow> Inl (NeitherIndexNorKey inner)
           | Some n \<Rightarrow> if n < 0 then Inl (NegativeIndex n) else Inr (IndexSegment n))))"

definition field_byte :: "char \<Rightarrow> bool" where
  "field_byte c \<longleftrightarrow> c \<noteq> CHR ''.'' \<and> c \<noteq> CHR ''[''"

text \<open>The parser loop: \<open>s\<close> is the rest of the text at offset \<open>i\<close>, \<open>out\<close> the segments read.\<close>

function parseLoop :: "nat \<Rightarrow> string \<Rightarrow> Path \<Rightarrow> (parse_error, Path) result" where
  "parseLoop i [] out = (if out = [] then Inl NoSegments else Inr out)"
| "parseLoop i (c # cs) out =
     (if c = CHR ''['' then
        (case IndexByte cs (CHR '']'') of
           None \<Rightarrow> Inl (UnterminatedBracket i)
         | Some e \<Rightarrow>
             (case parseBracket i (take e cs) of
                Inl err \<Rightarrow> Inl err
              | Inr seg \<Rightarrow> parseLoop (i + e + 2) (drop (Suc e) cs) (out @ [seg])))
      else if c = CHR ''.'' then
        (if cs = [] then Inl TrailingDot else parseLoop (Suc i) cs out)
      else parseLoop (i + length (takeWhile field_byte (c # cs))) (dropWhile field_byte (c # cs))
             (out @ [FieldSegment (takeWhile field_byte (c # cs))]))"
  by pat_completeness auto
termination
  by (relation "measure (\<lambda>(i, s, out). length s)")
    (auto simp: field_byte_def le_imp_less_Suc length_dropWhile_le)

definition Parse :: "string \<Rightarrow> (parse_error, Path) result" where
  "Parse s = (if s = [] then Inl EmptyPath else parseLoop 0 s [])"

text \<open>A panic is \<open>None\<close>.\<close>

definition MustParse :: "string \<Rightarrow> Path option" where
  "MustParse s = (case Parse s of Inl e \<Rightarrow> None | Inr p \<Rightarrow> Some p)"

section \<open>Reading\<close>

text \<open>The first list element whose field prints as the given value.\<close>

fun findByKey :: "json list \<Rightarrow> string \<Rightarrow> string \<Rightarrow> nat option" where
  "findByKey [] key val = None"
| "findByKey (e # l) key val =
     (if (case e of JObj m \<Rightarrow> fmtv (mget m key) = val | _ \<Rightarrow> False) then Some 0
      else map_option Suc (findByKey l key val))"

fun Get :: "json \<Rightarrow> Path \<Rightarrow> json option" where
  "Get cur [] = Some cur"
| "Get cur (seg # p) =
     (if IsField seg then
        (case cur of
           JObj m \<Rightarrow> (case map_of m (sField seg) of None \<Rightarrow> None | Some v \<Rightarrow> Get v p)
         | _ \<Rightarrow> None)
      else if IsIndex seg then
        (case cur of
           JArr l \<Rightarrow> (if nat (sIndex seg) < length l then Get (l ! nat (sIndex seg)) p else None)
         | _ \<Rightarrow> None)
      else if IsKeyMatch seg then
        (case cur of
           JArr l \<Rightarrow> (case findByKey l (sKey seg) (sValue seg) of None \<Rightarrow> None | Some i \<Rightarrow> Get (l ! i) p)
         | _ \<Rightarrow> None)
      else Get cur p)"

section \<open>Writing\<close>

datatype set_error =
    SetEmptyPath
  | MustStartWithField string
  | ExpectedMap string
  | ListSegmentInSetIn string
  | UnhandledSegment
  | ExpectedListSegment
  | SetIndexPanic

definition emptyFor :: "Segment \<Rightarrow> json" where
  "emptyFor nxt = (if IsIndex nxt \<or> IsKeyMatch nxt then JArr [] else JObj [])"

text \<open>
  The list a write addresses, extended where the element is absent, and the index written:
  positions are filled with empty maps, a key match appends an element carrying the key.
\<close>

definition locate :: "json list \<Rightarrow> Segment \<Rightarrow> (json list \<times> nat) option" where
  "locate l seg =
     (if IsIndex seg then
        Some (l @ replicate (Suc (nat (sIndex seg)) - length l) (JObj []), nat (sIndex seg))
      else if IsKeyMatch seg then
        (case findByKey l (sKey seg) (sValue seg) of
           Some i \<Rightarrow> Some (l, i)
         | None \<Rightarrow> Some (l @ [JObj [(sKey seg, JStr (sValue seg))]], length l))
      else None)"

text \<open>
  On an error the caller's slice keeps its length: an element written in place stays written, an
  appended one is not seen.
\<close>

definition writeBack :: "json list \<Rightarrow> json list \<Rightarrow> nat \<Rightarrow> json \<times> set_error option
    \<Rightarrow> json list \<times> set_error option" where
  "writeBack l l1 i r =
     (case snd r of
        None \<Rightarrow> (l1[i := fst r], None)
      | Some e \<Rightarrow> (if length l < length l1 then l else l1[i := fst r], Some e))"

fun setIn :: "json \<Rightarrow> Path \<Rightarrow> json \<Rightarrow> json \<times> set_error option"
  and setInList :: "json list \<Rightarrow> Path \<Rightarrow> json \<Rightarrow> json list \<times> set_error option" where
  "setIn c [] v = (c, Some SetIndexPanic)"
| "setIn c (seg # p) v =
     (if IsField seg then
        (case c of
           JObj m \<Rightarrow>
             (if p = [] then (JObj (aput (sField seg) v m), None)
              else
                (case (if mget m (sField seg) = JNull then emptyFor (hd p) else mget m (sField seg)) of
                   JArr l \<Rightarrow>
                     (let (l', e) = setInList l p v in (JObj (aput (sField seg) (JArr l') m), e))
                 | child \<Rightarrow>
                     (let (c', e) = setIn child p v in (JObj (aput (sField seg) c' m), e))))
         | _ \<Rightarrow> (c, Some (ExpectedMap (sField seg))))
      else if IsIndex seg \<or> IsKeyMatch seg then (c, Some (ListSegmentInSetIn (SegmentString seg)))
      else (c, Some UnhandledSegment))"
| "setInList l [] v = (l, Some SetIndexPanic)"
| "setInList l (seg # p) v =
     (case locate l seg of
        None \<Rightarrow> (l, Some ExpectedListSegment)
      | Some (l1, i) \<Rightarrow>
          (if p = [] then (l1[i := v], None)
           else
             (case (if l1 ! i = JNull then emptyFor (hd p) else l1 ! i) of
                JArr n \<Rightarrow> (let (n', e) = setInList n p v in writeBack l l1 i (JArr n', e))
              | child \<Rightarrow> writeBack l l1 i (setIn child p v))))"

definition Set :: "json \<Rightarrow> Path \<Rightarrow> json \<Rightarrow> json \<times> set_error option" where
  "Set obj p v =
     (if p = [] then (obj, Some SetEmptyPath)
      else if \<not> IsField (hd p) then (obj, Some (MustStartWithField (PathString p)))
      else setIn obj p v)"

section \<open>Removing\<close>

fun deleteIn :: "json \<Rightarrow> Path \<Rightarrow> json \<times> bool"
  and deleteInList :: "json list \<Rightarrow> Path \<Rightarrow> json list \<times> bool" where
  "deleteIn c [] = (c, False)"
| "deleteIn c (seg # p) =
     (if IsField seg then
        (case c of
           JObj m \<Rightarrow>
             (case map_of m (sField seg) of
                None \<Rightarrow> (c, False)
              | Some child \<Rightarrow>
                  (if p = [] then (JObj (adel (sField seg) m), True)
                   else
                     (case child of
                        JArr l \<Rightarrow>
                          (let (l', r) = deleteInList l p
                           in (if r then JObj (aput (sField seg) (JArr l') m) else c, r))
                      | _ \<Rightarrow>
                          (let (c', r) = deleteIn child p
                           in (if r then JObj (aput (sField seg) c' m) else c, r)))))
         | _ \<Rightarrow> (c, False))
      else (c, False))"
| "deleteInList l [] = (l, False)"
| "deleteInList l (seg # p) =
     (case (if IsIndex seg then (if nat (sIndex seg) < length l then Some (nat (sIndex seg)) else None)
            else if IsKeyMatch seg then findByKey l (sKey seg) (sValue seg)
            else None) of
        None \<Rightarrow> (l, False)
      | Some i \<Rightarrow>
          (if p = [] then (take i l @ drop (Suc i) l, True)
           else
             (case l ! i of
                JArr n \<Rightarrow>
                  (let (n', r) = deleteInList n p in (if r then l[i := JArr n'] else l, r))
              | child \<Rightarrow>
                  (let (c', r) = deleteIn child p in (if r then l[i := c'] else l, r)))))"

text \<open>The loop of \<^verbatim>\<open>pruneEmpty\<close>, from the longest proper prefix of \<open>p\<close> down to its first segment.\<close>

fun pruneFrom :: "nat \<Rightarrow> json \<Rightarrow> Path \<Rightarrow> json" where
  "pruneFrom 0 obj p = obj"
| "pruneFrom (Suc i) obj p =
     (case Get obj (take (Suc i) p) of
        None \<Rightarrow> pruneFrom i obj p
      | Some v \<Rightarrow>
          (if v \<noteq> JObj [] then obj
           else (case deleteIn obj (take (Suc i) p) of
                   (obj', removed) \<Rightarrow> if removed then pruneFrom i obj' p else obj')))"

definition pruneEmpty :: "json \<Rightarrow> Path \<Rightarrow> json" where
  "pruneEmpty obj p = pruneFrom (length p - 1) obj p"

definition Delete :: "json \<Rightarrow> Path \<Rightarrow> json \<times> bool" where
  "Delete obj p =
     (if p = [] then (obj, False)
      else (case deleteIn obj p of
              (obj', removed) \<Rightarrow> (if removed then pruneEmpty obj' p else obj', removed)))"

end
