(* ===== verification/PathNotation.thy ===== *)
theory PathNotation
  imports FieldPath
begin

text \<open>
  What the textual notation of field paths preserves. Owned paths are stored in a tracker's status
  as text and parsed again on release, so a path that does not survive the round trip cannot be
  withdrawn.
\<close>

section \<open>Printable segments\<close>

text \<open>
  A segment survives the notation when it is a field without dots and opening brackets, a key match
  whose key holds no equals sign and no closing bracket and whose value holds no closing bracket, or
  an index in the range of an \<^verbatim>\<open>int\<close>.
\<close>

definition printable_seg :: "Segment \<Rightarrow> bool" where
  "printable_seg s \<longleftrightarrow>
     (if IsField s then s = FieldSegment (sField s) \<and> list_all field_byte (sField s)
      else if IsKeyMatch s then
        s = KeySegment (sKey s) (sValue s) \<and> CHR ''='' \<notin> set (sKey s) \<and>
        CHR '']'' \<notin> set (sKey s) \<and> CHR '']'' \<notin> set (sValue s)
      else s = IndexSegment (sIndex s) \<and> 0 \<le> sIndex s \<and> sIndex s < 2 ^ 63)"

definition printable :: "Path \<Rightarrow> bool" where
  "printable p \<longleftrightarrow> p \<noteq> [] \<and> list_all printable_seg p"

lemmas seg_defs = FieldSegment_def IndexSegment_def KeySegment_def IsField_def IsIndex_def
  IsKeyMatch_def

lemma segment_kinds [simp]:
  "IsField (FieldSegment f) \<longleftrightarrow> f \<noteq> []" "\<not> IsIndex (FieldSegment f)" "\<not> IsKeyMatch (FieldSegment f)"
  "\<not> IsField (IndexSegment n)" "IsIndex (IndexSegment n) \<longleftrightarrow> 0 \<le> n" "\<not> IsKeyMatch (IndexSegment n)"
  "\<not> IsField (KeySegment k v)" "\<not> IsIndex (KeySegment k v)" "IsKeyMatch (KeySegment k v) \<longleftrightarrow> k \<noteq> []"
  "sField (FieldSegment f) = f" "sKey (KeySegment k v) = k" "sValue (KeySegment k v) = v"
  "sIndex (IndexSegment n) = n"
  by (auto simp: seg_defs)

lemma printable_seg_cases [consumes 1, case_names field key index]:
  assumes "printable_seg s"
  obtains (field) f where "s = FieldSegment f" "f \<noteq> []" "list_all field_byte f"
  | (key) k v where "s = KeySegment k v" "k \<noteq> []" "CHR ''='' \<notin> set k" "CHR '']'' \<notin> set k"
      "CHR '']'' \<notin> set v"
  | (index) n where "s = IndexSegment n" "0 \<le> n" "n < 2 ^ 63"
  using assms
  by (auto simp: printable_seg_def IsField_def IsKeyMatch_def split: if_splits)

section \<open>The printed form\<close>

definition seg_text :: "Segment \<Rightarrow> string" where
  "seg_text s = (if IsField s then CHR ''.'' # sField s else SegmentString s)"

definition rest_text :: "Path \<Rightarrow> string" where
  "rest_text p = concat (map seg_text p)"

lemma pathBuild_rest:
  "b \<noteq> [] \<Longrightarrow> list_all printable_seg p \<Longrightarrow> pathBuild b p = b @ rest_text p"
proof (induction p arbitrary: b)
  case (Cons s p)
  from Cons.prems have "printable_seg s" by simp
  then show ?case
    using Cons by (cases rule: printable_seg_cases) (simp_all add: rest_text_def seg_text_def SegmentString_def)
qed (simp add: rest_text_def)

lemma PathString_Cons:
  assumes "list_all printable_seg (s # p)"
  shows "PathString (s # p) = SegmentString s @ rest_text p"
proof -
  from assms have "printable_seg s" by simp
  then show ?thesis
    using assms
    by (cases rule: printable_seg_cases)
      (simp_all add: PathString_def SegmentString_def pathBuild_rest)
qed

section \<open>Parsing the printed form\<close>

lemma IndexByte_append: "c \<notin> set u \<Longrightarrow> IndexByte (u @ c # w) c = Some (length u)"
  by (simp add: IndexByte_def takeWhile_append2[where xs = u] takeWhile_append)

lemma IndexByte_None: "c \<notin> set s \<Longrightarrow> IndexByte s c = None"
  by (simp add: IndexByte_def)

lemma parseBracket_key:
  assumes "k \<noteq> []" and "CHR ''='' \<notin> set k"
  shows "parseBracket i (k @ CHR ''='' # v) = Inr (KeySegment k v)"
  using assms by (simp add: parseBracket_def IndexByte_append)

lemma parseBracket_index:
  assumes "0 \<le> n" and "n < 2 ^ 63"
  shows "parseBracket i (Itoa n) = Inr (IndexSegment n)"
proof -
  have "CHR ''='' \<notin> set (Itoa n)"
    using Itoa_nonneg_digits[OF assms(1)] by (auto simp: list_all_iff dest: is_digit_neq)
  then show ?thesis
    using assms Itoa_nonneg_digits[OF assms(1)] by (simp add: parseBracket_def IndexByte_None Atoi_Itoa)
qed

lemma parseLoop_bracket:
  assumes "CHR '']'' \<notin> set u" and "parseBracket i u = Inr seg"
  shows "parseLoop i (CHR ''['' # u @ CHR '']'' # w) out
       = parseLoop (i + length u + 2) w (out @ [seg])"
  using assms by (simp add: IndexByte_append)

lemma parseLoop_field:
  assumes "f \<noteq> []" and "list_all field_byte f" and "w = [] \<or> \<not> field_byte (hd w)"
  shows "parseLoop i (f @ w) out = parseLoop (i + length f) w (out @ [FieldSegment f])"
proof -
  obtain c cs where f: "f = c # cs" using assms(1) by (cases f) auto
  have all: "\<forall>x \<in> set f. field_byte x" using assms(2) by (simp add: list_all_iff)
  have stop: "takeWhile field_byte w = []" "dropWhile field_byte w = w"
    using assms(3) by (cases w; simp)+
  have "takeWhile field_byte (f @ w) = f" "dropWhile field_byte (f @ w) = w"
    using all stop by (simp_all add: takeWhile_append2 dropWhile_append2)
  moreover from all f have "c \<noteq> CHR ''[''" "c \<noteq> CHR ''.''" by (auto simp: field_byte_def)
  ultimately show ?thesis using f by simp
qed

lemma rest_text_starts: "rest_text p = [] \<or> \<not> field_byte (hd (rest_text p))"
  if "list_all printable_seg p"
proof (cases p)
  case (Cons s q)
  with that have "printable_seg s" by simp
  then show ?thesis
    using Cons by (cases rule: printable_seg_cases)
      (simp_all add: rest_text_def seg_text_def SegmentString_def field_byte_def)
qed (simp add: rest_text_def)

lemma parseLoop_segment:
  assumes "printable_seg s" and "w = [] \<or> \<not> field_byte (hd w)"
  shows "\<exists>j. parseLoop i (SegmentString s @ w) out = parseLoop j w (out @ [s])"
  using assms(1)
proof (cases rule: printable_seg_cases)
  case (field f)
  then show ?thesis
    using parseLoop_field[OF field(2,3) assms(2)] by (auto simp: SegmentString_def)
next
  case (key k v)
  then show ?thesis
    using parseLoop_bracket[of "k @ CHR ''='' # v", OF _ parseBracket_key[OF key(2,3)], where w = w]
    by (auto simp: SegmentString_def)
next
  case (index n)
  have "CHR '']'' \<notin> set (Itoa n)"
    using Itoa_nonneg_digits[OF index(2)] by (auto simp: list_all_iff dest: is_digit_neq)
  then show ?thesis
    using index parseLoop_bracket[OF _ parseBracket_index[OF index(2,3)], where w = w]
    by (auto simp: SegmentString_def)
qed

lemma seg_text_cases:
  "seg_text s = (if IsField s then ''.'' else []) @ SegmentString s"
  by (simp add: seg_text_def SegmentString_def)

lemma parseLoop_rest:
  "list_all printable_seg p \<Longrightarrow> out @ p \<noteq> [] \<Longrightarrow> parseLoop i (rest_text p) out = Inr (out @ p)"
proof (induction p arbitrary: i out)
  case (Cons s p)
  have w: "rest_text p = [] \<or> \<not> field_byte (hd (rest_text p))"
    using Cons.prems by (intro rest_text_starts) simp
  have ok: "printable_seg s" using Cons.prems by simp
  have "rest_text (s # p) = (if IsField s then ''.'' else []) @ SegmentString s @ rest_text p"
    by (simp add: rest_text_def seg_text_cases)
  moreover have "SegmentString s @ rest_text p \<noteq> []"
    using ok by (cases rule: printable_seg_cases) (simp_all add: SegmentString_def)
  ultimately obtain i' where
    "parseLoop i (rest_text (s # p)) out = parseLoop i' (SegmentString s @ rest_text p) out"
    by (cases "IsField s") auto
  with parseLoop_segment[OF ok w] Cons show ?case by (metis append.assoc append_Cons append_Nil
      list.pred_inject(2) not_Cons_self2 self_append_conv2 snoc_eq_iff_butlast)
qed (simp add: rest_text_def)

lemma Parse_PathString_aux: "printable p \<Longrightarrow> Parse (PathString p) = Inr p"
proof -
  assume p: "printable p"
  then obtain s q where q: "p = s # q" by (cases p) (auto simp: printable_def)
  with p have ok: "list_all printable_seg (s # q)" by (simp add: printable_def)
  then have "SegmentString s \<noteq> []"
    by simp (metis SegmentString_def append_is_Nil_conv printable_seg_def IsField_def list.distinct(1))
  with q PathString_Cons[OF ok]
  have "Parse (PathString p) = parseLoop 0 (SegmentString s @ rest_text q) []"
    by (simp add: Parse_def)
  also obtain j where "\<dots> = parseLoop j (rest_text q) ([] @ [s])"
    using parseLoop_segment rest_text_starts ok by (metis list.pred_inject(2))
  also have "\<dots> = Inr p"
    using parseLoop_rest[of q "[s]"] ok q by simp
  finally show ?thesis .
qed

section \<open>Every parsed path is printable\<close>

lemma Atoi_range: "Atoi s = Some n \<Longrightarrow> in_int64 n"
  by (auto simp: Atoi_def Let_def split: prod.splits if_splits list.splits)

lemma IndexByte_Some:
  assumes "IndexByte s c = Some i"
  shows "c \<notin> set (take i s)" and "i < length s"
proof -
  have i: "i = length (takeWhile (\<lambda>x. x \<noteq> c) s)" and c: "c \<in> set s"
    using assms by (auto simp: IndexByte_def split: if_splits)
  have "take i s = takeWhile (\<lambda>x. x \<noteq> c) s" by (simp add: i flip: takeWhile_eq_take)
  then show "c \<notin> set (take i s)" by (auto dest: set_takeWhileD)
  show "i < length s"
    unfolding i using c by (metis (mono_tags, lifting) length_takeWhile_le linorder_neqE_nat
        not_less takeWhile_eq_all_conv takeWhile_eq_take take_all_iff)
qed

lemma parseBracket_printable:
  assumes "parseBracket i u = Inr seg" and "CHR '']'' \<notin> set u"
  shows "printable_seg seg"
proof (cases "IndexByte u (CHR ''='')")
  case None
  with assms show ?thesis
    by (auto simp: parseBracket_def printable_seg_def in_int64_def
        split: option.splits if_splits dest!: Atoi_range)
next
  case (Some e)
  with assms IndexByte_Some(1)[OF Some] show ?thesis
    by (auto simp: parseBracket_def printable_seg_def split: if_splits
        dest: in_set_takeD in_set_dropD)
qed

lemma parseLoop_printable:
  "parseLoop i s out = Inr p \<Longrightarrow> list_all printable_seg out \<Longrightarrow> printable p"
proof (induction i s out rule: parseLoop.induct)
  case (1 i out)
  then show ?case by (auto simp: printable_def split: if_splits)
next
  case (2 i c cs out)
  show ?case
  proof (cases "c = CHR ''[''")
    case True
    with "2.prems"(1) obtain e seg where e: "IndexByte cs (CHR '']'') = Some e"
      and seg: "parseBracket i (take e cs) = Inr seg"
      and loop: "parseLoop (i + e + 2) (drop (Suc e) cs) (out @ [seg]) = Inr p"
      by (auto split: option.splits sum.splits)
    have "printable_seg seg"
      using seg IndexByte_Some(1)[OF e] by (rule parseBracket_printable)
    with "2.IH"(1)[OF True e seg loop] "2.prems"(2) show ?thesis by simp
  next
    case False
    show ?thesis
    proof (cases "c = CHR ''.''")
      case True
      with 2 show ?thesis by (auto split: if_splits)
    next
      case dot: False
      with False have c: "field_byte c" by (simp add: field_byte_def)
      then have "printable_seg (FieldSegment (takeWhile field_byte (c # cs)))"
        by (auto simp: printable_seg_def list_all_iff dest: set_takeWhileD)
      moreover have "parseLoop (i + length (takeWhile field_byte (c # cs))) (dropWhile field_byte (c # cs))
          (out @ [FieldSegment (takeWhile field_byte (c # cs))]) = Inr p"
        using "2.prems"(1) False dot by simp
      ultimately show ?thesis using "2.IH"(3)[OF False dot] "2.prems"(2) by simp
    qed
  qed
qed

lemma Parse_printable: "Parse s = Inr p \<Longrightarrow> printable p"
  by (auto simp: Parse_def split: if_splits dest: parseLoop_printable)

section \<open>What the notation promises\<close>

text \<open>
  C32. The notation round-trips: a path of non-empty fields free of \<open>.\<close> and \<open>[\<close>, key matches without \<open>]\<close>
  whose key has no \<open>=\<close>, and non-negative indices parses back from its text to itself.
\<close>

theorem path_string_roundtrip:
  assumes "printable p"
  shows "Parse (PathString p) = Inr p"
  using assms by (rule Parse_PathString_aux)

text \<open>C32 at a path with the three kinds of segment.\<close>

theorem path_string_roundtrip_witness:
  "let p = [FieldSegment ''spec'', FieldSegment ''containers'', KeySegment ''name'' ''app'',
            FieldSegment ''ports'', IndexSegment 0]
   in PathString p = ''spec.containers[name=app].ports[0]'' \<and> Parse (PathString p) = Inr p"
proof -
  let ?p = "[FieldSegment ''spec'', FieldSegment ''containers'', KeySegment ''name'' ''app'',
    FieldSegment ''ports'', IndexSegment 0]"
  have "printable ?p" by code_simp
  moreover have "PathString ?p = ''spec.containers[name=app].ports[0]''" by code_simp
  ultimately show ?thesis using path_string_roundtrip[of ?p] unfolding Let_def by blast
qed

text \<open>
  What \<open>Parse\<close> accepts is in normal form: the parsed path prints to a text that parses to the same
  path, so a path kept in a status survives any number of reads and writes.
\<close>

theorem parse_normal_form:
  assumes "Parse s = Inr p"
  shows "Parse (PathString p) = Inr p"
  using assms by (blast intro: Parse_PathString_aux Parse_printable)

text \<open>The same on a text that is not itself in normal form.\<close>

theorem parse_normal_form_witness:
  "Parse ''.spec.list[007]'' = Inr [FieldSegment ''spec'', FieldSegment ''list'', IndexSegment 7] \<and>
   Parse (PathString [FieldSegment ''spec'', FieldSegment ''list'', IndexSegment 7])
     = Inr [FieldSegment ''spec'', FieldSegment ''list'', IndexSegment 7]"
proof -
  have "Parse ''.spec.list[007]'' = Inr [FieldSegment ''spec'', FieldSegment ''list'', IndexSegment 7]"
    by code_simp
  then show ?thesis using parse_normal_form by blast
qed

text \<open>
  The limit of the round trip: a field whose name contains a dot prints like two nested fields and
  is parsed as them, so the path of such a map key (an annotation \<open>example.com/owner\<close>, say) is lost once
  it has been printed.
\<close>

theorem dotted_field_splits:
  assumes "printable (p @ [FieldSegment u, FieldSegment w])"
  shows "PathString (p @ [FieldSegment (u @ ''.'' @ w)]) = PathString (p @ [FieldSegment u, FieldSegment w]) \<and>
    Parse (PathString (p @ [FieldSegment (u @ ''.'' @ w)])) = Inr (p @ [FieldSegment u, FieldSegment w])"
proof -
  have *: "pathBuild b (p @ [FieldSegment (u @ ''.'' @ w)]) = pathBuild b (p @ [FieldSegment u, FieldSegment w])"
    if "u \<noteq> []" "w \<noteq> []" for b
    using that by (induction p arbitrary: b) (auto simp: seg_defs)
  have "u \<noteq> []" "w \<noteq> []" using assms by (auto simp: printable_def printable_seg_def seg_defs)
  then show ?thesis using * Parse_PathString_aux[OF assms] by (simp add: PathString_def)
qed

text \<open>The same at an annotation key with a domain prefix.\<close>

theorem dotted_field_splits_witness:
  "Parse (PathString [FieldSegment ''metadata'', FieldSegment ''annotations'', FieldSegment ''example.com/owner''])
   = Inr [FieldSegment ''metadata'', FieldSegment ''annotations'', FieldSegment ''example'', FieldSegment ''com/owner'']"
proof -
  have "printable ([FieldSegment ''metadata'', FieldSegment ''annotations'']
    @ [FieldSegment ''example'', FieldSegment ''com/owner''])" by code_simp
  from dotted_field_splits[OF this] show ?thesis unfolding append.simps by (rule conjunct2)
qed

end
