(* ===== verification/PathLaws.thy ===== *)
theory PathLaws
  imports PathNotation
begin

text \<open>
  What \<open>Get\<close>, \<open>Set\<close> and \<open>Delete\<close> promise each other on the paths a contribution owns: map fields
  and key-matched list elements. A write is read back, leaves every disjoint path alone, and can be
  undone; a removal takes away the addressed value only.
\<close>

section \<open>One step into an object\<close>

definition elem_matches :: "string \<Rightarrow> string \<Rightarrow> json \<Rightarrow> bool" where
  "elem_matches key val e = (case e of JObj m \<Rightarrow> fmtv (mget m key) = val | _ \<Rightarrow> False)"

lemma findByKey_Cons:
  "findByKey (e # l) k v = (if elem_matches k v e then Some 0 else map_option Suc (findByKey l k v))"
  by (simp add: elem_matches_def)

declare findByKey.simps(2) [simp del] findByKey_Cons [simp]

lemma findByKey_None_iff: "findByKey l k v = None \<longleftrightarrow> filter (elem_matches k v) l = []"
  by (induction l) auto

lemma findByKey_SomeD:
  "findByKey l k v = Some i \<Longrightarrow> i < length l \<and> elem_matches k v (l ! i)
     \<and> l ! i = hd (filter (elem_matches k v) l)"
  by (induction l arbitrary: i) (auto split: if_splits)

lemma findByKey_update:
  "findByKey l k v = Some i \<Longrightarrow> elem_matches k v d \<Longrightarrow>
     filter (elem_matches k v) (l[i := d]) = d # tl (filter (elem_matches k v) l)"
  by (induction l arbitrary: i) (auto split: if_splits)

lemma findByKey_remove:
  "findByKey l k v = Some i \<Longrightarrow>
     filter (elem_matches k v) (take i l @ drop (Suc i) l) = tl (filter (elem_matches k v) l)"
  by (induction l arbitrary: i) (auto split: if_splits)

lemma filter_update_other:
  "i < length l \<Longrightarrow> \<not> P (l ! i) \<Longrightarrow> \<not> P d \<Longrightarrow> filter P (l[i := d]) = filter P l"
proof (induction l arbitrary: i)
  case (Cons x l)
  then show ?case by (cases i) auto
qed simp

lemma filter_remove_other:
  "i < length l \<Longrightarrow> \<not> P (l ! i) \<Longrightarrow> filter P (take i l @ drop (Suc i) l) = filter P l"
proof (induction l arbitrary: i)
  case (Cons x l)
  then show ?case by (cases i) auto
qed simp

text \<open>The values one segment addresses: a field has at most one, a key match may have several.\<close>

definition matches1 :: "json \<Rightarrow> Segment \<Rightarrow> json list" where
  "matches1 c s =
     (if IsField s then
        (case c of JObj m \<Rightarrow> (case map_of m (sField s) of None \<Rightarrow> [] | Some v \<Rightarrow> [v]) | _ \<Rightarrow> [])
      else (case c of JArr l \<Rightarrow> filter (elem_matches (sKey s) (sValue s)) l | _ \<Rightarrow> []))"

definition hd_opt :: "'a list \<Rightarrow> 'a option" where
  "hd_opt xs = (case xs of [] \<Rightarrow> None | x # _ \<Rightarrow> Some x)"

lemma hd_opt_simps [simp]: "hd_opt [] = None" "hd_opt (x # xs) = Some x"
  by (simp_all add: hd_opt_def)

text \<open>
  Segments that address by name: fields and key matches, not positions. A key match on the text
  nil prints as would select the elements without the key.
\<close>

definition addr_seg :: "Segment \<Rightarrow> bool" where
  "addr_seg s \<longleftrightarrow> IsField s \<noteq> IsKeyMatch s \<and> (IsKeyMatch s \<longrightarrow> sValue s \<noteq> ''<nil>'')"

lemma addr_seg_cases [consumes 1, case_names field key]:
  assumes "addr_seg s"
  obtains "IsField s" "\<not> IsKeyMatch s" "\<not> IsIndex s"
  | "\<not> IsField s" "IsKeyMatch s" "\<not> IsIndex s"
  using assms by (auto simp: addr_seg_def IsIndex_def IsKeyMatch_def IsField_def)

lemma Get_Cons:
  assumes "addr_seg s"
  shows "Get c (s # p) = (case hd_opt (matches1 c s) of None \<Rightarrow> None | Some d \<Rightarrow> Get d p)"
  using assms
proof (cases rule: addr_seg_cases)
  case field
  then show ?thesis by (auto simp: matches1_def split: json.splits option.splits)
next
  case key
  have "(case findByKey l (sKey s) (sValue s) of None \<Rightarrow> None | Some i \<Rightarrow> Get (l ! i) p) =
      (case hd_opt (filter (elem_matches (sKey s) (sValue s)) l) of None \<Rightarrow> None | Some d \<Rightarrow> Get d p)"
    for l
    using findByKey_None_iff[of l "sKey s" "sValue s"]
    by (cases "filter (elem_matches (sKey s) (sValue s)) l"; cases "findByKey l (sKey s) (sValue s)")
      (auto dest: findByKey_SomeD)
  with key show ?thesis by (auto simp: matches1_def split: json.splits)
qed

declare Get.simps(2) [simp del]

section \<open>Writing, on maps and lists alike\<close>

definition setAny :: "json \<Rightarrow> Path \<Rightarrow> json \<Rightarrow> json \<times> set_error option" where
  "setAny c p v = (case c of JArr l \<Rightarrow> (case setInList l p v of (l', e) \<Rightarrow> (JArr l', e)) | _ \<Rightarrow> setIn c p v)"

lemma setAny_containers:
  "setAny (JObj m) p v = setIn (JObj m) p v"
  "setAny (JArr l) p v = (case setInList l p v of (l', e) \<Rightarrow> (JArr l', e))"
  by (simp_all add: setAny_def)

lemma setIn_single: "IsField s \<Longrightarrow> setIn (JObj m) [s] v = (JObj (aput (sField s) v m), None)"
  by simp

lemma setInList_single: "locate l s = Some (l1, i) \<Longrightarrow> setInList l [s] v = (l1[i := v], None)"
  by simp

lemma setIn_fail:
  "(\<forall>m. c \<noteq> JObj m) \<or> \<not> IsField s \<Longrightarrow> \<exists>e. setIn c (s # p) v = (c, Some e)"
  by (cases c) auto

lemma setInList_fail: "locate l s = None \<Longrightarrow> setInList l (s # p) v = (l, Some ExpectedListSegment)"
  by simp

lemma setIn_Cons:
  assumes "IsField s" and "p \<noteq> []"
  shows "setIn (JObj m) (s # p) v =
    (case setAny (if mget m (sField s) = JNull then emptyFor (hd p) else mget m (sField s)) p v of
       (d, e) \<Rightarrow> (JObj (aput (sField s) d m), e))"
  using assms by (simp add: setAny_def split: json.split prod.split)

lemma setInList_Cons:
  assumes "locate l s = Some (l1, i)" and "p \<noteq> []"
  shows "setInList l (s # p) v =
    writeBack l l1 i (setAny (if l1 ! i = JNull then emptyFor (hd p) else l1 ! i) p v)"
  using assms by (simp add: setAny_def split: json.split prod.split)

declare setIn.simps(2) [simp del] setInList.simps(2) [simp del]

lemmas set_steps = setIn_single setInList_single setInList_fail setIn_Cons setInList_Cons

text \<open>A segment fits a container: fields go with maps, key matches with lists.\<close>

definition fits :: "json \<Rightarrow> Segment \<Rightarrow> bool" where
  "fits c s \<longleftrightarrow> (case c of JObj _ \<Rightarrow> IsField s | JArr _ \<Rightarrow> \<not> IsField s | _ \<Rightarrow> False)"

definition put1 :: "json \<Rightarrow> Segment \<Rightarrow> json \<Rightarrow> json" where
  "put1 c s d =
     (case c of
        JObj m \<Rightarrow> JObj (aput (sField s) d m)
      | JArr l \<Rightarrow> (case locate l s of None \<Rightarrow> c | Some (l1, i) \<Rightarrow> JArr (l1[i := d]))
      | _ \<Rightarrow> c)"

text \<open>The value a write descends into: the addressed one, or the fresh container it creates.\<close>

definition child1 :: "json \<Rightarrow> Segment \<Rightarrow> Segment \<Rightarrow> json" where
  "child1 c s nxt =
     (case hd_opt (matches1 c s) of
        None \<Rightarrow> (if IsField s then emptyFor nxt else JObj [(sKey s, JStr (sValue s))])
      | Some d \<Rightarrow> (if d = JNull then emptyFor nxt else d))"

lemma locate_key:
  assumes "\<not> IsField s" "IsKeyMatch s" "\<not> IsIndex s"
  shows "\<exists>l1 i. locate l s = Some (l1, i) \<and> i < length l1 \<and>
     l1 ! i = child1 (JArr l) s nxt \<and> l1 ! i \<noteq> JNull"
proof (cases "findByKey l (sKey s) (sValue s)")
  case None
  moreover from None have "filter (elem_matches (sKey s) (sValue s)) l = []"
    by (simp add: findByKey_None_iff)
  ultimately show ?thesis using assms by (simp add: locate_def child1_def matches1_def)
next
  case (Some i)
  with findByKey_SomeD[OF Some] findByKey_None_iff[of l "sKey s" "sValue s"] assms show ?thesis
    by (cases "filter (elem_matches (sKey s) (sValue s)) l")
      (auto simp: locate_def child1_def matches1_def elem_matches_def)
qed

lemma setAny_misfit:
  assumes "addr_seg s" and "\<not> fits c s"
  shows "\<exists>e. setAny c (s # p) v = (c, Some e)"
proof (cases c)
  case (JArr l)
  with assms have "locate l s = None"
    by (auto simp: fits_def locate_def elim: addr_seg_cases)
  with JArr show ?thesis by (simp add: setAny_def setInList_fail)
qed (use assms setIn_fail[of c s] in \<open>auto simp: setAny_def fits_def\<close>)

lemma fits_cases [consumes 2, case_names map list]:
  assumes "addr_seg s" and "fits c s"
  obtains m where "c = JObj m" "IsField s" "\<not> IsKeyMatch s" "\<not> IsIndex s"
  | l where "c = JArr l" "\<not> IsField s" "IsKeyMatch s" "\<not> IsIndex s"
  using assms by (cases c) (auto simp: fits_def elim: addr_seg_cases)

lemma setAny_single:
  assumes "addr_seg s" and "fits c s"
  shows "setAny c [s] v = (put1 c s v, None)"
  using assms
proof (cases rule: fits_cases)
  case (list l)
  then show ?thesis
    using locate_key[of s l s] by (auto simp: setAny_def put1_def set_steps)
qed (simp add: setAny_def put1_def set_steps)

lemma setAny_Cons:
  assumes "addr_seg s" and "fits c s" and "p \<noteq> []"
  shows "setAny c (s # p) v = (c', None) \<longleftrightarrow>
     (\<exists>d. setAny (child1 c s (hd p)) p v = (d, None) \<and> c' = put1 c s d)"
  using assms(1,2)
proof (cases rule: fits_cases)
  case (map m)
  have "(if mget m (sField s) = JNull then emptyFor (hd p) else mget m (sField s)) = child1 c s (hd p)"
    using map by (auto simp: child1_def matches1_def mget_def split: option.splits)
  with map assms(3) show ?thesis
    by (auto simp: setAny_containers put1_def set_steps split: prod.splits)
next
  case (list l)
  then obtain l1 i where loc: "locate l s = Some (l1, i)" "l1 ! i = child1 c s (hd p)" "l1 ! i \<noteq> JNull"
    using locate_key[of s l "hd p"] by auto
  moreover obtain d e where "setAny (child1 c s (hd p)) p v = (d, e)" by fastforce
  ultimately show ?thesis
    using list assms(3)
    by (auto simp: setAny_containers put1_def writeBack_def set_steps split: option.splits)
qed

lemma setAny_ConsD:
  assumes "addr_seg s" and "setAny c (s # p) v = (c', None)"
  shows "fits c s \<and> (if p = [] then c' = put1 c s v
     else \<exists>d. setAny (child1 c s (hd p)) p v = (d, None) \<and> c' = put1 c s d)"
  using assms setAny_misfit[OF assms(1), of c p v] setAny_single[OF assms(1), of c v]
    setAny_Cons[OF assms(1), of c p v c']
  by (cases "fits c s"; cases "p = []") auto

section \<open>Laws of one step\<close>

text \<open>A value may be stored under a key match only if it carries the key.\<close>

definition elem_ok :: "Segment \<Rightarrow> json \<Rightarrow> bool" where
  "elem_ok s d \<longleftrightarrow> IsField s \<or> elem_matches (sKey s) (sValue s) d"

text \<open>Two different fields, or two values of the same list key.\<close>

definition disjoint_seg :: "Segment \<Rightarrow> Segment \<Rightarrow> bool" where
  "disjoint_seg s t \<longleftrightarrow>
     (if IsField s then IsField t \<and> sField s \<noteq> sField t
      else \<not> IsField t \<and> sKey s = sKey t \<and> sValue s \<noteq> sValue t)"

lemma elem_matches_other: "elem_matches k v e \<Longrightarrow> v \<noteq> w \<Longrightarrow> \<not> elem_matches k w e"
  by (auto simp: elem_matches_def split: json.splits)

lemma elem_matches_seed [simp]: "elem_matches k v (JObj [(k, JStr v)])"
  by (simp add: elem_matches_def mget_def)

lemma put1_same:
  assumes "addr_seg s" "fits c s" "elem_ok s d"
  shows "matches1 (put1 c s d) s = d # tl (matches1 c s)"
  using assms(1,2)
proof (cases rule: fits_cases)
  case (map m)
  then show ?thesis by (auto simp: matches1_def put1_def go_map split: option.splits)
next
  case (list l)
  with assms(3) show ?thesis
    by (cases "findByKey l (sKey s) (sValue s)")
      (auto simp: matches1_def put1_def locate_def elem_ok_def findByKey_update
        dest: findByKey_None_iff[THEN iffD1])
qed

lemma put1_other:
  assumes "addr_seg s" "fits c s" "elem_ok s d" "disjoint_seg s t"
  shows "matches1 (put1 c s d) t = matches1 c t"
  using assms(1,2)
proof (cases rule: fits_cases)
  case (map m)
  with assms(4) show ?thesis
    by (auto simp: matches1_def put1_def go_map disjoint_seg_def split: option.splits)
next
  case (list l)
  with assms(3,4) have t: "\<not> IsField t" "sKey t = sKey s" "sValue t \<noteq> sValue s"
    and d: "\<not> elem_matches (sKey t) (sValue t) d"
    by (auto simp: disjoint_seg_def elem_ok_def dest: elem_matches_other)
  show ?thesis
  proof (cases "findByKey l (sKey s) (sValue s)")
    case None
    with list t d show ?thesis by (simp add: matches1_def put1_def locate_def)
  next
    case (Some i)
    then have "\<not> elem_matches (sKey t) (sValue t) (l ! i)"
      using findByKey_SomeD[OF Some] t elem_matches_other by metis
    with list t d Some findByKey_SomeD[OF Some] show ?thesis
      by (simp add: matches1_def put1_def locate_def filter_update_other)
  qed
qed

lemma child1_elem_ok:
  assumes "addr_seg s" "fits c s"
  shows "elem_ok s (child1 c s nxt)"
  using assms
proof (cases rule: fits_cases)
  case (list l)
  then show ?thesis
    by (cases "filter (elem_matches (sKey s) (sValue s)) l")
      (auto simp: elem_ok_def child1_def matches1_def filter_eq_Cons_iff elem_matches_def[of _ _ JNull])
qed (auto simp: elem_ok_def)

section \<open>Laws of paths\<close>

text \<open>All the values a path addresses; \<open>Get\<close> reads the first.\<close>

fun Matches :: "json \<Rightarrow> Path \<Rightarrow> json list" where
  "Matches c [] = [c]"
| "Matches c [s] = matches1 c s"
| "Matches c (s # t # p) = (case hd_opt (matches1 c s) of None \<Rightarrow> [] | Some d \<Rightarrow> Matches d (t # p))"

lemma Matches_Cons:
  "p \<noteq> [] \<Longrightarrow> Matches c (s # p) = (case hd_opt (matches1 c s) of None \<Rightarrow> [] | Some d \<Rightarrow> Matches d p)"
  by (cases p) (simp_all split: option.split)

lemma Matches_put1:
  assumes "addr_seg s" "fits c s" "elem_ok s d" "p \<noteq> []"
  shows "Matches (put1 c s d) (s # p) = Matches d p"
  using assms by (simp add: Matches_Cons put1_same)

lemma Get_Matches: "list_all addr_seg p \<Longrightarrow> Get c p = hd_opt (Matches c p)"
proof (induction c p rule: Matches.induct)
  case (2 c s)
  then show ?case by (simp add: Get_Cons split: option.splits)
qed (auto simp: Get_Cons split: option.splits)

text \<open>
  A path may be written with \<open>v\<close> without changing which elements its key matches select: the element
  stored under a final key match carries the key, and a write below a key match is to another field.
\<close>

definition key_next :: "Segment \<Rightarrow> Path \<Rightarrow> bool" where
  "key_next s p \<longleftrightarrow> IsField s \<or> (case p of [] \<Rightarrow> False | t # _ \<Rightarrow> IsField t \<and> sField t \<noteq> sKey s)"

fun key_stable :: "Path \<Rightarrow> json \<Rightarrow> bool" where
  "key_stable [] v = True"
| "key_stable (s # p) v = (addr_seg s \<and> (if p = [] then elem_ok s v else key_next s p) \<and> key_stable p v)"

fun disjoint :: "Path \<Rightarrow> Path \<Rightarrow> bool" where
  "disjoint (s # p) (t # q) = (disjoint_seg s t \<or> (s = t \<and> key_next s q \<and> disjoint p q))"
| "disjoint p q = False"

lemma disjoint_nonempty: "disjoint p q \<Longrightarrow> p \<noteq> [] \<and> q \<noteq> []"
  by (cases p; cases q) auto

lemma key_stable_addr: "key_stable p v \<Longrightarrow> list_all addr_seg p"
  by (induction p) auto

lemma matches1_empty:
  "matches1 (emptyFor x) s = []" "matches1 JNull s = []"
  by (simp_all add: matches1_def emptyFor_def)

lemma Matches_empty:
  "q \<noteq> [] \<Longrightarrow> Matches (emptyFor x) q = []" "q \<noteq> [] \<Longrightarrow> Matches JNull q = []"
  by (cases q; cases "tl q"; simp add: matches1_empty Matches_Cons)+

lemma Matches_child1:
  assumes "key_next s q" and "q \<noteq> []"
  shows "Matches (child1 c s x) q = Matches c (s # q)"
proof (cases "hd_opt (matches1 c s)")
  case None
  show ?thesis
  proof (cases "IsField s")
    case True
    with None assms show ?thesis by (simp add: child1_def Matches_Cons Matches_empty)
  next
    case False
    with assms obtain t r where q: "q = t # r" "IsField t" "sField t \<noteq> sKey s"
      by (auto simp: key_next_def split: list.splits)
    with None False show ?thesis
      by (cases r) (simp_all add: child1_def Matches_Cons matches1_def)
  qed
next
  case (Some d)
  with assms show ?thesis by (simp add: child1_def Matches_Cons Matches_empty)
qed

lemma setAny_elem_ok:
  assumes "addr_seg s" "fits c s" "key_next s p" "list_all addr_seg p" "p \<noteq> []"
    and "setAny (child1 c s (hd p)) p v = (d, None)"
  shows "elem_ok s d"
proof (cases "IsField s")
  case False
  with assms(3) obtain t r where p: "p = t # r" "IsField t" "sField t \<noteq> sKey s"
    by (auto simp: key_next_def split: list.splits)
  with assms have "fits (child1 c s (hd p)) t" and "\<exists>e. d = put1 (child1 c s (hd p)) t e"
    using setAny_ConsD[of t "child1 c s (hd p)" r v d] by (auto split: if_splits)
  moreover have "elem_matches (sKey s) (sValue s) (child1 c s (hd p))"
    using child1_elem_ok[OF assms(1,2)] False by (simp add: elem_ok_def)
  ultimately show ?thesis
    using p by (auto simp: elem_ok_def fits_def put1_def elem_matches_def mget_def go_map split: json.splits)
qed (simp add: elem_ok_def)

lemma setAny_stableD:
  assumes "key_stable (s # p) v" and "setAny c (s # p) v = (c', None)"
  obtains d where "fits c s" "elem_ok s d" "c' = put1 c s d"
    "if p = [] then d = v else setAny (child1 c s (hd p)) p v = (d, None)"
proof -
  have s: "addr_seg s" "list_all addr_seg p" using assms(1) by (auto dest: key_stable_addr)
  show thesis
    using setAny_ConsD[OF s(1) assms(2)] assms(1) s setAny_elem_ok[OF s(1) _ _ s(2)] that
    by (cases "p = []") auto
qed

lemma setAny_Matches:
  "setAny c p v = (c', None) \<Longrightarrow> key_stable p v \<Longrightarrow> p \<noteq> [] \<Longrightarrow> Matches c' p = v # tl (Matches c p)"
proof (induction p arbitrary: c c')
  case (Cons s p)
  from Cons.prems(2) have s: "addr_seg s" by simp
  from Cons.prems(2,1) obtain d where d: "fits c s" "elem_ok s d" "c' = put1 c s d"
    "if p = [] then d = v else setAny (child1 c s (hd p)) p v = (d, None)"
    by (rule setAny_stableD)
  show ?case
  proof (cases "p = []")
    case True
    with d s show ?thesis by (simp add: put1_same)
  next
    case False
    then have "Matches d p = v # tl (Matches (child1 c s (hd p)) p)"
      using Cons.IH d Cons.prems(2) by simp
    with False d s Cons.prems(2) show ?thesis
      by (simp add: Matches_put1 Matches_child1)
  qed
qed simp

lemma setAny_frame:
  "setAny c p v = (c', None) \<Longrightarrow> key_stable p v \<Longrightarrow> disjoint p q \<Longrightarrow> Matches c' q = Matches c q"
proof (induction p arbitrary: c c' q)
  case (Cons s p)
  from Cons.prems(2) have s: "addr_seg s" by simp
  from Cons.prems(2,1) obtain d where d: "fits c s" "elem_ok s d" "c' = put1 c s d"
    "if p = [] then d = v else setAny (child1 c s (hd p)) p v = (d, None)"
    by (rule setAny_stableD)
  from Cons.prems(3) obtain t r where q: "q = t # r" by (cases q) auto
  show ?case
  proof (cases "disjoint_seg s t")
    case True
    with d s have "matches1 c' t = matches1 c t" by (simp add: put1_other)
    with q show ?thesis by (cases r) simp_all
  next
    case False
    with Cons.prems(3) q have t: "t = s" "key_next s r" "disjoint p r" by auto
    then have ne: "p \<noteq> []" "r \<noteq> []" using disjoint_nonempty by auto
    with Cons t d have "Matches d r = Matches (child1 c s (hd p)) r" by simp
    with ne q t d s show ?thesis
      by (simp add: Matches_put1 Matches_child1)
  qed
qed simp

section \<open>Removing, on maps and lists alike\<close>

definition deleteAny :: "json \<Rightarrow> Path \<Rightarrow> json \<times> bool" where
  "deleteAny c p = (case c of JArr l \<Rightarrow> (case deleteInList l p of (l', r) \<Rightarrow> (JArr l', r)) | _ \<Rightarrow> deleteIn c p)"

definition remove1 :: "json \<Rightarrow> Segment \<Rightarrow> json" where
  "remove1 c s =
     (case c of
        JObj m \<Rightarrow> JObj (adel (sField s) m)
      | JArr l \<Rightarrow> (case findByKey l (sKey s) (sValue s) of
                   None \<Rightarrow> c | Some i \<Rightarrow> JArr (take i l @ drop (Suc i) l))
      | _ \<Rightarrow> c)"

lemma matches1_fits: "addr_seg s \<Longrightarrow> matches1 c s \<noteq> [] \<Longrightarrow> fits c s"
  by (auto simp: matches1_def fits_def split: json.splits if_splits)

lemma key_found:
  "filter (elem_matches k v) l \<noteq> [] \<Longrightarrow> \<exists>i. findByKey l k v = Some i \<and> i < length l \<and>
     l ! i = hd (filter (elem_matches k v) l)"
  using findByKey_None_iff[of l k v] findByKey_SomeD[of l k v] by (cases "findByKey l k v") auto

definition position :: "json list \<Rightarrow> Segment \<Rightarrow> nat option" where
  "position l s =
     (if IsIndex s then (if nat (sIndex s) < length l then Some (nat (sIndex s)) else None)
      else if IsKeyMatch s then findByKey l (sKey s) (sValue s) else None)"

lemma position_less: "position l s = Some i \<Longrightarrow> i < length l"
  by (auto simp: position_def split: if_splits dest: findByKey_SomeD)

lemma deleteAny_map:
  "deleteAny (JObj m) (s # p) =
     (if IsField s \<and> map_of m (sField s) \<noteq> None
      then (if p = [] then (JObj (adel (sField s) m), True)
            else (case deleteAny (the (map_of m (sField s))) p of
                    (d, r) \<Rightarrow> (if r then JObj (aput (sField s) d m) else JObj m, r)))
      else (JObj m, False))"
  by (auto simp: deleteAny_def split: option.split json.split prod.split)

lemma deleteAny_list:
  "deleteAny (JArr l) (s # p) =
     (case position l s of
        None \<Rightarrow> (JArr l, False)
      | Some i \<Rightarrow>
          (if p = [] then (JArr (take i l @ drop (Suc i) l), True)
           else (case deleteAny (l ! i) p of (d, r) \<Rightarrow> (JArr (if r then l[i := d] else l), r))))"
  by (simp add: deleteAny_def position_def[symmetric] split: option.split json.split prod.split)

lemma deleteAny_Cons:
  assumes "addr_seg s"
  shows "deleteAny c (s # p) =
     (if matches1 c s = [] then (c, False)
      else if p = [] then (remove1 c s, True)
      else (case deleteAny (hd (matches1 c s)) p of
              (d, r) \<Rightarrow> (if r then put1 c s d else c, r)))"
proof (cases c)
  case (JObj m)
  with assms show ?thesis
    by (cases rule: addr_seg_cases) (auto simp: deleteAny_map matches1_def remove1_def put1_def split: prod.split)
next
  case (JArr l)
  show ?thesis
    using assms
  proof (cases rule: addr_seg_cases)
    case field
    with JArr show ?thesis by (simp add: deleteAny_list position_def matches1_def)
  next
    case key
    show ?thesis
    proof (cases "matches1 c s = []")
      case True
      with JArr key show ?thesis
        by (auto simp: deleteAny_list position_def matches1_def findByKey_None_iff[symmetric])
    next
      case False
      then obtain i where "findByKey l (sKey s) (sValue s) = Some i" "l ! i = hd (matches1 c s)"
        using key_found[of "sKey s" "sValue s" l] JArr key by (auto simp: matches1_def)
      with False JArr key show ?thesis
        by (simp add: deleteAny_list position_def remove1_def put1_def locate_def split: prod.split)
    qed
  qed
qed (simp_all add: deleteAny_def matches1_def)

lemma remove1_same:
  assumes "addr_seg s" "fits c s" "wf_json c"
  shows "matches1 (remove1 c s) s = tl (matches1 c s)"
  using assms(1,2)
proof (cases rule: fits_cases)
  case (map m)
  with assms(3) show ?thesis
    by (auto simp: matches1_def remove1_def go_map wf_JObjD split: option.splits)
next
  case (list l)
  then show ?thesis
    using findByKey_None_iff[of l "sKey s" "sValue s"]
    by (auto simp: matches1_def remove1_def findByKey_remove simp del: filter_append split: option.splits)
qed

lemma remove1_other:
  assumes "addr_seg s" "fits c s" "wf_json c" "disjoint_seg s t"
  shows "matches1 (remove1 c s) t = matches1 c t"
  using assms(1,2)
proof (cases rule: fits_cases)
  case (map m)
  with assms(3,4) show ?thesis
    by (auto simp: matches1_def remove1_def go_map wf_JObjD disjoint_seg_def split: option.splits)
next
  case (list l)
  show ?thesis
  proof (cases "findByKey l (sKey s) (sValue s)")
    case (Some i)
    then have "i < length l" "\<not> elem_matches (sKey t) (sValue t) (l ! i)"
      using findByKey_SomeD[OF Some] assms(4) list elem_matches_other
      by (auto simp: disjoint_seg_def)
    with list assms(4) Some show ?thesis
      by (simp add: matches1_def remove1_def disjoint_seg_def filter_remove_other del: filter_append)
  qed (use list in \<open>simp add: remove1_def\<close>)
qed

text \<open>Paths whose key matches stay valid when something below them changes.\<close>

fun addr_path :: "Path \<Rightarrow> bool" where
  "addr_path [] = True"
| "addr_path (s # p) = (addr_seg s \<and> (p = [] \<or> key_next s p) \<and> addr_path p)"

lemma key_stable_addr_path: "key_stable p v \<longleftrightarrow> addr_path p \<and> (p = [] \<or> elem_ok (last p) v)"
  by (induction p) auto

lemma addr_path_addr: "addr_path p \<Longrightarrow> list_all addr_seg p"
  by (induction p) auto

lemma deleteAny_elem_ok:
  assumes "addr_seg s" "key_next s p" "addr_path p" "p \<noteq> []"
    and "e = hd (matches1 c s)" "matches1 c s \<noteq> []" "deleteAny e p = (d, True)" "wf_json e"
  shows "elem_ok s d"
proof (cases "IsField s")
  case False
  with assms(2) obtain t r where p: "p = t # r" "IsField t" "sField t \<noteq> sKey s"
    by (auto simp: key_next_def split: list.splits)
  have "elem_matches (sKey s) (sValue s) e"
    using assms(5,6) False by (cases "matches1 c s")
      (auto simp: matches1_def filter_eq_Cons_iff split: json.splits)
  then obtain m where m: "e = JObj m" by (auto simp: elem_matches_def split: json.splits)
  have "\<exists>m'. d = JObj m' \<and> mget m' (sKey s) = mget m (sKey s)"
    using assms(3,7,8) p m
    by (auto simp: deleteAny_Cons remove1_def put1_def mget_def go_map wf_JObjD
        split: if_splits prod.splits)
  with \<open>elem_matches (sKey s) (sValue s) e\<close> m show ?thesis
    by (auto simp: elem_ok_def elem_matches_def)
qed (simp add: elem_ok_def)

section \<open>Shape\<close>

lemma wf_elems_append [simp]: "wf_elems (xs @ ys) \<longleftrightarrow> wf_elems xs \<and> wf_elems ys"
  by (auto simp: wf_elems_iff)

lemma wf_elems_update: "wf_elems l \<Longrightarrow> wf_json d \<Longrightarrow> wf_elems (l[i := d])"
  by (auto simp: wf_elems_iff dest!: set_update_subset_insert[THEN subsetD])

lemma wf_emptyFor [simp]: "wf_json (emptyFor s)"
  by (simp add: emptyFor_def)

lemma wf_locate: "wf_elems l \<Longrightarrow> locate l s = Some (l1, i) \<Longrightarrow> wf_elems l1 \<and> i < length l1"
  by (auto simp: locate_def wf_elems_iff wf_JObj_iff akeys_ok_def ran_def
      split: if_splits option.splits dest: findByKey_SomeD)

lemma wf_mget: "wf_json (JObj m) \<Longrightarrow> wf_json (mget m k)"
  by (auto simp: mget_def split: option.split dest: wf_JObjD(2))

lemma wf_writeBack:
  "wf_elems l \<Longrightarrow> wf_elems l1 \<Longrightarrow> wf_json (fst r) \<Longrightarrow> wf_elems (fst (writeBack l l1 i r))"
  by (simp add: writeBack_def wf_elems_update split: option.split)

lemma wf_setAny: "wf_json c \<Longrightarrow> wf_json v \<Longrightarrow> wf_json (fst (setAny c p v))"
proof (induction p arbitrary: c)
  case Nil
  then show ?case by (cases c) (simp_all add: setAny_def)
next
  case (Cons s p)
  show ?case
  proof (cases c)
    case (JObj m)
    show ?thesis
    proof (cases "IsField s")
      case True
      with Cons JObj show ?thesis
        by (cases "p = []") (simp_all add: setAny_containers set_steps wf_mget case_prod_unfold)
    next
      case False
      with JObj Cons.prems setIn_fail[of c s p v] show ?thesis by (auto simp: setAny_containers)
    qed
  next
    case (JArr l)
    show ?thesis
    proof (cases "locate l s")
      case None
      with JArr Cons.prems show ?thesis by (simp add: setAny_containers set_steps)
    next
      case (Some li)
      obtain l1 i where li: "locate l s = Some (l1, i)" using Some by (cases li) auto
      with JArr Cons.prems have wf: "wf_elems l1" "i < length l1" using wf_locate by auto
      let ?d = "if l1 ! i = JNull then emptyFor (hd p) else l1 ! i"
      have "wf_json ?d" using wf by (auto simp: wf_elems_iff)
      then have d: "wf_json (fst (setAny ?d p v))" using Cons.IH Cons.prems(2) by blast
      have l: "wf_elems l" using Cons.prems(1) JArr by simp
      show ?thesis
      proof (cases "p = []")
        case True
        with JArr li wf Cons.prems(2) show ?thesis
          by (simp add: setAny_containers set_steps wf_elems_update)
      next
        case False
        have "wf_elems (fst (writeBack l l1 i (setAny ?d p v)))"
          using wf_writeBack[OF l wf(1) d] .
        with JArr setInList_Cons[OF li False, of v] show ?thesis
          by (simp add: setAny_containers case_prod_unfold)
      qed
    qed
  qed (use Cons.prems setIn_fail[of c s p v] in \<open>auto simp: setAny_def\<close>)
qed

lemma wf_deleteAny: "wf_json c \<Longrightarrow> wf_json (fst (deleteAny c p))"
proof (induction p arbitrary: c)
  case Nil
  then show ?case by (cases c) (simp_all add: deleteAny_def)
next
  case (Cons s p)
  show ?case
  proof (cases c)
    case (JObj m)
    with Cons show ?thesis
      by (auto simp: deleteAny_map case_prod_unfold wf_JObjD)
  next
    case (JArr l)
    show ?thesis
    proof (cases "position l s")
      case (Some i)
      then have "i < length l" by (rule position_less)
      then have "wf_json (l ! i)" using Cons.prems JArr by (simp add: wf_elems_iff)
      with Cons JArr Some show ?thesis
        by (auto simp: deleteAny_list case_prod_unfold wf_elems_update)
          (auto simp: wf_elems_iff dest: in_set_takeD in_set_dropD)
    qed (use Cons JArr in \<open>simp add: deleteAny_list\<close>)
  qed (use Cons.prems in \<open>simp_all add: deleteAny_def\<close>)
qed

section \<open>Laws of removal\<close>

lemma matches1_wf: "wf_json c \<Longrightarrow> d \<in> set (matches1 c s) \<Longrightarrow> wf_json d"
  by (auto simp: matches1_def wf_elems_iff split: if_splits json.splits option.splits
      dest: wf_JObjD(2)[OF _ sym])

lemma deleteAny_removed:
  "list_all addr_seg p \<Longrightarrow> p \<noteq> [] \<Longrightarrow> snd (deleteAny c p) \<longleftrightarrow> Matches c p \<noteq> []"
proof (induction p arbitrary: c)
  case (Cons s p)
  then show ?case
    by (cases "p = []"; cases "matches1 c s")
      (simp_all add: deleteAny_Cons Matches_Cons case_prod_unfold)
qed simp

lemma deleteAny_same: "\<not> snd (deleteAny c p) \<Longrightarrow> list_all addr_seg p \<Longrightarrow> fst (deleteAny c p) = c"
proof (induction p arbitrary: c)
  case Nil
  then show ?case by (cases c) (simp_all add: deleteAny_def)
next
  case (Cons s p)
  then show ?case by (auto simp: deleteAny_Cons case_prod_unfold split: if_splits)
qed

lemma deleteAny_addrD:
  assumes "addr_path (s # p)" and "deleteAny c (s # p) = (c', True)" and "wf_json c" and "p \<noteq> []"
  obtains e d where "fits c s" "hd_opt (matches1 c s) = Some e" "wf_json e"
    "deleteAny e p = (d, True)" "elem_ok s d" "c' = put1 c s d"
proof -
  have s: "addr_seg s" "key_next s p" "addr_path p" using assms(1,4) by auto
  then have ne: "matches1 c s \<noteq> []" and "\<exists>d. deleteAny (hd (matches1 c s)) p = (d, True) \<and> c' = put1 c s d"
    using assms(2,4) by (auto simp: deleteAny_Cons split: if_splits prod.splits)
  then obtain d where d: "deleteAny (hd (matches1 c s)) p = (d, True)" "c' = put1 c s d" by auto
  have wf: "wf_json (hd (matches1 c s))" using matches1_wf[OF assms(3) hd_in_set[OF ne]] .
  have "elem_ok s d" using deleteAny_elem_ok[OF s assms(4) refl ne d(1) wf] .
  moreover have "hd_opt (matches1 c s) = Some (hd (matches1 c s))" using ne by (cases "matches1 c s") auto
  ultimately show thesis using that matches1_fits[OF s(1) ne] d wf by blast
qed

lemma deleteAny_Matches:
  "deleteAny c p = (c', True) \<Longrightarrow> addr_path p \<Longrightarrow> wf_json c \<Longrightarrow> p \<noteq> [] \<Longrightarrow>
     Matches c' p = tl (Matches c p)"
proof (induction p arbitrary: c c')
  case (Cons s p)
  show ?case
  proof (cases "p = []")
    case True
    with Cons.prems show ?thesis
      by (auto simp: deleteAny_Cons remove1_same matches1_fits split: if_splits)
  next
    case False
    from Cons.prems(2,1,3) False obtain e d where
      "fits c s" "hd_opt (matches1 c s) = Some e" "wf_json e" "deleteAny e p = (d, True)"
      "elem_ok s d" "c' = put1 c s d"
      by (rule deleteAny_addrD)
    with Cons False show ?thesis by (simp add: put1_same Matches_Cons)
  qed
qed simp

lemma deleteAny_frame:
  "deleteAny c p = (c', True) \<Longrightarrow> addr_path p \<Longrightarrow> wf_json c \<Longrightarrow> disjoint p q \<Longrightarrow>
     Matches c' q = Matches c q"
proof (induction p arbitrary: c c' q)
  case (Cons s p)
  from Cons.prems(2) have s: "addr_seg s" by simp
  from Cons.prems(4) obtain t r where q: "q = t # r" by (cases q) auto
  have first: "matches1 c' t = matches1 c t" if "disjoint_seg s t"
  proof (cases "p = []")
    case True
    with Cons.prems s that show ?thesis
      by (auto simp: deleteAny_Cons remove1_other matches1_fits split: if_splits)
  next
    case False
    from Cons.prems(2,1,3) False obtain e d where "fits c s" "elem_ok s d" "c' = put1 c s d"
      by (rule deleteAny_addrD)
    with s that show ?thesis by (simp add: put1_other)
  qed
  show ?case
  proof (cases "disjoint_seg s t")
    case True
    with first q show ?thesis by (cases r) simp_all
  next
    case False
    with Cons.prems(4) q have t: "t = s" "disjoint p r" by auto
    then have ne: "p \<noteq> []" "r \<noteq> []" using disjoint_nonempty by auto
    from Cons.prems(2,1,3) ne(1) obtain e d where
      "fits c s" "hd_opt (matches1 c s) = Some e" "wf_json e" "deleteAny e p = (d, True)"
      "elem_ok s d" "c' = put1 c s d"
      by (rule deleteAny_addrD)
    with Cons.IH[of e d r] Cons.prems(2) ne q t s show ?thesis
      by (simp add: put1_same Matches_Cons)
  qed
qed simp

subsection \<open>Pruning\<close>

lemma Matches_append:
  "p \<noteq> [] \<Longrightarrow> q \<noteq> [] \<Longrightarrow>
     Matches c (p @ q) = (case hd_opt (Matches c p) of None \<Rightarrow> [] | Some d \<Rightarrow> Matches d q)"
proof (induction p arbitrary: c)
  case (Cons s p)
  then show ?case by (cases "p = []") (auto simp: Matches_Cons split: option.splits)
qed simp

lemma disjoint_take:
  "disjoint p q \<Longrightarrow> disjoint (take (Suc n) p) q \<or> (\<exists>r. r \<noteq> [] \<and> q = take (Suc n) p @ r)"
proof (induction p q arbitrary: n rule: disjoint.induct)
  case (1 s p t q)
  show ?case
  proof (cases "disjoint_seg s t")
    case False
    with 1(2) have st: "s = t" "key_next s q" "disjoint p q" by auto
    then have "q \<noteq> []" using disjoint_nonempty by blast
    with 1(1)[OF st(3)] st show ?thesis by (cases n) auto
  qed simp
qed simp_all

lemma key_next_append: "p \<noteq> [] \<Longrightarrow> key_next s (p @ q) = key_next s p"
  by (cases p) (simp_all add: key_next_def)

lemma addr_path_append: "addr_path (p @ q) \<Longrightarrow> addr_path p"
proof (induction p)
  case (Cons s p)
  then show ?case by (cases "p = []") (simp_all add: key_next_append)
qed simp

lemma addr_path_take: "addr_path p \<Longrightarrow> addr_path (take n p)"
  using addr_path_append[of "take n p" "drop n p"] by simp

text \<open>An empty map is found under a field only, so nothing else is addressed by its path.\<close>

lemma empty_map_single:
  "list_all addr_seg p \<Longrightarrow> p \<noteq> [] \<Longrightarrow> hd_opt (Matches c p) = Some (JObj []) \<Longrightarrow> Matches c p = [JObj []]"
proof (induction c p rule: Matches.induct)
  case (2 c s)
  then have s: "addr_seg s" "hd_opt (matches1 c s) = Some (JObj [])" by simp_all
  from s(1) show ?case
  proof (cases rule: addr_seg_cases)
    case field
    with s(2) show ?thesis by (auto simp: matches1_def split: json.splits option.splits)
  next
    case key
    with s have "elem_matches (sKey s) (sValue s) (JObj [])"
      by (cases "matches1 c s") (auto simp: matches1_def filter_eq_Cons_iff split: json.splits)
    with key s(1) show ?thesis by (simp add: elem_matches_def mget_def addr_seg_def)
  qed
qed (auto split: option.splits)

lemma prune_step:
  assumes "addr_path pr" "pr \<noteq> []" "wf_json c" "Get c pr = Some (JObj [])"
    and "deleteAny c pr = (c', r)" and "disjoint pr q \<or> (\<exists>x. x \<noteq> [] \<and> q = pr @ x)"
  shows "Matches c' q = Matches c q" and "r"
proof -
  have addr: "list_all addr_seg pr" using assms(1) by (rule addr_path_addr)
  then have m: "Matches c pr = [JObj []]"
    using empty_map_single assms(2,4) by (simp add: Get_Matches)
  then show r: r using deleteAny_removed[OF addr assms(2), of c] assms(5) by simp
  show "Matches c' q = Matches c q"
  proof (cases "disjoint pr q")
    case True
    then show ?thesis using deleteAny_frame[of c pr c' q] assms(1,3,5) r by simp
  next
    case False
    then obtain x where x: "x \<noteq> []" "q = pr @ x" using assms(6) by blast
    have "Matches c' pr = []" using deleteAny_Matches[of c pr c'] assms m r by simp
    moreover have "Matches (JObj []) x = []" using Matches_empty(1)[OF x(1), of "FieldSegment []"]
      by (simp add: emptyFor_def)
    ultimately show ?thesis using x assms(2) m by (simp add: Matches_append)
  qed
qed

lemma pruneFrom_Matches:
  "n < length p \<Longrightarrow> addr_path p \<Longrightarrow> wf_json (JObj m) \<Longrightarrow> disjoint p q \<or> q = p \<Longrightarrow>
     \<exists>m'. pruneFrom n (JObj m) p = JObj m' \<and> Matches (JObj m') q = Matches (JObj m) q \<and> wf_json (JObj m')"
proof (induction n arbitrary: m)
  case (Suc n)
  let ?pr = "take (Suc n) p"
  have pr: "addr_path ?pr" "?pr \<noteq> []" using Suc.prems addr_path_take by auto
  have q: "disjoint ?pr q \<or> (\<exists>x. x \<noteq> [] \<and> q = ?pr @ x)"
    using Suc.prems(1,4) disjoint_take[of p q n] append_take_drop_id[of "Suc n" p]
    by (metis drop_eq_Nil2 not_less)
  show ?case
  proof (cases "Get (JObj m) ?pr = Some (JObj [])")
    case True
    obtain c' r where del: "deleteAny (JObj m) ?pr = (c', r)" by fastforce
    have step: "Matches c' q = Matches (JObj m) q" r
      using prune_step[OF pr Suc.prems(3) True del q] .
    have "\<exists>m1. c' = JObj m1"
      using del pr(2) by (cases ?pr) (auto simp: deleteAny_map split: if_splits prod.splits)
    then obtain m1 where m1: "c' = JObj m1" ..
    have "wf_json (JObj m1)" using wf_deleteAny[OF Suc.prems(3), of ?pr] del m1 by simp
    with Suc.IH[of m1] Suc.prems True del step m1 show ?thesis
      by (simp add: deleteAny_def)
  next
    case False
    with Suc show ?thesis by (auto split: option.splits)
  qed
qed simp

section \<open>The operations of the package\<close>

lemma Set_setAny: "p \<noteq> [] \<Longrightarrow> IsField (hd p) \<Longrightarrow> Set (JObj m) p v = setAny (JObj m) p v"
  by (simp add: Set_def setAny_def)

lemma Set_shape: "\<exists>m'. fst (Set (JObj m) p v) = JObj m'"
proof (cases p)
  case (Cons s q)
  show ?thesis
  proof (cases "IsField s")
    case True
    with Cons show ?thesis
      by (cases "q = []") (simp_all add: Set_def set_steps case_prod_unfold)
  qed (simp add: Set_def Cons)
qed (simp add: Set_def)

lemma Set_wf_aux: "wf_json (JObj m) \<Longrightarrow> wf_json v \<Longrightarrow> wf_json (fst (Set (JObj m) p v))"
  using wf_setAny[of "JObj m" v p] by (simp add: Set_def setAny_def)

lemma Set_Matches:
  assumes "Set (JObj m) p v = (c', None)" and "key_stable p v"
  shows "Matches c' p = v # tl (Matches (JObj m) p)"
    and "disjoint p q \<Longrightarrow> Matches c' q = Matches (JObj m) q"
proof -
  from assms(1) have p: "p \<noteq> []" and "setAny (JObj m) p v = (c', None)"
    by (auto simp: Set_def setAny_def split: if_splits)
  then show "Matches c' p = v # tl (Matches (JObj m) p)"
    and "disjoint p q \<Longrightarrow> Matches c' q = Matches (JObj m) q"
    using setAny_Matches setAny_frame assms(2) by blast+
qed

lemma deleteAny_shape: "\<exists>m'. fst (deleteAny (JObj m) p) = JObj m'"
proof (cases p)
  case (Cons s q)
  then show ?thesis by (simp add: deleteAny_map case_prod_unfold)
qed (simp add: deleteAny_def)

lemma Delete_Matches:
  assumes "wf_json (JObj m)" and "addr_path p" and "p \<noteq> []"
  shows "\<exists>m'. Delete (JObj m) p = (JObj m', Matches (JObj m) p \<noteq> []) \<and> wf_json (JObj m') \<and>
     Matches (JObj m') p = tl (Matches (JObj m) p) \<and>
     (\<forall>q. disjoint p q \<longrightarrow> Matches (JObj m') q = Matches (JObj m) q)"
proof -
  obtain m1 where m1: "fst (deleteAny (JObj m) p) = JObj m1" using deleteAny_shape by blast
  have addr: "list_all addr_seg p" using assms(2) by (rule addr_path_addr)
  have rem: "snd (deleteAny (JObj m) p) \<longleftrightarrow> Matches (JObj m) p \<noteq> []"
    using deleteAny_removed[OF addr assms(3)] .
  have eq: "deleteIn (JObj m) p = (JObj m1, Matches (JObj m) p \<noteq> [])"
    using m1 rem by (simp add: deleteAny_def prod_eq_iff)
  show ?thesis
  proof (cases "Matches (JObj m) p = []")
    case True
    then have "m1 = m" using deleteAny_same[OF _ addr, of "JObj m"] rem m1 by simp
    with True eq assms show ?thesis by (simp add: Delete_def)
  next
    case False
    with eq have del: "deleteAny (JObj m) p = (JObj m1, True)" by (simp add: deleteAny_def)
    have wf1: "wf_json (JObj m1)" using wf_deleteAny[OF assms(1), of p] m1 by simp
    have "length p - 1 < length p" using assms(3) by simp
    note prune = pruneFrom_Matches[OF this assms(2) wf1]
    obtain m' where m': "pruneFrom (length p - 1) (JObj m1) p = JObj m'" "wf_json (JObj m')"
      using prune[of p] by blast
    have "Matches (JObj m') q = Matches (JObj m1) q" if "disjoint p q \<or> q = p" for q
      using prune[OF that] m'(1) by auto
    moreover have "Matches (JObj m1) p = tl (Matches (JObj m) p)"
      using deleteAny_Matches[OF del assms(2,1,3)] .
    moreover have "Matches (JObj m1) q = Matches (JObj m) q" if "disjoint p q" for q
      using deleteAny_frame[OF del assms(2,1) that] .
    ultimately show ?thesis
      using eq False m' assms(3) by (simp add: Delete_def pruneEmpty_def)
  qed
qed

section \<open>Undoing a write\<close>

lemma disjoint_sym: "disjoint p q \<Longrightarrow> addr_path p \<Longrightarrow> disjoint q p"
proof (induction p q rule: disjoint.induct)
  case (1 s p t q)
  show ?case
  proof (cases "disjoint_seg s t")
    case True
    then have "disjoint_seg t s" by (auto simp: disjoint_seg_def split: if_splits)
    then show ?thesis by simp
  next
    case False
    with 1 have "s = t" "disjoint p q" by auto
    with 1 disjoint_nonempty show ?thesis by auto
  qed
qed simp_all

lemma setAny_total: "Matches c p \<noteq> [] \<Longrightarrow> list_all addr_seg p \<Longrightarrow> p \<noteq> [] \<Longrightarrow> \<exists>c'. setAny c p v = (c', None)"
proof (induction p arbitrary: c)
  case (Cons s p)
  then have s: "addr_seg s" by simp
  have ne: "matches1 c s \<noteq> []" using Cons.prems by (cases "p = []") (auto simp: Matches_Cons)
  then have fit: "fits c s" using matches1_fits s by simp
  show ?case
  proof (cases "p = []")
    case True
    then show ?thesis using setAny_single[OF s fit] by simp
  next
    case False
    obtain e r where e: "matches1 c s = e # r" using ne by (cases "matches1 c s") auto
    with Cons.prems False have me: "Matches e p \<noteq> []" by (simp add: Matches_Cons)
    then have "e \<noteq> JNull" using False by (auto simp: Matches_empty)
    with e have "child1 c s (hd p) = e" by (simp add: child1_def)
    with Cons me False show ?thesis using setAny_Cons[OF s fit False] by auto
  qed
qed simp

lemma findByKey_update_found:
  "findByKey l k v = Some i \<Longrightarrow> elem_matches k v d \<Longrightarrow> findByKey (l[i := d]) k v = Some i"
  by (induction l arbitrary: i) (auto split: if_splits)

lemma put1_undo:
  assumes "addr_seg s" "fits c s" "wf_json c" "elem_ok s d" "hd_opt (matches1 c s) = Some e"
  shows "put1 (put1 c s d) s e = c"
  using assms(1,2)
proof (cases rule: fits_cases)
  case (map m)
  with assms(3,5) show ?thesis
    by (auto simp: put1_def matches1_def wf_JObjD am.put_put am.put_same split: option.splits)
next
  case (list l)
  then have "filter (elem_matches (sKey s) (sValue s)) l \<noteq> []"
    using assms(5) by (auto simp: matches1_def)
  with list assms(4,5) obtain i where "findByKey l (sKey s) (sValue s) = Some i" "i < length l" "l ! i = e"
    using key_found[of "sKey s" "sValue s" l] by (auto simp: matches1_def hd_opt_def split: list.splits)
  with list assms(4) show ?thesis
    by (auto simp: put1_def locate_def elem_ok_def findByKey_update_found)
qed

lemma put1_container: "fits c s \<Longrightarrow> put1 c s d \<noteq> JNull"
  by (auto simp: fits_def put1_def split: json.splits option.splits)

lemma setAny_container: "setAny c p v = (d, None) \<Longrightarrow> list_all addr_seg p \<Longrightarrow> p \<noteq> [] \<Longrightarrow> d \<noteq> JNull"
proof (cases p)
  case (Cons s q)
  assume "setAny c p v = (d, None)" "list_all addr_seg p"
  with Cons show ?thesis
    using setAny_ConsD[of s c q v d] put1_container[of c s] by (auto split: if_splits)
qed simp

lemma setAny_undo:
  "setAny c p v = (c', None) \<Longrightarrow> key_stable p v \<Longrightarrow> p \<noteq> [] \<Longrightarrow> wf_json c \<Longrightarrow>
     hd_opt (Matches c p) = Some old \<Longrightarrow> setAny c' p old = (c, None)"
proof (induction p arbitrary: c c')
  case (Cons s p)
  from Cons.prems(2) have s: "addr_seg s" by simp
  from Cons.prems(2,1) obtain d where d: "fits c s" "elem_ok s d" "c' = put1 c s d"
    "if p = [] then d = v else setAny (child1 c s (hd p)) p v = (d, None)"
    by (rule setAny_stableD)
  have fit': "fits c' s" using d(1,3) by (auto simp: fits_def put1_def split: json.splits option.splits)
  show ?case
  proof (cases "p = []")
    case True
    with Cons.prems d s fit' show ?thesis by (simp add: setAny_single put1_undo)
  next
    case False
    with Cons.prems(5) obtain e where e: "hd_opt (matches1 c s) = Some e" "hd_opt (Matches e p) = Some old"
      by (auto simp: Matches_Cons split: option.splits)
    then have "e \<noteq> JNull" using False by (auto simp: Matches_empty)
    with e(1) have ch: "child1 c s (hd p) = e" by (simp add: child1_def)
    have "wf_json e" using matches1_wf[OF Cons.prems(4), of e s] e(1) by (cases "matches1 c s") auto
    with Cons.IH[of e d] Cons.prems(2) d False e(2) ch have "setAny d p old = (e, None)" by simp
    moreover have "d \<noteq> JNull" using setAny_container[of "child1 c s (hd p)" p v d] key_stable_addr[of p v] d(4) False Cons.prems(2)
      by auto
    then have "child1 c' s (hd p) = d" using d s by (simp add: child1_def put1_same)
    moreover have "put1 c' s e = c" using put1_undo s d Cons.prems(4) e(1) by simp
    ultimately show ?thesis using setAny_Cons[OF s fit' False] by auto
  qed
qed simp

section \<open>Withdrawing a fresh field\<close>

text \<open>On paths of map fields, pruning is bottom-up: a map left empty is removed from its parent.\<close>

definition field_path :: "Path \<Rightarrow> bool" where
  "field_path p \<longleftrightarrow> list_all (\<lambda>s. IsField s \<and> \<not> IsKeyMatch s) p"

lemma field_path_Cons [simp]:
  "field_path []" "field_path (s # p) \<longleftrightarrow> IsField s \<and> \<not> IsKeyMatch s \<and> field_path p"
  by (auto simp: field_path_def)

lemma field_path_addr_path: "field_path p \<Longrightarrow> addr_path p"
  by (induction p) (auto simp: addr_seg_def key_next_def)

lemma field_path_take: "field_path p \<Longrightarrow> field_path (take n p)"
  by (auto simp: field_path_def list_all_iff dest: in_set_takeD)

definition graft :: "string \<Rightarrow> json \<Rightarrow> jmap \<Rightarrow> json" where
  "graft f c m = (if c = JObj [] then JObj (adel f m) else JObj (aput f c m))"

lemma Get_field: "IsField s \<Longrightarrow> map_of m (sField s) = Some d \<Longrightarrow> Get (JObj m) (s # p) = Get d p"
  by (simp add: Get.simps)

lemma deleteIn_field:
  assumes "IsField s" "map_of m (sField s) = Some (JObj c)" "p \<noteq> []" "deleteIn (JObj c) p = (d, True)"
  shows "deleteIn (JObj m) (s # p) = (JObj (aput (sField s) d m), True)"
  using assms by simp

lemma Get_empty_map: "field_path p \<Longrightarrow> p \<noteq> [] \<Longrightarrow> Get (JObj []) p = None"
  by (cases p) (simp_all add: Get.simps)

lemma prune_inner:
  "n < length p \<Longrightarrow> field_path (s # p) \<Longrightarrow> akeys_ok m \<Longrightarrow> wf_json (JObj c) \<Longrightarrow>
     map_of m (sField s) = Some (JObj c) \<Longrightarrow>
     pruneFrom (Suc n) (JObj m) (s # p) = graft (sField s) (pruneFrom n (JObj c) p) m"
proof (induction n arbitrary: m c)
  case 0
  then show ?case by (simp add: Get.simps graft_def am.put_same)
next
  case (Suc n)
  let ?pr = "take (Suc n) p"
  have pr: "field_path ?pr" "?pr \<noteq> []" using Suc.prems field_path_take by auto
  have get: "Get (JObj m) (s # ?pr) = Get (JObj c) ?pr"
    using Suc.prems(2,5) by (simp add: Get_field)
  consider (none) "Get (JObj c) ?pr = None" | (empty) "Get (JObj c) ?pr = Some (JObj [])"
    | (full) v where "Get (JObj c) ?pr = Some v" "v \<noteq> JObj []" by fastforce
  then show ?case
  proof cases
    case none
    with Suc get show ?thesis by simp
  next
    case full
    then have "c \<noteq> []" using Get_empty_map[OF pr] by auto
    with full get Suc.prems show ?thesis by (simp add: graft_def am.put_same)
  next
    case empty
    have addr: "list_all addr_seg ?pr" using pr field_path_addr_path addr_path_addr by blast
    then have "Matches (JObj c) ?pr \<noteq> []" using empty by (auto simp: Get_Matches)
    with addr pr have "snd (deleteAny (JObj c) ?pr)" by (simp add: deleteAny_removed)
    then obtain d where d: "deleteIn (JObj c) ?pr = (JObj d, True)"
      using deleteAny_shape[of c ?pr] by (auto simp: deleteAny_def prod_eq_iff)
    have wf: "wf_json (JObj d)" using wf_deleteAny[OF Suc.prems(4), of ?pr] d by (simp add: deleteAny_def)
    have "deleteIn (JObj m) (s # ?pr) = (JObj (aput (sField s) (JObj d) m), True)"
      using deleteIn_field[OF _ Suc.prems(5) pr(2) d] Suc.prems(2) by simp
    moreover have "pruneFrom (Suc n) (JObj (aput (sField s) (JObj d) m)) (s # p)
        = graft (sField s) (pruneFrom n (JObj d) p) (aput (sField s) (JObj d) m)"
      using Suc wf by (simp add: go_map)
    ultimately show ?thesis
      using empty get d Suc.prems(3)
      by (simp add: graft_def am.put_put am.del_put del: deleteIn.simps)
  qed
qed

lemma Delete_field_Cons:
  assumes "field_path (s # p)" "p \<noteq> []" "wf_json (JObj m)" "map_of m (sField s) = Some (JObj c)"
    and "Matches (JObj c) p \<noteq> []"
  shows "fst (Delete (JObj m) (s # p)) = graft (sField s) (fst (Delete (JObj c) p)) m"
proof -
  have addr: "list_all addr_seg p" using assms(1) field_path_addr_path addr_path_addr by auto
  have "snd (deleteAny (JObj c) p)" using deleteAny_removed[OF addr assms(2)] assms(5) by simp
  then obtain d where d: "deleteIn (JObj c) p = (JObj d, True)"
    using deleteAny_shape[of c p] by (auto simp: deleteAny_def prod_eq_iff)
  have wfc: "wf_json (JObj c)" using wf_JObjD(2) assms(3,4) .
  have wf: "wf_json (JObj d)" using wf_deleteAny[OF wfc, of p] d by (simp add: deleteAny_def)
  have ok: "akeys_ok m" using assms(3) by (rule wf_JObjD)
  have "deleteIn (JObj m) (s # p) = (JObj (aput (sField s) (JObj d) m), True)"
    using deleteIn_field[OF _ assms(4,2) d] assms(1) by simp
  moreover have "pruneFrom (Suc (length p - 1)) (JObj (aput (sField s) (JObj d) m)) (s # p)
      = graft (sField s) (pruneFrom (length p - 1) (JObj d) p) (aput (sField s) (JObj d) m)"
    using assms(1,2) wf ok by (intro prune_inner) (simp_all add: go_map)
  ultimately show ?thesis
    using assms(2) d ok
    by (simp add: Delete_def pruneEmpty_def graft_def am.put_put am.del_put del: deleteIn.simps)
qed

text \<open>
  A field path is fresh in a map if its field is absent and every map on the way is there and not
  empty, or is absent with all below it.
\<close>

fun fresh_path :: "jmap \<Rightarrow> Path \<Rightarrow> bool" where
  "fresh_path m [] = False"
| "fresh_path m (s # p) =
     (case map_of m (sField s) of
        None \<Rightarrow> True
      | Some (JObj c) \<Rightarrow> c \<noteq> [] \<and> fresh_path c p
      | Some _ \<Rightarrow> False)"

lemma fresh_path_Nil: "p \<noteq> [] \<Longrightarrow> fresh_path [] p"
  by (cases p) simp_all

lemma fresh_path_next:
  assumes "fresh_path m (s # p)" "field_path (s # p)" "p \<noteq> []" "wf_json (JObj m)"
  obtains c where "child1 (JObj m) s (hd p) = JObj c" "fresh_path c p" "wf_json (JObj c)"
    "\<And>d. akeys_ok m \<Longrightarrow> graft (sField s) (JObj c) (aput (sField s) d m) = JObj m"
proof (cases "map_of m (sField s)")
  case None
  have "\<not> IsIndex (hd p)" "\<not> IsKeyMatch (hd p)"
    using assms(2,3) by (cases p; auto simp: IsIndex_def IsField_def)+
  then have "child1 (JObj m) s (hd p) = JObj []"
    using None assms(2) by (simp add: child1_def matches1_def emptyFor_def)
  then show thesis
    using None assms(3) that[of "[]"] by (simp add: fresh_path_Nil graft_def am.del_put_fresh)
next
  case (Some d)
  with assms(1) obtain c where c: "d = JObj c" "c \<noteq> []" "fresh_path c p" by (cases d) auto
  moreover have "child1 (JObj m) s (hd p) = JObj c"
    using Some c assms(2) by (simp add: child1_def matches1_def)
  moreover have "wf_json (JObj c)" using wf_JObjD(2)[OF assms(4)] Some c by simp
  ultimately show thesis
    using Some that[of c] by (simp add: graft_def am.put_put am.put_same)
qed

lemma Delete_Set_fresh:
  "Set (JObj m) p v = (c', None) \<Longrightarrow> field_path p \<Longrightarrow> fresh_path m p \<Longrightarrow> wf_json (JObj m) \<Longrightarrow> wf_json v \<Longrightarrow>
     fst (Delete c' p) = JObj m"
proof (induction p arbitrary: m c')
  case (Cons s p)
  have ok: "akeys_ok m" using Cons.prems(4) by (rule wf_JObjD)
  show ?case
  proof (cases "p = []")
    case True
    with Cons.prems have "c' = JObj (aput (sField s) v m)" "map_of m (sField s) = None"
      by (auto simp: Set_def setIn_single split: option.splits json.splits)
    with True Cons.prems(2) ok show ?thesis
      by (simp add: Delete_def pruneEmpty_def map_of_aput am.del_put_fresh)
  next
    case False
    obtain c where c: "child1 (JObj m) s (hd p) = JObj c" "fresh_path c p" "wf_json (JObj c)"
      "\<And>d. akeys_ok m \<Longrightarrow> graft (sField s) (JObj c) (aput (sField s) d m) = JObj m"
      using fresh_path_next Cons.prems(3,2) False Cons.prems(4) by blast
    have addr: "addr_seg s" "IsField s" "field_path p" using Cons.prems(2) by (auto simp: addr_seg_def)
    then obtain d where d: "setAny (JObj c) p v = (d, None)" "c' = put1 (JObj m) s d"
      using setAny_ConsD[OF addr(1), of "JObj m" p v c'] Cons.prems(1) False c(1)
      by (auto simp: Set_setAny)
    have hdp: "IsField (hd p)" using addr False by (cases p) auto
    then have S: "Set (JObj c) p v = (d, None)" using d False by (simp add: Set_setAny)
    then obtain m1 where m1: "d = JObj m1" using Set_shape[of c p v] by auto
    have "wf_json d" using Set_wf_aux[OF c(3) Cons.prems(5), of p] S by simp
    moreover have "key_stable p v"
      using addr False field_path_addr_path[of p] by (auto simp: key_stable_addr_path elem_ok_def field_path_def list_all_iff)
    then have "Matches d p \<noteq> []" using Set_Matches(1)[OF S] by simp
    moreover have "fst (Delete d p) = JObj c" using Cons.IH[OF S] addr c Cons.prems(5) by blast
    moreover have "c' = JObj (aput (sField s) (JObj m1) m)" using d m1 by (simp add: put1_def)
    ultimately show ?thesis
      using Delete_field_Cons[OF Cons.prems(2) False, of "aput (sField s) (JObj m1) m" m1] m1 c(4) ok Cons.prems(4)
      by (simp add: map_of_aput)
  qed
qed simp

section \<open>What the package promises\<close>

text \<open>
  A successful \<open>Set\<close> reads back: \<open>Get\<close> at the written path returns the written value, and every
  path disjoint from it reads what it read before. Paths are of fields and key matches; a key match
  must keep its key (\<open>key_stable\<close>).
\<close>

theorem set_reads_back:
  assumes "Set (JObj m) p v = (c', None)" and "key_stable p v"
  shows "Get c' p = Some v \<and>
    (\<forall>q. disjoint p q \<longrightarrow> list_all addr_seg q \<longrightarrow> Get c' q = Get (JObj m) q)"
  using Set_Matches[OF assms] key_stable_addr[OF assms(2)] by (simp add: Get_Matches)

text \<open>The same at a merge-by-name list: an environment variable of a container that is not there yet.\<close>

theorem set_reads_back_witness:
  "let p = [FieldSegment ''containers'', KeySegment ''name'' ''app'', FieldSegment ''image''];
       m = [(''containers'', JArr [JObj [(''name'', JStr ''db'')]]), (''replicas'', JInt 3)];
       c' = fst (Set (JObj m) p (JStr ''v2''))
   in Get c' p = Some (JStr ''v2'') \<and>
      Get c' [FieldSegment ''replicas''] = Get (JObj m) [FieldSegment ''replicas'']"
proof -
  let ?p = "[FieldSegment ''containers'', KeySegment ''name'' ''app'', FieldSegment ''image'']"
  let ?m = "[(''containers'', JArr [JObj [(''name'', JStr ''db'')]]), (''replicas'', JInt 3)]"
  have s: "Set (JObj ?m) ?p (JStr ''v2'') =
    (JObj [(''containers'', JArr [JObj [(''name'', JStr ''db'')],
        JObj [(''image'', JStr ''v2''), (''name'', JStr ''app'')]]), (''replicas'', JInt 3)], None)"
    by code_simp
  moreover have "key_stable ?p (JStr ''v2'')" by code_simp
  ultimately have "Get (fst (Set (JObj ?m) ?p (JStr ''v2''))) ?p = Some (JStr ''v2'') \<and>
    (\<forall>q. disjoint ?p q \<longrightarrow> list_all addr_seg q \<longrightarrow>
       Get (fst (Set (JObj ?m) ?p (JStr ''v2''))) q = Get (JObj ?m) q)"
    using set_reads_back[of ?m ?p "JStr ''v2''"] by simp
  moreover have "disjoint ?p [FieldSegment ''replicas'']" "list_all addr_seg [FieldSegment ''replicas'']"
    by code_simp+
  ultimately show ?thesis unfolding Let_def by blast
qed

text \<open>
  C31. \<open>Delete\<close> is surgical: it reports whether the path was there, takes exactly the first value the
  path addresses, prunes only what that left empty (no disjoint path reads differently), and leaves a
  well-formed map.
\<close>

theorem delete_surgical:
  assumes "wf_json (JObj m)" and "addr_path p" and "p \<noteq> []"
  shows "\<exists>m'. Delete (JObj m) p = (JObj m', Get (JObj m) p \<noteq> None) \<and> wf_json (JObj m') \<and>
     Get (JObj m') p = hd_opt (tl (Matches (JObj m) p)) \<and>
     (\<forall>q. disjoint p q \<longrightarrow> list_all addr_seg q \<longrightarrow> Get (JObj m') q = Get (JObj m) q)"
proof -
  have "Get (JObj m) p \<noteq> None \<longleftrightarrow> Matches (JObj m) p \<noteq> []"
    using assms(2) by (cases "Matches (JObj m) p") (auto simp: Get_Matches addr_path_addr)
  then show ?thesis
    using Delete_Matches[OF assms] addr_path_addr[OF assms(2)] by (auto simp: Get_Matches)
qed

text \<open>C31 where the map emptied by the removal is pruned and its sibling stays.\<close>

theorem delete_surgical_witness:
  "let m = [(''metadata'', JObj [(''labels'', JObj [(''a'', JStr ''x'')]), (''name'', JStr ''n'')])];
       p = [FieldSegment ''metadata'', FieldSegment ''labels'', FieldSegment ''a'']
   in Delete (JObj m) p = (JObj [(''metadata'', JObj [(''name'', JStr ''n'')])], True) \<and>
      Get (fst (Delete (JObj m) p)) p = None"
proof -
  let ?m = "[(''metadata'', JObj [(''labels'', JObj [(''a'', JStr ''x'')]), (''name'', JStr ''n'')])]"
  let ?p = "[FieldSegment ''metadata'', FieldSegment ''labels'', FieldSegment ''a'']"
  have h: "wf_json (JObj ?m)" "addr_path ?p" "?p \<noteq> []" by code_simp+
  have "Delete (JObj ?m) ?p = (JObj [(''metadata'', JObj [(''name'', JStr ''n'')])], True)" by code_simp
  moreover have "tl (Matches (JObj ?m) ?p) = []" by code_simp
  ultimately show ?thesis using delete_surgical[OF h] unfolding Let_def by auto
qed



text \<open>
  Putting the old value back undoes a write exactly: where the path already had a value, writing
  another and then the old one gives the original object, not only one that reads alike.
\<close>

theorem set_undo_exact:
  assumes "Set (JObj m) p v = (c', None)" and "key_stable p v" and "wf_json (JObj m)"
    and "Get (JObj m) p = Some old"
  shows "Set c' p old = (JObj m, None)"
proof -
  from assms(1) have p: "p \<noteq> []" "IsField (hd p)" "setAny (JObj m) p v = (c', None)"
    by (auto simp: Set_def setAny_def split: if_splits)
  moreover obtain m' where "c' = JObj m'" using Set_shape[of m p v] assms(1) by auto
  moreover have "setAny c' p old = (JObj m, None)"
    using setAny_undo p(1,3) assms(2-4) Get_Matches[OF key_stable_addr[OF assms(2)]] by metis
  ultimately show ?thesis by (simp add: Set_setAny)
qed

text \<open>The same for a replica count.\<close>

theorem set_undo_exact_witness:
  "let m = [(''spec'', JObj [(''replicas'', JInt 1)])]; p = [FieldSegment ''spec'', FieldSegment ''replicas'']
   in Set (fst (Set (JObj m) p (JInt 5))) p (JInt 1) = (JObj m, None)"
proof -
  let ?m = "[(''spec'', JObj [(''replicas'', JInt 1)])]"
  let ?p = "[FieldSegment ''spec'', FieldSegment ''replicas'']"
  have "Set (JObj ?m) ?p (JInt 5) = (JObj [(''spec'', JObj [(''replicas'', JInt 5)])], None)" by code_simp
  moreover have "key_stable ?p (JInt 5)" "wf_json (JObj ?m)" by code_simp+
  moreover have "Get (JObj ?m) ?p = Some (JInt 1)" by code_simp
  ultimately show ?thesis using set_undo_exact[of ?m ?p "JInt 5" _ "JInt 1"] unfolding Let_def by simp
qed

text \<open>
  Withdrawing a fresh field undoes its write exactly: every map that \<open>Set\<close> created on the way is
  pruned again by \<open>Delete\<close>, and nothing else is touched.
\<close>

theorem delete_undoes_fresh_set:
  assumes "Set (JObj m) p v = (c', None)" and "field_path p" and "fresh_path m p"
    and "wf_json (JObj m)" and "wf_json v"
  shows "fst (Delete c' p) = JObj m"
  using assms by (rule Delete_Set_fresh)

text \<open>The same for the first label of an object without labels.\<close>

theorem delete_undoes_fresh_set_witness:
  "let m = [(''kind'', JStr ''ConfigMap'')];
       p = [FieldSegment ''metadata'', FieldSegment ''labels'', FieldSegment ''team'']
   in fst (Delete (fst (Set (JObj m) p (JStr ''a''))) p) = JObj m"
proof -
  let ?m = "[(''kind'', JStr ''ConfigMap'')]"
  let ?p = "[FieldSegment ''metadata'', FieldSegment ''labels'', FieldSegment ''team'']"
  have "Set (JObj ?m) ?p (JStr ''a'') = (JObj [(''kind'', JStr ''ConfigMap''),
    (''metadata'', JObj [(''labels'', JObj [(''team'', JStr ''a'')])])], None)" by code_simp
  moreover have "field_path ?p" "fresh_path ?m ?p" "wf_json (JObj ?m)" "wf_json (JStr ''a'')" by code_simp+
  ultimately show ?thesis using delete_undoes_fresh_set[of ?m ?p "JStr ''a''"] unfolding Let_def by simp
qed

end
