(* ===== verification/Render.thy ===== *)
theory Render
  imports Api PathNotation PathLaws
begin

text \<open>
  Rendering (\<^verbatim>\<open>internal/render/render.go\<close>): from a contributor's patch to the partial object it
  contributes, the leaf paths it claims and the hash of the object. The JSON Patch library is the
  parameter \<open>jsonpatch\<close>: it decodes an operation list into a function on documents, or fails.
\<close>

record Contribution =
  cnObject :: jmap
  cnPaths :: "Path list"
  cnHash :: string

record Target =
  tgAPIVersion :: string
  tgKind :: string
  tgName :: string
  tgNamespace :: string

type_synonym jsonpatch_lib = "RawExtension \<Rightarrow> (goerror, json \<Rightarrow> (goerror, json) result) result"

section \<open>Identity\<close>

definition submap :: "jmap \<Rightarrow> string \<Rightarrow> jmap" where
  "submap m k = (case map_of m k of Some (JObj n) \<Rightarrow> n | _ \<Rightarrow> [])"

definition withIdentity :: "jmap \<Rightarrow> Target \<Rightarrow> jmap" where
  "withIdentity flds target =
     (let obj = aput ''kind'' (JStr (tgKind target)) (aput ''apiVersion'' (JStr (tgAPIVersion target)) (deepCopyMap flds));
          meta = aput ''name'' (JStr (tgName target)) (submap obj ''metadata'');
          meta' = (if tgNamespace target \<noteq> '''' then aput ''namespace'' (JStr (tgNamespace target)) meta else meta)
      in aput ''metadata'' (JObj meta') obj)"

definition Identity :: "Target \<Rightarrow> jmap" where
  "Identity target =
     [(''apiVersion'', JStr (tgAPIVersion target)), (''kind'', JStr (tgKind target)),
      (''metadata'', JObj ((''name'', JStr (tgName target)) #
         (if tgNamespace target \<noteq> '''' then [(''namespace'', JStr (tgNamespace target))] else [])))]"

section \<open>Leaf paths\<close>

definition keyByPath :: "MergeKey list \<Rightarrow> (string \<times> string) list" where
  "keyByPath mks = fold (\<lambda>mk. aput (mkPath mk) (mkKey mk)) mks []"

definition mergeKeyAt :: "(string \<times> string) list \<Rightarrow> Path \<Rightarrow> string" where
  "mergeKeyAt keys p = (case map_of keys (PathString p) of None \<Rightarrow> '''' | Some k \<Rightarrow> k)"

definition elementSegment :: "string \<Rightarrow> nat \<Rightarrow> json \<Rightarrow> Segment" where
  "elementSegment mergeKey i e =
     (case e of
        JObj m \<Rightarrow>
          (case map_of m mergeKey of
             Some kv \<Rightarrow> (if mergeKey \<noteq> '''' then KeySegment mergeKey (fmtv kv) else IndexSegment (int i))
           | None \<Rightarrow> IndexSegment (int i))
      | _ \<Rightarrow> IndexSegment (int i))"

definition leaf :: "Path \<Rightarrow> Path list" where
  "leaf pre = (if pre = [] then [] else [pre])"

fun collectLeaves :: "(string \<times> string) list \<Rightarrow> json \<Rightarrow> Path \<Rightarrow> Path list"
  and collectMembers :: "(string \<times> string) list \<Rightarrow> jmap \<Rightarrow> Path \<Rightarrow> Path list"
  and collectElems :: "(string \<times> string) list \<Rightarrow> string \<Rightarrow> nat \<Rightarrow> json list \<Rightarrow> Path \<Rightarrow> Path list" where
  "collectLeaves keys (JObj m) pre = (if m = [] then leaf pre else collectMembers keys m pre)"
| "collectLeaves keys (JArr l) pre =
     (if l = [] then leaf pre else collectElems keys (mergeKeyAt keys pre) 0 l pre)"
| "collectLeaves keys v pre = leaf pre"
| "collectMembers keys [] pre = []"
| "collectMembers keys ((k, v) # m) pre =
     (if pre = [] \<and> (k = ''apiVersion'' \<or> k = ''kind'') then []
      else collectLeaves keys v (Child pre (FieldSegment k))) @ collectMembers keys m pre"
| "collectElems keys mk i [] pre = []"
| "collectElems keys mk i (e # l) pre =
     (let seg = elementSegment mk i e
      in (if IsKeyMatch seg then [Child pre seg] else collectLeaves keys e (Child pre seg)))
     @ collectElems keys mk (Suc i) l pre"

definition sortPaths :: "Path list \<Rightarrow> Path list" where
  "sortPaths ps = sort_key PathString ps"

definition LeafPaths :: "jmap \<Rightarrow> MergeKey list \<Rightarrow> Path list" where
  "LeafPaths flds mks = sortPaths (collectLeaves (keyByPath mks) (JObj flds) [])"

definition PathStrings :: "Path list \<Rightarrow> string list" where
  "PathStrings paths = map PathString paths"

fun ParsePaths :: "string list \<Rightarrow> (goerror, Path list) result" where
  "ParsePaths [] = Inr []"
| "ParsePaths (s # ss) =
     (case Parse s of
        Inl e \<Rightarrow> Inl (Errorf ''parsing stored path %q'' [s])
      | Inr p \<Rightarrow> (case ParsePaths ss of Inl e \<Rightarrow> Inl e | Inr ps \<Rightarrow> Inr (p # ps)))"

section \<open>Decoding\<close>

definition decodeObject :: "RawExtension option \<Rightarrow> string \<Rightarrow> (goerror, jmap) result" where
  "decodeObject raw field =
     (case raw of
        None \<Rightarrow> Inl (Errorf ''%s must be set'' [field])
      | Some RawEmpty \<Rightarrow> Inl (Errorf ''%s must be set'' [field])
      | Some (RawInvalid e) \<Rightarrow> Inl (Errorw ''decoding %s: %w'' [field] (Errorf e []))
      | Some (RawJson (JObj m)) \<Rightarrow> Inr m
      | Some (RawJson JNull) \<Rightarrow> Inr []
      | Some (RawJson _) \<Rightarrow> Inl (Errorw ''decoding %s: %w'' [field] (Errorf ''json: cannot unmarshal'' [])))"

definition DecodeBase :: "RawExtension option \<Rightarrow> (goerror, jmap) result" where
  "DecodeBase raw = decodeObject raw ''spec.base''"

section \<open>JSON Patch operations\<close>

record jsonPatchOp =
  opOp :: string
  opPath :: string
  opFrom :: string
  opValue :: "json option"

definition no_op :: jsonPatchOp where
  "no_op = \<lparr>opOp = '''', opPath = '''', opFrom = '''', opValue = None\<rparr>"

text \<open>\<^verbatim>\<open>json.Unmarshal\<close> into a \<^verbatim>\<open>[]jsonPatchOp\<close>: field names are matched without regard to case.\<close>

definition opString :: "json \<Rightarrow> string \<Rightarrow> (goerror, string) result" where
  "opString v old =
     (case v of JStr s \<Rightarrow> Inr s | JNull \<Rightarrow> Inr old | _ \<Rightarrow> Inl (Errorf ''json: cannot unmarshal'' []))"

definition decodeOpField :: "string \<times> json \<Rightarrow> jsonPatchOp \<Rightarrow> (goerror, jsonPatchOp) result" where
  "decodeOpField kv op =
     (if ToLower (fst kv) = ''op'' then map_sum id (\<lambda>s. op\<lparr>opOp := s\<rparr>) (opString (snd kv) (opOp op))
      else if ToLower (fst kv) = ''path'' then map_sum id (\<lambda>s. op\<lparr>opPath := s\<rparr>) (opString (snd kv) (opPath op))
      else if ToLower (fst kv) = ''from'' then map_sum id (\<lambda>s. op\<lparr>opFrom := s\<rparr>) (opString (snd kv) (opFrom op))
      else if ToLower (fst kv) = ''value'' then Inr (op\<lparr>opValue := Some (snd kv)\<rparr>)
      else Inr op)"

fun decodeOp :: "(string \<times> json) list \<Rightarrow> jsonPatchOp \<Rightarrow> (goerror, jsonPatchOp) result" where
  "decodeOp [] op = Inr op"
| "decodeOp (kv # m) op = (case decodeOpField kv op of Inl e \<Rightarrow> Inl e | Inr op' \<Rightarrow> decodeOp m op')"

fun decodeOps :: "json list \<Rightarrow> (goerror, jsonPatchOp list) result" where
  "decodeOps [] = Inr []"
| "decodeOps (v # vs) =
     (case (case v of JObj m \<Rightarrow> decodeOp m no_op | JNull \<Rightarrow> Inr no_op
              | _ \<Rightarrow> Inl (Errorf ''json: cannot unmarshal'' [])) of
        Inl e \<Rightarrow> Inl e
      | Inr op \<Rightarrow> (case decodeOps vs of Inl e \<Rightarrow> Inl e | Inr ops \<Rightarrow> Inr (op # ops)))"

definition unmarshalOps :: "RawExtension \<Rightarrow> (goerror, jsonPatchOp list) result" where
  "unmarshalOps raw =
     (case raw of
        RawJson (JArr vs) \<Rightarrow> decodeOps vs
      | RawJson JNull \<Rightarrow> Inr []
      | RawInvalid e \<Rightarrow> Inl (Errorf e [])
      | _ \<Rightarrow> Inl (Errorf ''json: cannot unmarshal'' []))"

definition isNumeric :: "string \<Rightarrow> bool" where
  "isNumeric s \<longleftrightarrow> s \<noteq> '''' \<and> list_all is_digit s"

definition pointerTokens :: "string \<Rightarrow> string list" where
  "pointerTokens ptr =
     (let p = TrimPrefix ptr ''/''
      in if p = '''' then []
         else map (\<lambda>t. ReplaceAll (ReplaceAll t ''~1'' ''/'') ''~0'' ''~'') (SplitByte p (CHR ''/'')))"

definition pointerSegment :: "string \<Rightarrow> Segment" where
  "pointerSegment tok =
     (if tok = ''-'' then IndexSegment 0
      else if isNumeric tok then
        IndexSegment (foldl (\<lambda>n c. wrap64 (wrap64 (n * 10) + int (digit_val c))) 0 tok)
      else FieldSegment tok)"

definition pathFromJSONPointer :: "string \<Rightarrow> (goerror, Path) result" where
  "pathFromJSONPointer ptr =
     (if ptr = '''' \<or> ptr = ''/'' then
        Inl (Errorf ''op path %q addresses the whole document, which a contribution may not claim'' [ptr])
      else if \<not> HasPrefix ptr ''/'' then Inl (Errorf (''op path %q must start with '' @ [CHR 0x27, CHR ''/'', CHR 0x27]) [ptr])
      else (let out = map pointerSegment (pointerTokens ptr)
            in if out = [] then Inl (Errorf ''no segments in op path %q'' [ptr]) else Inr out))"

text \<open>
  The skeleton the operations are applied to. \<open>ensureMaps\<close> is the loop that creates the map parents;
  \<open>putList\<close> is the loop that finds the parent of a list and replaces the map just created for it: its
  type assertion panics, as \<open>None\<close>, where a parent is not a map.
\<close>

fun ensureMaps :: "jmap \<Rightarrow> string list \<Rightarrow> jmap" where
  "ensureMaps cur [] = cur"
| "ensureMaps cur (tok # toks) = aput tok (JObj (ensureMaps (submap cur tok) toks)) cur"

fun putList :: "jmap \<Rightarrow> string list \<Rightarrow> jmap option" where
  "putList parent [] = Some parent"
| "putList parent [tok] = Some (aput tok (JArr []) parent)"
| "putList parent (tok # t # toks) =
     (case map_of parent tok of
        Some (JObj m) \<Rightarrow> map_option (\<lambda>m'. aput tok (JObj m') parent) (putList m (t # toks))
      | _ \<Rightarrow> None)"

definition seedOp :: "jmap \<Rightarrow> jsonPatchOp \<Rightarrow> jmap option" where
  "seedOp seed op =
     (let tokens = pointerTokens (opPath op)
      in if tokens = [] then Some seed
         else (let seed' = ensureMaps seed (butlast tokens)
               in if last tokens = ''-'' \<or> isNumeric (last tokens)
                  then (if length tokens \<ge> 2 then putList seed' (butlast tokens) else Some seed')
                  else Some seed'))"

fun seedFor :: "jmap \<Rightarrow> jsonPatchOp list \<Rightarrow> jmap option" where
  "seedFor seed [] = Some seed"
| "seedFor seed (op # ops) = (case seedOp seed op of None \<Rightarrow> None | Some s \<Rightarrow> seedFor s ops)"

text \<open>The paths the operations touch, each once.\<close>

fun opPaths :: "jsonPatchOp list \<Rightarrow> string list \<Rightarrow> (goerror, Path list) result" where
  "opPaths [] seen = Inr []"
| "opPaths (op # ops) seen =
     (case pathFromJSONPointer (opPath op) of
        Inl e \<Rightarrow> Inl e
      | Inr p \<Rightarrow>
          (let s = PathString p
           in if s \<noteq> '''' \<and> s \<notin> set seen
              then (case opPaths ops (s # seen) of Inl e \<Rightarrow> Inl e | Inr ps \<Rightarrow> Inr (p # ps))
              else opPaths ops seen))"

definition renderJSON6902 :: "jsonpatch_lib \<Rightarrow> RawExtension option \<Rightarrow> (goerror, jmap \<times> Path list) result" where
  "renderJSON6902 jsonpatch raw =
     (if raw = None \<or> raw = Some RawEmpty then Inl (Errorf ''patch.ops must be set for type JSON6902'' [])
      else
        (case unmarshalOps (the raw) of
           Inl e \<Rightarrow> Inl (Errorw ''decoding patch.ops: %w'' [] e)
         | Inr ops \<Rightarrow>
             (if ops = [] then Inl (Errorf ''patch.ops must not be empty'' [])
              else
                (case jsonpatch (the raw) of
                   Inl e \<Rightarrow> Inl (Errorw ''decoding patch.ops as RFC 6902: %w'' [] e)
                 | Inr patch \<Rightarrow>
                     (case seedFor [] ops of
                        None \<Rightarrow> Inl (Errorf ''panic: interface conversion'' [])
                      | Some skeleton \<Rightarrow>
                          (case patch (JObj skeleton) of
                             Inl e \<Rightarrow> Inl (Errorw ''applying patch.ops to a skeleton: %w'' [] e)
                           | Inr applied \<Rightarrow>
                               (case decodeObject (Some (RawJson applied)) ''the result of patch.ops'' of
                                  Inl e \<Rightarrow> Inl e
                                | Inr flds \<Rightarrow>
                                    (case opPaths ops [] of
                                       Inl e \<Rightarrow> Inl e
                                     | Inr paths \<Rightarrow> Inr (flds, sortPaths paths)))))))))"

section \<open>Render\<close>

definition Render :: "(string \<Rightarrow> string) \<Rightarrow> jsonpatch_lib \<Rightarrow> PatchSpec \<Rightarrow> Target \<Rightarrow> (goerror, Contribution) result" where
  "Render sha jsonpatch spec target =
     (let patchType = (if psType spec = PatchTypeOther '''' then PatchTypeStrategicMerge else psType spec);
          rendered =
            (case patchType of
               PatchTypeJSON6902 \<Rightarrow> renderJSON6902 jsonpatch (psOps spec)
             | PatchTypeOther t \<Rightarrow> Inl (Errorf ''unsupported patch type %q'' [t])
             | _ \<Rightarrow>
                 (case decodeObject (psValue spec) ''patch.value'' of
                    Inl e \<Rightarrow> Inl e
                  | Inr flds \<Rightarrow>
                      (if flds = [] then
                         Inl (Errorf ''patch.value must not be empty for type %s'' [PatchTypeString patchType])
                       else Inr (flds, LeafPaths flds (psMergeKeys spec)))))
      in case rendered of
           Inl e \<Rightarrow> Inl e
         | Inr (flds, paths) \<Rightarrow>
             (let obj = withIdentity flds target
              in Inr \<lparr>cnObject = obj, cnPaths = paths, cnHash = HashObject sha (JObj obj)\<rparr>))"

end
