(* ===== verification/Client.thy ===== *)
theory Client
  imports Render "HOL-Library.State_Monad"
begin

text \<open>
  The API server as the operator sees it. Every call takes the state \<open>'w\<close> of the cluster to a result
  or an error and a new state; the calls are the parameters of the model, gathered in a record the way
  a \<^verbatim>\<open>client.Client\<close> gathers them. Objects other than the operator's own kinds are unstructured: a JSON
  map with its metadata inside.
\<close>

type_synonym ('w, 'a) io = "('w, (goerror, 'a) result) state"

text \<open>\<open>clApply\<close> takes the field manager and whether ownership is forced.\<close>

record 'w Client =
  clGet :: "Target \<Rightarrow> ('w, jmap) io"
  clCreate :: "jmap \<Rightarrow> ('w, jmap) io"
  clUpdate :: "jmap \<Rightarrow> ('w, jmap) io"
  clApply :: "jmap \<Rightarrow> string \<Rightarrow> bool \<Rightarrow> ('w, jmap) io"
  clDelete :: "Target \<Rightarrow> ('w, unit) io"

section \<open>Unstructured objects\<close>

definition metaString :: "jmap \<Rightarrow> string \<Rightarrow> string" where
  "metaString obj k = (case map_of (submap obj ''metadata'') k of Some (JStr s) \<Rightarrow> s | _ \<Rightarrow> '''')"

definition GetUID :: "jmap \<Rightarrow> string" where
  "GetUID obj = metaString obj ''uid''"

definition GetResourceVersion :: "jmap \<Rightarrow> string" where
  "GetResourceVersion obj = metaString obj ''resourceVersion''"

text \<open>The four setters the operator calls in a row to address an object.\<close>

definition setMeta :: "string \<Rightarrow> string \<Rightarrow> jmap \<Rightarrow> jmap" where
  "setMeta k v obj =
     (case map_of obj ''metadata'' of
        None \<Rightarrow> aput ''metadata'' (JObj [(k, JStr v)]) obj
      | Some (JObj m) \<Rightarrow> aput ''metadata'' (JObj (aput k (JStr v) m)) obj
      | Some _ \<Rightarrow> obj)"

definition addressed :: "Target \<Rightarrow> jmap \<Rightarrow> jmap" where
  "addressed t obj =
     (let o1 = aput ''kind'' (JStr (tgKind t)) (aput ''apiVersion'' (JStr (tgAPIVersion t)) obj);
          o2 = setMeta ''name'' (tgName t) o1
      in if tgNamespace t \<noteq> '''' then setMeta ''namespace'' (tgNamespace t) o2 else o2)"

section \<open>Running\<close>

lemma run_bind [simp]: "run_state (State_Monad.bind m f) w = (case run_state m w of (a, w') \<Rightarrow> run_state (f a) w')"
  by (simp add: State_Monad.bind_def)

lemma run_return [simp]: "run_state (State_Monad.return a) w = (a, w)"
  by (simp add: State_Monad.return_def)

end
