(* ===== verification/Applier.thy ===== *)
theory Applier
  imports Client
begin

text \<open>
  The types of \<^verbatim>\<open>internal/apply/applier.go\<close>, the derivation of field managers, and the reading of
  conflict errors (\<^verbatim>\<open>internal/apply/conflict.go\<close>).
\<close>

section \<open>Requests and results\<close>

record Request =
  rqTarget :: Target
  rqContribution :: "Contribution option"
  rqFieldManager :: string
  rqConflictPolicy :: ConflictPolicy
  rqMergeKeys :: "MergeKey list"
  rqPreviousPaths :: "Path list"
  rqPriorValues :: jmap
  rqPriorValuesCaptured :: bool
  rqBase :: "jmap option"
  rqAllowCreate :: bool

record RevertRequest =
  rrTarget :: Target
  rrFieldManager :: string
  rrOwnedPaths :: "Path list"
  rrPriorValues :: jmap

record Conflict =
  ccFields :: "string list"
  ccManagers :: "string list"
  ccAllOurs :: bool

record Result =
  reCreated :: bool
  reChanged :: bool
  reLive :: "jmap option"
  reOwnedPaths :: "Path list"
  rePriorValues :: jmap
  rePriorValuesCaptured :: bool
  reConflict :: "Conflict option"

definition ConflictError :: "Conflict \<Rightarrow> string" where
  "ConflictError c =
     Sprintf ''field conflict on %v, owned by %v'' [fmtv (JArr (map JStr (ccFields c))), fmtv (JArr (map JStr (ccManagers c)))]"

text \<open>The lookup key of a target: namespace and name.\<close>

definition targetKey :: "Target \<Rightarrow> string \<times> string" where
  "targetKey t = (tgNamespace t, tgName t)"

section \<open>Field managers\<close>

definition maxFieldManagerLength :: nat where
  "maxFieldManagerLength = 128"

definition truncateFieldManager :: "(string \<Rightarrow> string) \<Rightarrow> string \<Rightarrow> string" where
  "truncateFieldManager sha s =
     (if length s \<le> maxFieldManagerLength then s
      else (let h = HashObject sha (JStr s);
                suffix = ''-'' @ take 16 (drop (length ''sha256:'') h)
            in take (maxFieldManagerLength - length suffix) s @ suffix))"

definition FieldManagerFor :: "(string \<Rightarrow> string) \<Rightarrow> string \<Rightarrow> string \<Rightarrow> string \<Rightarrow> string" where
  "FieldManagerFor sha kind namespace name =
     truncateFieldManager sha
       (FieldManagerPrefix @ (if namespace \<noteq> '''' then namespace @ ''/'' else '''') @ name)"

section \<open>Reading conflicts\<close>

definition statusCauses :: "goerror \<Rightarrow> StatusCause list option" where
  "statusCauses e = (case asAPIStatus e of None \<Rightarrow> None | Some s \<Rightarrow> stDetails s)"

definition IsFieldConflict :: "goerror \<Rightarrow> bool" where
  "IsFieldConflict e \<longleftrightarrow>
     IsConflict e \<and>
     (case statusCauses e of
        None \<Rightarrow> False
      | Some causes \<Rightarrow> list_ex (\<lambda>c. scType c = CauseTypeFieldManagerConflict) causes)"

text \<open>
  The pattern \<^verbatim>\<open>conflict with "([^"]+)"\<close>: at each occurrence of the literal prefix, the text up to the
  next quote, if it is not empty and the quote is there. \<open>FindStringSubmatch\<close> takes the first match,
  \<open>FindAllStringSubmatch\<close> goes on after each.
\<close>

definition ownerPrefix :: string where
  "ownerPrefix = ''conflict with '' @ [CHR 0x22]"

definition matchOwner :: "string \<Rightarrow> (string \<times> string) option" where
  "matchOwner s =
     (if HasPrefix s ownerPrefix then
        (let r = drop (length ownerPrefix) s;
             m = takeWhile (\<lambda>c. c \<noteq> CHR 0x22) r
         in if m \<noteq> '''' \<and> length m < length r then Some (m, drop (Suc (length m)) r) else None)
      else None)"

lemma matchOwner_shorter: "matchOwner s = Some (m, r) \<Longrightarrow> length r < length s"
  by (auto simp: matchOwner_def Let_def ownerPrefix_def HasPrefix_def split: if_splits)

function findOwners :: "string \<Rightarrow> string list" where
  "findOwners s =
     (case matchOwner s of
        Some (m, r) \<Rightarrow> m # findOwners r
      | None \<Rightarrow> (case s of [] \<Rightarrow> [] | c # cs \<Rightarrow> findOwners cs))"
  by pat_completeness auto
termination
  by (relation "measure length") (auto dest: matchOwner_shorter)

declare findOwners.simps [simp del]

text \<open>A Go set of strings, listed in order.\<close>

definition sortedSet :: "string list \<Rightarrow> string list" where
  "sortedSet xs = sort (remdups xs)"

definition ConflictingManagers :: "goerror \<Rightarrow> string list" where
  "ConflictingManagers e =
     (case asAPIStatus e of
        None \<Rightarrow> []
      | Some s \<Rightarrow>
          (case stDetails s of
             None \<Rightarrow> []
           | Some causes \<Rightarrow>
               (let seen = concat (map (\<lambda>c. if scType c \<noteq> CauseTypeFieldManagerConflict then []
                                             else take 1 (findOwners (scMessage c))) causes)
                in sortedSet (if seen = [] then findOwners (stMessage s) else seen))))"

definition ConflictingFields :: "goerror \<Rightarrow> string list" where
  "ConflictingFields e =
     (case statusCauses e of
        None \<Rightarrow> []
      | Some causes \<Rightarrow>
          sortedSet (map (\<lambda>c. TrimPrefix (scField c) ''.'')
            (filter (\<lambda>c. scType c = CauseTypeFieldManagerConflict \<and> scField c \<noteq> '''') causes)))"

definition IsOurManager :: "string \<Rightarrow> bool" where
  "IsOurManager m = HasPrefix m FieldManagerPrefix"

definition AllOurs :: "string list \<Rightarrow> bool" where
  "AllOurs managers \<longleftrightarrow> managers \<noteq> [] \<and> list_all IsOurManager managers"

definition schemaGroupResource :: "Target \<Rightarrow> string" where
  "schemaGroupResource t =
     (case SplitByte (tgAPIVersion t) (CHR ''/'') of
        [g, v] \<Rightarrow> (if g = '''' then tgKind t else tgKind t @ ''.'' @ g)
      | _ \<Rightarrow> tgKind t)"

section \<open>Laws\<close>

lemma truncateFieldManager_length:
  assumes "\<And>s. length (sha s) \<ge> 16"
  shows "length (truncateFieldManager sha s) \<le> maxFieldManagerLength"
  using assms by (simp add: truncateFieldManager_def Let_def maxFieldManagerLength_def HashObject_def)

lemma truncateFieldManager_prefix:
  assumes "\<And>s. length (sha s) \<ge> 16" and "length p \<le> 111"
  shows "HasPrefix (truncateFieldManager sha (p @ s)) p"
  using assms by (simp add: truncateFieldManager_def Let_def maxFieldManagerLength_def HashObject_def HasPrefix_iff)

lemma set_sortedSet [simp]: "set (sortedSet xs) = set xs"
  by (simp add: sortedSet_def)

lemma sortedSet_ok [simp]: "sorted (sortedSet xs)" "distinct (sortedSet xs)"
  by (simp_all add: sortedSet_def)

end
