(* ===== verification/ClientSide.thy ===== *)
theory ClientSide
  imports Applier
begin

text \<open>
  Client-side apply (\<^verbatim>\<open>internal/apply/csa.go\<close>) and the create-time merge it shares with server-side
  apply (\<^verbatim>\<open>mergeBaseAndContribution\<close> of \<^verbatim>\<open>internal/apply/ssa.go\<close>). \<open>sha\<close> is the content digest.
\<close>

section \<open>Create-time merge\<close>

text \<open>The loop of \<^verbatim>\<open>deepMerge\<close> ranges over the source map; every key is written once.\<close>

fun deepMerge :: "jmap \<Rightarrow> jmap \<Rightarrow> jmap"
  and mergeValue :: "json option \<Rightarrow> json \<Rightarrow> json" where
  "deepMerge dst [] = dst"
| "deepMerge dst ((k, sv) # src) = deepMerge (aput k (mergeValue (map_of dst k) sv) dst) src"
| "mergeValue old (JObj sm) = (case old of Some (JObj dm) \<Rightarrow> JObj (deepMerge dm sm) | _ \<Rightarrow> JObj (deepCopyMap sm))"
| "mergeValue old v = v"

definition mergeBaseAndContribution :: "jmap \<Rightarrow> jmap \<Rightarrow> (goerror, jmap) result" where
  "mergeBaseAndContribution base contribution =
     (let out = deepMerge (deepCopyMap base) contribution
      in if out = [] then Inl (Errorf ''merging base and contribution produced an empty object'' []) else Inr out)"

section \<open>Comparing and restoring\<close>

definition sameValue :: "json \<Rightarrow> json \<Rightarrow> bool" where
  "sameValue a b \<longleftrightarrow> json_marshal a = json_marshal b"

definition equalContent :: "(string \<Rightarrow> string) \<Rightarrow> jmap \<Rightarrow> jmap \<Rightarrow> bool" where
  "equalContent sha a b \<longleftrightarrow> HashObject sha (JObj a) = HashObject sha (JObj b)"

definition restoreOrDelete :: "jmap \<Rightarrow> json \<Rightarrow> Path \<Rightarrow> json" where
  "restoreOrDelete priors obj p =
     (case map_of priors (PathString p) of
        None \<Rightarrow> fst (Delete obj p)
      | Some prior \<Rightarrow>
          (case Set obj p (deepCopyValue prior) of
             (obj', None) \<Rightarrow> obj'
           | (obj', Some _) \<Rightarrow> fst (Delete obj' p)))"

section \<open>The stages of an update\<close>

text \<open>The capture of prior values, path by path.\<close>

definition capturePrior :: "jmap \<Rightarrow> jmap \<Rightarrow> Path \<Rightarrow> jmap \<Rightarrow> jmap" where
  "capturePrior live contribution p priors =
     (if map_of priors (PathString p) \<noteq> None then priors
      else
        (case Get (JObj live) p of
           None \<Rightarrow> priors
         | Some existing \<Rightarrow>
             (case Get (JObj contribution) p of
                Some want \<Rightarrow> (if sameValue existing want then priors
                              else aput (PathString p) (deepCopyValue existing) priors)
              | None \<Rightarrow> aput (PathString p) (deepCopyValue existing) priors)))"

definition capturePriors :: "jmap \<Rightarrow> jmap \<Rightarrow> Path list \<Rightarrow> jmap \<Rightarrow> jmap" where
  "capturePriors live contribution paths priors = fold (capturePrior live contribution) paths priors"

text \<open>The withdrawal of paths no longer claimed.\<close>

definition withdrawPath :: "string list \<Rightarrow> Path \<Rightarrow> json \<times> jmap \<Rightarrow> json \<times> jmap" where
  "withdrawPath claimed p st =
     (if PathString p \<in> set claimed then st
      else (restoreOrDelete (snd st) (fst st) p, adel (PathString p) (snd st)))"

definition withdrawPaths :: "string list \<Rightarrow> Path list \<Rightarrow> json \<times> jmap \<Rightarrow> json \<times> jmap" where
  "withdrawPaths claimed previous st = fold (withdrawPath claimed) previous st"

text \<open>The writes of the claimed paths; the first failure ends the loop.\<close>

fun setErrorText :: "set_error \<Rightarrow> goerror" where
  "setErrorText SetEmptyPath = Errorf ''cannot set an empty path'' []"
| "setErrorText (MustStartWithField s) = Errorf ''path must start with a field, got %q'' [s]"
| "setErrorText (ExpectedMap f) = Errorf ''expected a map at %q'' [f]"
| "setErrorText (ListSegmentInSetIn s) = Errorf ''internal: list segment %q reached setIn; use setInList'' [s]"
| "setErrorText UnhandledSegment = Errorf ''unhandled segment'' []"
| "setErrorText ExpectedListSegment = Errorf ''expected a list segment'' []"
| "setErrorText SetIndexPanic = Errorf ''panic: index out of range'' []"

definition writePath :: "jmap \<Rightarrow> json \<Rightarrow> Path \<Rightarrow> (goerror, json) result" where
  "writePath contribution obj p =
     (case Get (JObj contribution) p of
        None \<Rightarrow> Inl (Errorf ''internal: rendered path %q missing from the contribution'' [PathString p])
      | Some value \<Rightarrow>
          (case Set obj p (deepCopyValue value) of
             (obj', None) \<Rightarrow> Inr obj'
           | (obj', Some e) \<Rightarrow> Inl (Errorw ''setting %q: %w'' [PathString p] (setErrorText e))))"

fun runPaths :: "(json \<Rightarrow> Path \<Rightarrow> (goerror, json) result) \<Rightarrow> Path list \<Rightarrow> json \<Rightarrow> (goerror, json) result" where
  "runPaths step [] obj = Inr obj"
| "runPaths step (p # ps) obj = (case step obj p of Inl e \<Rightarrow> Inl e | Inr obj' \<Rightarrow> runPaths step ps obj')"

text \<open>The object an update wants and the prior values it carries on.\<close>

definition desiredState :: "Request \<Rightarrow> Contribution \<Rightarrow> jmap \<Rightarrow> (goerror, json \<times> jmap) result" where
  "desiredState req c live =
     (let priors = (if rqPriorValuesCaptured req then rqPriorValues req
                    else capturePriors live (cnObject c) (cnPaths c) (rqPriorValues req));
          (desired, priors') = withdrawPaths (map PathString (cnPaths c)) (rqPreviousPaths req) (JObj live, priors)
      in case runPaths (writePath (cnObject c)) (cnPaths c) desired of
           Inl e \<Rightarrow> Inl e
         | Inr desired' \<Rightarrow> Inr (desired', priors'))"

definition root_map :: "json \<Rightarrow> jmap" where
  "root_map v = (case v of JObj m \<Rightarrow> m | _ \<Rightarrow> [])"

section \<open>The applier\<close>

definition csaResult :: "bool \<Rightarrow> bool \<Rightarrow> jmap \<Rightarrow> Contribution \<Rightarrow> jmap \<Rightarrow> Result" where
  "csaResult created changed live c priors =
     \<lparr>reCreated = created, reChanged = changed, reLive = Some live, reOwnedPaths = cnPaths c,
      rePriorValues = priors, rePriorValuesCaptured = True, reConflict = None\<rparr>"

definition csaCreate :: "('w, 'z) Client_scheme \<Rightarrow> Request \<Rightarrow> Contribution \<Rightarrow> ('w, Result) io" where
  "csaCreate cl req c =
     (case (case rqBase req of
              None \<Rightarrow> Inr (deepCopyMap (cnObject c))
            | Some base \<Rightarrow> mergeBaseAndContribution base (cnObject c)) of
        Inl e \<Rightarrow> State_Monad.return (Inl e)
      | Inr content \<Rightarrow>
          do {
            r \<leftarrow> clCreate cl (addressed (rqTarget req) content);
            State_Monad.return (map_sum id (\<lambda>obj. csaResult True True obj c []) r)
          })"

definition csaUpdate ::
  "(string \<Rightarrow> string) \<Rightarrow> ('w, 'z) Client_scheme \<Rightarrow> Request \<Rightarrow> Contribution \<Rightarrow> jmap \<Rightarrow> ('w, Result) io" where
  "csaUpdate sha cl req c live =
     (case desiredState req c live of
        Inl e \<Rightarrow> State_Monad.return (Inl e)
      | Inr (desired, priors) \<Rightarrow>
          (if equalContent sha live (root_map desired)
           then State_Monad.return (Inr (csaResult False False live c priors))
           else do {
             r \<leftarrow> clUpdate cl (root_map desired);
             State_Monad.return (map_sum id (\<lambda>obj. csaResult False True obj c priors) r)
           }))"

definition csaApply :: "(string \<Rightarrow> string) \<Rightarrow> ('w, 'z) Client_scheme \<Rightarrow> Request \<Rightarrow> ('w, Result) io" where
  "csaApply sha cl req =
     (case rqContribution req of
        None \<Rightarrow> State_Monad.return (Inl (Errorf ''contribution is nil'' []))
      | Some c \<Rightarrow>
          do {
            r \<leftarrow> clGet cl (rqTarget req);
            case r of
              Inl e \<Rightarrow>
                if IsNotFound e then
                  (if rqAllowCreate req then csaCreate cl req c
                   else State_Monad.return (Inl (NewNotFound (schemaGroupResource (rqTarget req)) (tgName (rqTarget req)))))
                else State_Monad.return (Inl e)
            | Inr live \<Rightarrow> csaUpdate sha cl req c live
          })"

definition revertedState :: "RevertRequest \<Rightarrow> jmap \<Rightarrow> json" where
  "revertedState req live = foldl (restoreOrDelete (rrPriorValues req)) (JObj live) (rrOwnedPaths req)"

definition csaRevert :: "(string \<Rightarrow> string) \<Rightarrow> ('w, 'z) Client_scheme \<Rightarrow> RevertRequest \<Rightarrow> ('w, unit) io" where
  "csaRevert sha cl req =
     do {
       r \<leftarrow> clGet cl (rrTarget req);
       case r of
         Inl e \<Rightarrow> State_Monad.return (if IsNotFound e then Inr () else Inl e)
       | Inr live \<Rightarrow>
           (let desired = root_map (revertedState req live)
            in if equalContent sha live desired then State_Monad.return (Inr ())
               else do {
                 r \<leftarrow> clUpdate cl desired;
                 State_Monad.return (map_sum id (\<lambda>_. ()) r)
               })
     }"

end
