(* ===== verification/RenderLaws.thy ===== *)
theory RenderLaws
  imports Render
begin

text \<open>
  What rendering promises: every claimed path is found in the rendered object, the claims of an object
  without lists do not overlap, the order of the claims is determined, the skeleton of a JSON Patch is
  built without a panic, and the identity is stamped on without touching other fields.
\<close>

section \<open>Every leaf is found\<close>

text \<open>No map key is empty: an empty key makes a segment that addresses nothing.\<close>

fun named_keys :: "json \<Rightarrow> bool"
  and named_elems :: "json list \<Rightarrow> bool"
  and named_members :: "jmap \<Rightarrow> bool" where
  "named_keys (JObj m) = named_members m"
| "named_keys (JArr l) = named_elems l"
| "named_keys v = True"
| "named_elems [] = True"
| "named_elems (e # l) = (named_keys e \<and> named_elems l)"
| "named_members [] = True"
| "named_members ((k, v) # m) = (k \<noteq> '''' \<and> named_keys v \<and> named_members m)"

lemma named_members_iff: "named_members m \<longleftrightarrow> (\<forall>(k, v) \<in> set m. k \<noteq> '''' \<and> named_keys v)"
  by (induction m) auto

lemma elementSegment_cases:
  obtains (key) m kv where "e = JObj m" "map_of m mk = Some kv" "mk \<noteq> ''''"
      "elementSegment mk i e = KeySegment mk (fmtv kv)"
  | (index) "elementSegment mk i e = IndexSegment (int i)"
proof (cases e)
  case (JObj m)
  then show thesis
    using key[of m] index by (cases "map_of m mk"; cases "mk = ''''") (auto simp: elementSegment_def)
qed (use index in \<open>simp_all add: elementSegment_def\<close>)

definition kinded :: "Segment \<Rightarrow> bool" where
  "kinded s \<longleftrightarrow> IsField s \<or> IsIndex s \<or> IsKeyMatch s"

lemma kinded_FieldSegment [simp]: "kinded (FieldSegment k) \<longleftrightarrow> k \<noteq> ''''"
  by (simp add: kinded_def seg_defs)

lemma Get_FieldSegment:
  "k \<noteq> '''' \<Longrightarrow> Get (JObj m) (FieldSegment k # q) = (case map_of m k of None \<Rightarrow> None | Some v \<Rightarrow> Get v q)"
  by (simp add: Get.simps seg_defs)

lemma kinded_element [simp]: "kinded (elementSegment mk i e)"
  by (cases rule: elementSegment_cases[of e mk i]) (auto simp: kinded_def seg_defs)

lemma Get_element:
  assumes "j < length l" and "IsKeyMatch (elementSegment mk j (l ! j)) \<longrightarrow> q = []"
    and "\<not> IsKeyMatch (elementSegment mk j (l ! j)) \<longrightarrow> Get (l ! j) q \<noteq> None"
  shows "Get (JArr l) (elementSegment mk j (l ! j) # q) \<noteq> None"
proof (cases rule: elementSegment_cases[of "l ! j" mk j])
  case (key m kv)
  then have "q = []" using assms(2) by simp
  moreover have "elem_matches mk (fmtv kv) (l ! j)"
    using key by (simp add: elem_matches_def mget_def)
  then have "filter (elem_matches mk (fmtv kv)) l \<noteq> []"
    using assms(1) by (auto simp: filter_empty_conv)
  then obtain i where "findByKey l mk (fmtv kv) = Some i"
    using findByKey_None_iff[of l mk "fmtv kv"] by blast
  ultimately show ?thesis using key by (simp add: Get.simps seg_defs)
next
  case index
  with assms show ?thesis by (simp add: Get.simps)
qed

lemma collect_found:
  "p \<in> set (collectLeaves keys v pre) \<Longrightarrow> wf_json v \<Longrightarrow> named_keys v \<Longrightarrow>
     \<exists>q. p = pre @ q \<and> Get v q \<noteq> None \<and> list_all kinded q"
  "p \<in> set (collectMembers keys m pre) \<Longrightarrow> wf_members m \<Longrightarrow> named_members m \<Longrightarrow>
     \<exists>k v q. (k, v) \<in> set m \<and> p = pre @ FieldSegment k # q \<and> Get v q \<noteq> None \<and> list_all kinded q \<and>
       (pre = [] \<longrightarrow> k \<noteq> ''apiVersion'' \<and> k \<noteq> ''kind'')"
  "p \<in> set (collectElems keys mk i l pre) \<Longrightarrow> wf_elems l \<Longrightarrow> named_elems l \<Longrightarrow>
     \<exists>j q. j < length l \<and> p = pre @ elementSegment mk (i + j) (l ! j) # q \<and> list_all kinded q \<and>
       (IsKeyMatch (elementSegment mk (i + j) (l ! j)) \<longrightarrow> q = []) \<and>
       (\<not> IsKeyMatch (elementSegment mk (i + j) (l ! j)) \<longrightarrow> Get (l ! j) q \<noteq> None)"
proof (induction keys v pre and keys m pre and keys mk i l pre
    rule: collectLeaves_collectMembers_collectElems.induct)
  case (1 keys m pre)
  show ?case
  proof (cases "m = []")
    case True
    with 1 show ?thesis by (simp add: leaf_def split: if_splits)
  next
    case False
    have "wf_members m" using 1(3) by (simp add: wf_json.simps)
    with False 1 obtain k v q where k: "(k, v) \<in> set m" "p = pre @ FieldSegment k # q" "Get v q \<noteq> None"
      "list_all kinded q"
      by auto
    moreover have "map_of m k = Some v"
      using k(1) 1(3) by (auto intro: map_of_is_SomeI dest: wf_JObjD akeys_ok_distinct)
    moreover have "k \<noteq> ''''" using k(1) 1(4) by (auto simp: named_members_iff)
    ultimately show ?thesis by (intro exI[of _ "FieldSegment k # q"]) (simp add: Get_FieldSegment)
  qed
next
  case (2 keys l pre)
  show ?case
  proof (cases "l = []")
    case False
    with 2 obtain j q where "j < length l" "p = pre @ elementSegment (mergeKeyAt keys pre) j (l ! j) # q"
       "list_all kinded q"
       "IsKeyMatch (elementSegment (mergeKeyAt keys pre) j (l ! j)) \<longrightarrow> q = []"
       "\<not> IsKeyMatch (elementSegment (mergeKeyAt keys pre) j (l ! j)) \<longrightarrow> Get (l ! j) q \<noteq> None"
      by auto
    with Get_element kinded_element show ?thesis
      by (intro exI[of _ "elementSegment (mergeKeyAt keys pre) j (l ! j) # q"]) auto
  qed (use 2 in \<open>simp add: leaf_def split: if_splits\<close>)
next
  case (5 keys k v m pre)
  then consider "p \<in> set (collectMembers keys m pre)"
    | "p \<in> set (collectLeaves keys v (Child pre (FieldSegment k)))" "\<not> (pre = [] \<and> (k = ''apiVersion'' \<or> k = ''kind''))"
    by (auto split: if_splits)
  then show ?case
  proof cases
    case 1
    with 5(2)[OF 1] 5(4,5) obtain k' v' q where "(k', v') \<in> set m" "p = pre @ FieldSegment k' # q"
      "Get v' q \<noteq> None" "list_all kinded q" "pre = [] \<longrightarrow> k' \<noteq> ''apiVersion'' \<and> k' \<noteq> ''kind''" by auto
    then show ?thesis by (intro exI[of _ k'] exI[of _ v'] exI[of _ q]) simp
  next
    case 2
    with 5 obtain q where "p = Child pre (FieldSegment k) @ q" "Get v q \<noteq> None" "list_all kinded q" by auto
    with 2 show ?thesis by (intro exI[of _ k] exI[of _ v] exI[of _ q]) (auto simp: Child_def)
  qed
next
  case (7 keys mk i e l pre)
  let ?s = "elementSegment mk i e"
  consider (rest) "p \<in> set (collectElems keys mk (Suc i) l pre)" | (key) "IsKeyMatch ?s" "p = Child pre ?s"
    | (leaf) "\<not> IsKeyMatch ?s" "p \<in> set (collectLeaves keys e (Child pre ?s))"
    using 7(3) by (auto simp: Let_def split: if_splits)
  then show ?case
  proof cases
    case rest
    with 7 obtain j q where "j < length l" "p = pre @ elementSegment mk (Suc i + j) (l ! j) # q"
      "list_all kinded q"
      "IsKeyMatch (elementSegment mk (Suc i + j) (l ! j)) \<longrightarrow> q = []"
      "\<not> IsKeyMatch (elementSegment mk (Suc i + j) (l ! j)) \<longrightarrow> Get (l ! j) q \<noteq> None" by auto
    then show ?thesis by (intro exI[of _ "Suc j"] exI[of _ q]) simp
  next
    case key
    then show ?thesis by (intro exI[of _ 0] exI[of _ "[]"]) (simp add: Child_def)
  next
    case leaf
    with 7(1)[of ?s] 7(4,5) obtain q where "p = Child pre ?s @ q" "Get e q \<noteq> None" "list_all kinded q" by auto
    with leaf show ?thesis by (intro exI[of _ 0] exI[of _ q]) (simp add: Child_def)
  qed
qed (auto simp: leaf_def split: if_splits)

section \<open>The identity\<close>

lemma map_of_withIdentity:
  "map_of (withIdentity flds t) k =
     (if k = ''metadata'' then Some (JObj (submap (withIdentity flds t) ''metadata''))
      else if k = ''kind'' then Some (JStr (tgKind t))
      else if k = ''apiVersion'' then Some (JStr (tgAPIVersion t)) else map_of flds k)"
  by (simp add: withIdentity_def Let_def map_of_aput submap_def)

lemma map_of_withIdentity_meta:
  "map_of (submap (withIdentity flds t) ''metadata'') k =
     (if k = ''namespace'' \<and> tgNamespace t \<noteq> '''' then Some (JStr (tgNamespace t))
      else if k = ''name'' then Some (JStr (tgName t)) else map_of (submap flds ''metadata'') k)"
  by (simp add: withIdentity_def Let_def map_of_aput submap_def)

definition scalar :: "json \<Rightarrow> bool" where
  "scalar v \<longleftrightarrow> (case v of JObj m \<Rightarrow> m = [] | JArr l \<Rightarrow> l = [] | _ \<Rightarrow> True)"

definition plain_identity :: "jmap \<Rightarrow> bool" where
  "plain_identity flds \<longleftrightarrow>
     (case map_of flds ''metadata'' of
        None \<Rightarrow> True
      | Some (JObj m) \<Rightarrow> pred_option scalar (map_of m ''name'') \<and> pred_option scalar (map_of m ''namespace'')
      | Some v \<Rightarrow> scalar v)"

lemma Get_scalar: "scalar v \<Longrightarrow> list_all kinded q \<Longrightarrow> Get v q \<noteq> None \<Longrightarrow> q = []"
  by (cases q) (auto simp: scalar_def kinded_def Get.simps split: json.splits if_splits)

lemma Get_withIdentity:
  assumes "Get v q \<noteq> None" "map_of flds k = Some v" "list_all kinded q"
    and "k \<noteq> ''apiVersion''" "k \<noteq> ''kind''" "k \<noteq> ''''" "plain_identity flds"
  shows "Get (JObj (withIdentity flds t)) (FieldSegment k # q) \<noteq> None"
proof (cases "k = ''metadata''")
  case False
  with assms show ?thesis by (simp add: Get_FieldSegment map_of_withIdentity)
next
  case meta: True
  let ?m = "submap (withIdentity flds t) ''metadata''"
  have eq: "Get (JObj (withIdentity flds t)) (FieldSegment k # q) = Get (JObj ?m) q"
    using meta by (simp add: Get_FieldSegment map_of_withIdentity)
  show ?thesis
  proof (cases "q = []")
    case False
    with assms(1-3,7) meta obtain m where m: "v = JObj m"
      using Get_scalar[of v q] by (auto simp: plain_identity_def split: json.splits)
    then have sub: "submap flds ''metadata'' = m" using assms(2) meta by (simp add: submap_def)
    from False assms(3) m assms(1) obtain s r u where q: "q = s # r" "IsField s" "map_of m (sField s) = Some u"
      "Get u r \<noteq> None" "list_all kinded r"
      by (cases q) (auto simp: Get.simps kinded_def split: option.splits if_splits)
    show ?thesis
    proof (cases "sField s = ''name'' \<or> sField s = ''namespace'' \<and> tgNamespace t \<noteq> ''''")
      case True
      then have "scalar u" using assms(2,7) meta m q(3) by (auto simp: plain_identity_def)
      with q have "r = []" using Get_scalar by blast
      with q eq True show ?thesis by (auto simp: Get.simps map_of_withIdentity_meta)
    next
      case False
      with q eq sub show ?thesis by (auto simp: Get.simps map_of_withIdentity_meta)
    qed
  qed (use eq in simp)
qed

section \<open>Order\<close>

lemma sortPaths_sorted [simp]: "sorted (map PathString (sortPaths ps))"
  by (simp add: sortPaths_def)

lemma set_sortPaths [simp]: "set (sortPaths ps) = set ps"
  by (simp add: sortPaths_def)

lemma LeafPaths_found:
  assumes "p \<in> set (LeafPaths flds mks)" "wf_json (JObj flds)" "named_members flds" "plain_identity flds"
  shows "Get (JObj (withIdentity flds t)) p \<noteq> None"
proof -
  have "flds \<noteq> []" using assms(1) by (auto simp: LeafPaths_def leaf_def)
  with assms(1) have "p \<in> set (collectMembers (keyByPath mks) flds [])" by (simp add: LeafPaths_def)
  moreover have "wf_members flds" using assms(2) by (simp add: wf_json.simps)
  ultimately obtain k v q where k: "(k, v) \<in> set flds" "p = FieldSegment k # q" "Get v q \<noteq> None"
    "list_all kinded q" "k \<noteq> ''apiVersion''" "k \<noteq> ''kind''"
    using collect_found(2)[of p "keyByPath mks" flds "[]"] assms(3) by auto
  moreover have "map_of flds k = Some v"
    using k(1) assms(2) by (auto intro: map_of_is_SomeI dest: wf_JObjD akeys_ok_distinct)
  moreover have "k \<noteq> ''''" using k(1) assms(3) by (auto simp: named_members_iff)
  ultimately show ?thesis using Get_withIdentity assms(4) by blast
qed

section \<open>Claims of an object without lists\<close>

fun listless :: "json \<Rightarrow> bool"
  and listless_members :: "jmap \<Rightarrow> bool" where
  "listless (JObj m) = listless_members m"
| "listless (JArr l) = (l = [])"
| "listless v = True"
| "listless_members [] = True"
| "listless_members ((k, v) # m) = (k \<noteq> '''' \<and> listless v \<and> listless_members m)"

lemma listless_members_iff: "listless_members m \<longleftrightarrow> (\<forall>(k, v) \<in> set m. k \<noteq> '''' \<and> listless v)"
  by (induction m) auto

lemma collect_fields:
  "p \<in> set (collectLeaves keys v pre) \<Longrightarrow> listless v \<Longrightarrow> \<exists>q. p = pre @ q \<and> field_path q"
  "p \<in> set (collectMembers keys m pre) \<Longrightarrow> listless_members m \<Longrightarrow>
     \<exists>k v q. (k, v) \<in> set m \<and> p \<in> set (collectLeaves keys v (pre @ [FieldSegment k])) \<and>
       p = pre @ FieldSegment k # q \<and> field_path q"
  "p \<in> set (collectElems keys mk i l pre) \<Longrightarrow> True"
proof (induction keys v pre and keys m pre and keys mk i l pre
    rule: collectLeaves_collectMembers_collectElems.induct)
  case (1 keys m pre)
  show ?case
  proof (cases "m = []")
    case False
    with 1 obtain k v q where k: "(k, v) \<in> set m" "p = pre @ FieldSegment k # q" "field_path q"
      by auto
    moreover have "k \<noteq> ''''" using k 1(3) by (auto simp: listless_members_iff)
    ultimately show ?thesis by (intro exI[of _ "FieldSegment k # q"]) simp
  qed (use 1 in \<open>simp add: leaf_def split: if_splits\<close>)
next
  case (5 keys k v m pre)
  from 5(3) consider "p \<in> set (collectMembers keys m pre)"
    | "p \<in> set (collectLeaves keys v (Child pre (FieldSegment k)))" "\<not> (pre = [] \<and> (k = ''apiVersion'' \<or> k = ''kind''))"
    by (auto split: if_splits)
  then show ?case
  proof cases
    case 1
    from 5(2)[OF 1] 5(4) obtain k' v' q where "(k', v') \<in> set m"
      "p \<in> set (collectLeaves keys v' (pre @ [FieldSegment k']))" "p = pre @ FieldSegment k' # q" "field_path q"
      by auto
    then show ?thesis by (intro exI[of _ k'] exI[of _ v'] exI[of _ q]) simp
  next
    case 2
    with 5 obtain q where "p = Child pre (FieldSegment k) @ q" "field_path q" by auto
    with 2 show ?thesis by (intro exI[of _ k] exI[of _ v] exI[of _ q]) (auto simp: Child_def)
  qed
qed (auto simp: leaf_def split: if_splits)

lemma disjoint_append: "list_all IsField r \<Longrightarrow> disjoint p q \<Longrightarrow> disjoint (r @ p) (r @ q)"
  by (induction r) (auto simp: key_next_def)

lemma collect_disjoint:
  "size v < n \<Longrightarrow> p \<in> set (collectLeaves keys v pre) \<Longrightarrow> q \<in> set (collectLeaves keys v pre) \<Longrightarrow> p \<noteq> q \<Longrightarrow>
     listless v \<Longrightarrow> wf_json v \<Longrightarrow> list_all IsField pre \<Longrightarrow> disjoint p q"
proof (induction n arbitrary: v p q pre)
  case (Suc n)
  show ?case
  proof (cases v)
    case (JObj m)
    show ?thesis
    proof (cases "m = []")
      case False
      with Suc.prems JObj have "p \<in> set (collectMembers keys m pre)" "q \<in> set (collectMembers keys m pre)"
        "listless_members m" by auto
      then obtain k v1 p1 l v2 q1 where
        k: "(k, v1) \<in> set m" "p \<in> set (collectLeaves keys v1 (pre @ [FieldSegment k]))" "p = pre @ FieldSegment k # p1"
        and l: "(l, v2) \<in> set m" "q \<in> set (collectLeaves keys v2 (pre @ [FieldSegment l]))" "q = pre @ FieldSegment l # q1"
        using collect_fields(2) by meson
      have ne: "k \<noteq> ''''" "l \<noteq> ''''" "listless v1"
        using k(1) l(1) Suc.prems(5) JObj by (auto simp: listless_members_iff)
      have ok: "akeys_ok m" using Suc.prems(6) JObj by (auto dest: wf_JObjD)
      show ?thesis
      proof (cases "k = l")
        case True
        have eq: "v1 = v2" using k(1) l(1) True eq_key_imp_eq_value[OF akeys_ok_distinct[OF ok]] by blast
        have "size v1 < n" using k(1) Suc.prems(1) JObj
          size_list_estimation'[of "(k, v1)" m "size v1" "size_prod (\<lambda>x. 0) size"] by simp
        moreover have "wf_json v1"
          using wf_JObjD(2)[of m k v1] Suc.prems(6) JObj k(1) akeys_ok_distinct[OF ok] by simp
        moreover have "list_all IsField (pre @ [FieldSegment k])" using Suc.prems(7) ne by simp
        ultimately show ?thesis
          using Suc.IH[of v1 p "pre @ [FieldSegment k]" q] k(2) l(2) Suc.prems(4) ne(3) eq True by blast
      next
        case False
        then have "disjoint_seg (FieldSegment k) (FieldSegment l)" using ne by (auto simp: disjoint_seg_def seg_defs)
        then show ?thesis using k(3) l(3) disjoint_append[OF Suc.prems(7)] by simp
      qed
    qed (use Suc.prems JObj in \<open>auto simp: leaf_def split: if_splits\<close>)
  qed (use Suc.prems in \<open>auto simp: leaf_def split: if_splits\<close>)
qed simp

lemma LeafPaths_disjoint:
  assumes "listless_members flds" "wf_json (JObj flds)" "p \<in> set (LeafPaths flds mks)" "q \<in> set (LeafPaths flds mks)"
    and "p \<noteq> q"
  shows "disjoint p q"
  using collect_disjoint[of "JObj flds" "Suc (size (JObj flds))" p _ "[]" q] assms
  by (auto simp: LeafPaths_def)

lemma LeafPaths_fields: "listless_members flds \<Longrightarrow> p \<in> set (LeafPaths flds mks) \<Longrightarrow> field_path p"
  using collect_fields(1)[of p "keyByPath mks" "JObj flds" "[]"] by (auto simp: LeafPaths_def)

section \<open>The skeleton of a JSON Patch\<close>

lemma putList_ensureMaps: "\<exists>s. putList (ensureMaps seed toks) toks = Some s"
proof (induction toks arbitrary: seed)
  case (Cons tok toks)
  then show ?case by (cases toks) (auto simp: map_of_aput)
qed simp

lemma seedFor_total: "\<exists>s. seedFor seed ops = Some s"
proof (induction ops arbitrary: seed)
  case (Cons op ops)
  have "\<exists>s. seedOp seed op = Some s"
    using putList_ensureMaps by (auto simp: seedOp_def Let_def)
  with Cons show ?case by auto
qed simp

lemma opPaths_distinct:
  "opPaths ops seen = Inr ps \<Longrightarrow>
     distinct (map PathString ps) \<and> set (map PathString ps) \<inter> set seen = {} \<and> '''' \<notin> set (map PathString ps)"
proof (induction ops seen arbitrary: ps rule: opPaths.induct)
  case (2 op ops seen)
  then show ?case by (auto simp: Let_def split: sum.splits if_splits) blast+
qed simp

section \<open>What rendering promises\<close>



text \<open>
  The rendered object carries the target's identity and nothing of the patch is lost: every
  top-level field but \<open>apiVersion\<close>, \<open>kind\<close> and \<open>metadata\<close>, and every \<open>metadata\<close> field but the name and the
  namespace, is the patch's own.
\<close>

theorem with_identity_stamps:
  "map_of (withIdentity flds t) ''apiVersion'' = Some (JStr (tgAPIVersion t)) \<and>
   map_of (withIdentity flds t) ''kind'' = Some (JStr (tgKind t)) \<and>
   map_of (submap (withIdentity flds t) ''metadata'') ''name'' = Some (JStr (tgName t)) \<and>
   map_of (submap (withIdentity flds t) ''metadata'') ''namespace'' =
     (if tgNamespace t = '''' then map_of (submap flds ''metadata'') ''namespace'' else Some (JStr (tgNamespace t))) \<and>
   (\<forall>k. k \<in> {''apiVersion'', ''kind'', ''metadata''} \<or> map_of (withIdentity flds t) k = map_of flds k) \<and>
   (\<forall>k. k \<in> {''name'', ''namespace''} \<or>
      map_of (submap (withIdentity flds t) ''metadata'') k = map_of (submap flds ''metadata'') k)"
  by (auto simp: map_of_withIdentity map_of_withIdentity_meta)

text \<open>
  The skeleton of a JSON Patch is always built: the type assertion in \<open>seedFor\<close> never panics,
  whatever the operations. The claimed paths of a rendered patch are in order and without repeats.
\<close>

theorem json6902_skeleton_total:
  assumes "renderJSON6902 jsonpatch raw = Inr (flds, ps)"
  shows "(\<forall>ops. seedFor [] ops \<noteq> None) \<and> sorted (map PathString ps) \<and> distinct (map PathString ps)"
proof -
  obtain ops qs where qs: "opPaths ops [] = Inr qs" "ps = sortPaths qs"
    using assms by (auto simp: renderJSON6902_def split: if_splits sum.splits option.splits)
  then have "distinct (map PathString qs)" using opPaths_distinct by blast
  then have "distinct (map PathString ps)"
    unfolding qs(2) sortPaths_def by (simp add: distinct_map inj_on_def)
  then show ?thesis using seedFor_total[of "[]"] qs(2) by auto
qed

text \<open>The same on an append to a list and an assignment, where the append makes its parent a list.\<close>

theorem json6902_skeleton_total_witness:
  "let op = (\<lambda>p. JObj [(''op'', JStr ''add''), (''path'', JStr p), (''value'', JInt 1)]);
       raw = RawJson (JArr [op ''/spec/args/-'', op ''/spec/n'', op ''/spec/n'']);
       lib = (\<lambda>r. Inr (\<lambda>d. Inr d))
   in \<exists>flds ps. renderJSON6902 lib (Some raw) = Inr (flds, ps) \<and>
        map PathString ps = [''spec.args[0]'', ''spec.n''] \<and> distinct (map PathString ps)"
proof -
  let ?op = "\<lambda>p. JObj [(''op'', JStr ''add''), (''path'', JStr p), (''value'', JInt 1)]"
  let ?raw = "RawJson (JArr [?op ''/spec/args/-'', ?op ''/spec/n'', ?op ''/spec/n''])"
  let ?r = "renderJSON6902 (\<lambda>r. Inr (\<lambda>d. Inr d)) (Some ?raw)"
  have "map_sum (\<lambda>e. ()) (\<lambda>(f, ps). map PathString ps) ?r = Inr [''spec.args[0]'', ''spec.n'']" by code_simp
  then obtain flds ps where r: "?r = Inr (flds, ps)" "map PathString ps = [''spec.args[0]'', ''spec.n'']"
    by (cases ?r) auto
  have "distinct (map PathString ps)" using json6902_skeleton_total[OF r(1)] by blast
  with r show ?thesis unfolding Let_def by (intro exI[of _ flds] exI[of _ ps] conjI)
qed

text \<open>
  A merge key that is a number is matched by its printed form, and the two decodings of one number
  print differently from a million on: the rendered element (a \<open>float64\<close>) is then addressed by a key
  that the live element (an \<open>int64\<close>) does not have, and is appended again.
\<close>

theorem numeric_merge_key_mismatch:
  "elementSegment ''port'' 0 (JObj [(''port'', as_float 1000000)]) = KeySegment ''port'' ''1e+06'' \<and>
   findByKey [JObj [(''port'', JInt 1000000)]] ''port'' ''1e+06'' = None \<and>
   json_marshal (as_float 1000000) = json_marshal (JInt 1000000)"
proof -
  have d: "nat_digits 1000000 = ''1000000''" proof -
    have "digit_char 1 = CHR ''1''" "digit_char 0 = CHR ''0''" by code_simp+
    then show ?thesis by (simp add: nat_digits.simps)
  qed
  then have f: "as_float 1000000 = JFloat False ''1'' 7"
    by (simp add: as_float_def strip_zeros_def)
  have i: "Itoa 1000000 = ''1000000''" by (simp add: Itoa_def d)
  have "fmtv (JFloat False ''1'' 7) = ''1e+06''" by code_simp
  moreover have "json_marshal (as_float 1000000) = json_marshal (JInt 1000000)"
    by (simp add: json_marshal_as_float in_int64_def)
  ultimately show ?thesis unfolding f by (simp add: elementSegment_def elem_matches_def mget_def i)
qed

end
