(* ===== verification/ClientSideLaws.thy ===== *)
theory ClientSideLaws
  imports ClientSide RenderLaws
begin

text \<open>
  What client-side apply promises: the claimed paths read the contribution, everything disjoint is
  left alone, a withdrawal restores what was there, and a second apply is quiet. The three loops of
  the applier walk a list of paths one at a time; the locale \<open>path_loop\<close> states what one step promises
  and derives what the loop does.
\<close>

section \<open>Loops over disjoint paths\<close>

definition map_ok :: "json \<Rightarrow> bool" where
  "map_ok c \<longleftrightarrow> wf_json c \<and> (case c of JObj m \<Rightarrow> True | _ \<Rightarrow> False)"

lemma map_ok_iff: "map_ok c \<longleftrightarrow> (\<exists>m. c = JObj m \<and> wf_json (JObj m))"
  by (cases c) (simp_all add: map_ok_def)

fun apart :: "Path list \<Rightarrow> bool" where
  "apart [] = True"
| "apart (p # ps) = (list_all (\<lambda>q. disjoint p q \<and> disjoint q p) ps \<and> apart ps)"

locale path_loop =
  fixes step :: "json \<Rightarrow> Path \<Rightarrow> (goerror, json) result"
    and own :: "Path \<Rightarrow> json list \<Rightarrow> json list"
    and good :: "Path \<Rightarrow> json list \<Rightarrow> bool"
  assumes step_own: "map_ok c \<Longrightarrow> good p (Matches c p) \<Longrightarrow> step c p = Inr c' \<Longrightarrow>
      map_ok c' \<and> Matches c' p = own p (Matches c p)"
    and step_frame: "map_ok c \<Longrightarrow> good p (Matches c p) \<Longrightarrow> step c p = Inr c' \<Longrightarrow> disjoint p q \<Longrightarrow>
      Matches c' q = Matches c q"
begin

lemma run_step:
  assumes "runPaths step (p # ps) c = Inr c'" "map_ok c" "apart (p # ps)" "\<forall>r \<in> set (p # ps). good r (Matches c r)"
  obtains d where "step c p = Inr d" "runPaths step ps d = Inr c'" "map_ok d" "apart ps"
    "Matches d p = own p (Matches c p)" "\<forall>q. disjoint p q \<longrightarrow> Matches d q = Matches c q"
    "\<forall>r \<in> set ps. good r (Matches d r)"
proof -
  obtain d where d: "step c p = Inr d" "runPaths step ps d = Inr c'" using assms(1) by (auto split: sum.splits)
  have fr: "Matches d q = Matches c q" if "disjoint p q" for q
    using step_frame[OF assms(2) _ d(1) that] assms(4) by simp
  moreover have "\<forall>r \<in> set ps. good r (Matches d r)"
    using assms(3,4) fr by (auto simp: list_all_iff)
  ultimately show thesis
    using that d step_own[OF assms(2) _ d(1)] assms(3,4) by simp
qed

lemma run_ok:
  "runPaths step ps c = Inr c' \<Longrightarrow> map_ok c \<Longrightarrow> apart ps \<Longrightarrow> \<forall>p \<in> set ps. good p (Matches c p) \<Longrightarrow> map_ok c'"
proof (induction ps arbitrary: c)
  case (Cons p ps)
  from Cons.prems obtain d where "runPaths step ps d = Inr c'" "map_ok d" "apart ps"
    "\<forall>r \<in> set ps. good r (Matches d r)" by (rule run_step)
  then show ?case by (rule Cons.IH)
qed simp

lemma run_frame:
  "runPaths step ps c = Inr c' \<Longrightarrow> map_ok c \<Longrightarrow> apart ps \<Longrightarrow> \<forall>p \<in> set ps. good p (Matches c p) \<Longrightarrow>
     \<forall>p \<in> set ps. disjoint p q \<Longrightarrow> Matches c' q = Matches c q"
proof (induction ps arbitrary: c)
  case (Cons p ps)
  from Cons.prems(1-4) obtain d where "runPaths step ps d = Inr c'" "map_ok d" "apart ps"
    "\<forall>r \<in> set ps. good r (Matches d r)" "Matches d q = Matches c q"
    using run_step Cons.prems(5) by (metis list.set_intros(1))
  with Cons.IH Cons.prems(5) show ?case by simp
qed simp

lemma run_own:
  "runPaths step ps c = Inr c' \<Longrightarrow> map_ok c \<Longrightarrow> apart ps \<Longrightarrow> \<forall>p \<in> set ps. good p (Matches c p) \<Longrightarrow>
     p \<in> set ps \<Longrightarrow> Matches c' p = own p (Matches c p)"
proof (induction ps arbitrary: c)
  case (Cons r ps)
  from Cons.prems(1-4) obtain d where d: "runPaths step ps d = Inr c'" "map_ok d" "apart ps"
    "\<forall>q \<in> set ps. good q (Matches d q)" and own: "Matches d r = own r (Matches c r)"
    and fr: "\<forall>q. disjoint r q \<longrightarrow> Matches d q = Matches c q"
    by (rule run_step)
  show ?case
  proof (cases "p = r")
    case True
    have "\<forall>q \<in> set ps. disjoint q r" using Cons.prems(3) by (auto simp: list_all_iff)
    with True own show ?thesis using run_frame[OF d] by simp
  next
    case False
    then have "p \<in> set ps" "disjoint r p" using Cons.prems(3,5) by (auto simp: list_all_iff)
    with Cons.IH[OF d] fr show ?thesis by simp
  qed
qed simp

end

section \<open>The two kinds of step\<close>

definition claim_value :: "jmap \<Rightarrow> Path \<Rightarrow> json" where
  "claim_value contribution p = (case Get (JObj contribution) p of Some v \<Rightarrow> v | None \<Rightarrow> JNull)"

definition claim_good :: "jmap \<Rightarrow> Path \<Rightarrow> bool" where
  "claim_good contribution p \<longleftrightarrow> key_stable p (claim_value contribution p) \<and> wf_json (claim_value contribution p)"

lemma writePath_D:
  "writePath contribution c p = Inr c' \<Longrightarrow> Set c p (claim_value contribution p) = (c', None)"
  by (auto simp: writePath_def claim_value_def split: option.splits prod.splits)

lemma Set_map_ok: "map_ok c \<Longrightarrow> wf_json v \<Longrightarrow> map_ok (fst (Set c p v))"
proof -
  assume "map_ok c" "wf_json v"
  then obtain m where m: "c = JObj m" "wf_json (JObj m)" by (auto simp: map_ok_iff)
  then show ?thesis
    using Set_shape[of m p v] Set_wf_aux[OF m(2) \<open>wf_json v\<close>, of p] by (auto simp: map_ok_iff)
qed

interpretation wr: path_loop "writePath contribution"
  "\<lambda>p ms. claim_value contribution p # tl ms" "\<lambda>p ms. claim_good contribution p" for contribution
proof
  fix c p c' assume "map_ok c" "claim_good contribution p" "writePath contribution c p = Inr c'"
  then show "map_ok c' \<and> Matches c' p = claim_value contribution p # tl (Matches c p)"
    using Set_Matches(1)[of _ p "claim_value contribution p" c'] Set_map_ok[of c "claim_value contribution p" p]
      writePath_D[of contribution c p c'] by (auto simp: map_ok_iff claim_good_def)
next
  fix c p c' q assume "map_ok c" "claim_good contribution p" "writePath contribution c p = Inr c'" "disjoint p q"
  then show "Matches c' q = Matches c q"
    using Set_Matches(2)[of _ p "claim_value contribution p" c' q] writePath_D[of contribution c p c']
    by (auto simp: map_ok_iff claim_good_def)
qed

text \<open>A restoring step is ready if a recorded prior has a value to replace and keeps its key.\<close>

definition restore_good :: "jmap \<Rightarrow> Path \<Rightarrow> json list \<Rightarrow> bool" where
  "restore_good priors p ms \<longleftrightarrow> addr_path p \<and> p \<noteq> [] \<and>
     (case map_of priors (PathString p) of None \<Rightarrow> True | Some v \<Rightarrow> ms \<noteq> [] \<and> key_stable p v \<and> wf_json v)"

definition restored :: "jmap \<Rightarrow> Path \<Rightarrow> json list \<Rightarrow> json list" where
  "restored priors p ms =
     (case map_of priors (PathString p) of None \<Rightarrow> tl ms | Some v \<Rightarrow> v # tl ms)"

lemma Set_total:
  assumes "Matches (JObj m) p \<noteq> []" and "list_all addr_seg p" and "p \<noteq> []"
  shows "\<exists>c'. Set (JObj m) p v = (c', None)"
proof -
  obtain s q where p: "p = s # q" using assms(3) by (cases p) auto
  have "matches1 (JObj m) s \<noteq> []" using assms(1) p by (cases q) (auto split: option.splits)
  then have "IsField s" by (auto simp: matches1_def split: if_splits)
  then show ?thesis using setAny_total[OF assms, of v] p by (simp add: Set_setAny)
qed

lemma restore_step:
  assumes "map_ok c" and "restore_good priors p (Matches c p)"
  shows "map_ok (restoreOrDelete priors c p) \<and>
     Matches (restoreOrDelete priors c p) p = restored priors p (Matches c p) \<and>
     (\<forall>q. disjoint p q \<longrightarrow> Matches (restoreOrDelete priors c p) q = Matches c q)"
proof -
  from assms(1) obtain m where m: "c = JObj m" "wf_json (JObj m)" by (auto simp: map_ok_iff)
  have p: "addr_path p" "p \<noteq> []" using assms(2) by (auto simp: restore_good_def)
  show ?thesis
  proof (cases "map_of priors (PathString p)")
    case None
    with Delete_Matches[OF m(2) p] m(1) show ?thesis
      by (auto simp: restoreOrDelete_def restored_def map_ok_iff)
  next
    case (Some v)
    then have v: "Matches c p \<noteq> []" "key_stable p v" "wf_json v" using assms(2) by (auto simp: restore_good_def)
    obtain c' where c': "Set c p v = (c', None)" using Set_total v(1) addr_path_addr p m(1) by blast
    then show ?thesis
      using Some Set_Matches[of m p v c'] v(2) Set_map_ok[OF assms(1) v(3), of p] m(1)
      by (simp add: restoreOrDelete_def restored_def)
  qed
qed

interpretation re: path_loop "\<lambda>c p. Inr (restoreOrDelete priors c p)" "restored priors" "restore_good priors"
  for priors
  using restore_step by unfold_locales auto

lemma runPaths_foldl: "runPaths (\<lambda>c p. Inr (f c p)) ps c = Inr (foldl f c ps)"
  by (induction ps arbitrary: c) simp_all

section \<open>Writing what is there\<close>

lemma findByKey_first:
  "hd_opt (filter (elem_matches k v) l) = Some d \<Longrightarrow> \<exists>i. findByKey l k v = Some i \<and> i < length l \<and> l ! i = d"
proof (induction l)
  case (Cons e l)
  then show ?case by (cases "elem_matches k v e") (auto simp: findByKey_Cons)
qed simp

lemma put1_idem:
  assumes "addr_seg s" and "wf_json c" and "hd_opt (matches1 c s) = Some d"
  shows "put1 c s d = c"
proof -
  have "matches1 c s \<noteq> []" using assms(3) by auto
  then have "fits c s" using matches1_fits[OF assms(1)] by simp
  with assms(1) show ?thesis
  proof (cases rule: fits_cases)
    case (map m)
    then have "map_of m (sField s) = Some d" using assms(3) by (auto simp: matches1_def split: option.splits)
    then show ?thesis using map assms(2) by (auto simp: put1_def am.put_same dest: wf_JObjD)
  next
    case (list l)
    then have "hd_opt (filter (elem_matches (sKey s) (sValue s)) l) = Some d"
      using assms(3) by (simp add: matches1_def)
    then obtain i where "findByKey l (sKey s) (sValue s) = Some i" "i < length l" "l ! i = d"
      using findByKey_first by blast
    then show ?thesis using list by (auto simp: put1_def locate_def)
  qed
qed

lemma setAny_idem:
  "hd_opt (Matches c p) = Some v \<Longrightarrow> wf_json c \<Longrightarrow> list_all addr_seg p \<Longrightarrow> p \<noteq> [] \<Longrightarrow> setAny c p v = (c, None)"
proof (induction p arbitrary: c)
  case (Cons s p)
  have s: "addr_seg s" "list_all addr_seg p" using Cons.prems(3) by auto
  show ?case
  proof (cases "p = []")
    case True
    then have h: "hd_opt (matches1 c s) = Some v" using Cons.prems(1) by simp
    then have "fits c s" using matches1_fits[OF s(1), of c] by (cases "matches1 c s") auto
    with True show ?thesis using setAny_single[OF s(1)] put1_idem[OF s(1) Cons.prems(2) h] by simp
  next
    case False
    then obtain d where d: "hd_opt (matches1 c s) = Some d" "hd_opt (Matches d p) = Some v"
      using Cons.prems(1) by (auto simp: Matches_Cons split: option.splits)
    then have fit: "fits c s" using matches1_fits[OF s(1), of c] by (cases "matches1 c s") auto
    have "d \<noteq> JNull" using d(2) False by (auto simp: Matches_empty)
    then have ch: "child1 c s (hd p) = d" using d(1) by (simp add: child1_def)
    have "wf_json d" using matches1_wf[OF Cons.prems(2), of d s] d(1) by (cases "matches1 c s") auto
    with Cons.IH[OF d(2)] s False have "setAny d p v = (d, None)" by simp
    then show ?thesis
      using setAny_Cons[OF s(1) fit False, of v c] ch put1_idem[OF s(1) Cons.prems(2) d(1)] by auto
  qed
qed simp

lemma Set_idem:
  assumes "map_ok c" and "hd_opt (Matches c p) = Some v" and "list_all addr_seg p" and "p \<noteq> []"
  shows "Set c p v = (c, None)"
proof -
  obtain m where m: "c = JObj m" "wf_json (JObj m)" using assms(1) by (auto simp: map_ok_iff)
  obtain s q where p: "p = s # q" using assms(4) by (cases p) auto
  have "matches1 (JObj m) s \<noteq> []" using assms(2) p m by (cases q) (auto split: option.splits)
  then have "IsField s" by (auto simp: matches1_def split: if_splits)
  then show ?thesis using setAny_idem[OF assms(2) _ assms(3,4)] m p by (simp add: Set_setAny)
qed

lemma runPaths_idem:
  "map_ok c \<Longrightarrow> \<forall>p \<in> set ps. list_all addr_seg p \<and> p \<noteq> [] \<and> (\<exists>v. Get (JObj contribution) p = Some v \<and> hd_opt (Matches c p) = Some v) \<Longrightarrow>
     runPaths (writePath contribution) ps c = Inr c"
proof (induction ps)
  case (Cons p ps)
  from Cons.prems(2) obtain v where "list_all addr_seg p" "p \<noteq> []" "Get (JObj contribution) p = Some v"
    "hd_opt (Matches c p) = Some v" by auto
  then have "writePath contribution c p = Inr c"
    using Set_idem[OF Cons.prems(1)] by (simp add: writePath_def)
  with Cons show ?case by simp
qed simp

section \<open>Capturing prior values\<close>

definition prior_of :: "jmap \<Rightarrow> jmap \<Rightarrow> Path \<Rightarrow> json option" where
  "prior_of live contribution p =
     (case Get (JObj live) p of
        None \<Rightarrow> None
      | Some e \<Rightarrow> (if map_option (sameValue e) (Get (JObj contribution) p) = Some True then None else Some e))"

lemma map_of_capturePrior:
  "map_of (capturePrior live contribution p priors) =
     (map_of priors)(PathString p := (case map_of priors (PathString p) of Some v \<Rightarrow> Some v | None \<Rightarrow> prior_of live contribution p))"
  by (rule ext) (auto simp: capturePrior_def prior_of_def map_of_aput split: option.splits)

lemma capturePriors_other:
  "s \<notin> PathString ` set ps \<Longrightarrow> map_of (capturePriors live contribution ps priors) s = map_of priors s"
  unfolding capturePriors_def
  by (induction ps arbitrary: priors) (auto simp: map_of_capturePrior)

lemma capturePriors_known:
  "map_of priors s = Some v \<Longrightarrow> map_of (capturePriors live contribution ps priors) s = Some v"
  unfolding capturePriors_def
proof (induction ps arbitrary: priors)
  case (Cons p ps)
  then have "map_of (capturePrior live contribution p priors) s = Some v"
    by (cases "s = PathString p") (simp_all add: map_of_capturePrior)
  with Cons.IH show ?case by simp
qed simp

lemma capturePriors_path:
  assumes "inj_on PathString (set ps)" and "p \<in> set ps"
  shows "map_of (capturePriors live contribution ps priors) (PathString p) =
     (case map_of priors (PathString p) of Some v \<Rightarrow> Some v | None \<Rightarrow> prior_of live contribution p)"
  using assms
proof (induction ps arbitrary: priors)
  case (Cons r ps)
  let ?pr = "capturePrior live contribution r priors"
  have step: "capturePriors live contribution (r # ps) priors = capturePriors live contribution ps ?pr"
    by (simp add: capturePriors_def)
  show ?case
  proof (cases "p \<in> set ps")
    case True
    have "map_of (capturePriors live contribution ps ?pr) (PathString p) =
      (case map_of ?pr (PathString p) of Some v \<Rightarrow> Some v | None \<Rightarrow> prior_of live contribution p)"
      using Cons.IH[OF _ True] Cons.prems(1) by (simp add: inj_on_def)
    moreover have "PathString p = PathString r \<Longrightarrow> p = r" using Cons.prems by (auto simp: inj_on_def)
    ultimately show ?thesis unfolding step by (auto simp: map_of_capturePrior split: option.splits)
  next
    case False
    then have p: "p = r" "PathString r \<notin> PathString ` set ps"
      using Cons.prems by (auto simp: inj_on_def)
    then show ?thesis
      unfolding step by (cases "map_of priors (PathString r)") (simp_all add: capturePriors_other map_of_capturePrior)
  qed
qed simp

lemma capturePriors_new:
  "map_of (capturePriors live contribution ps priors) s = Some v \<Longrightarrow> map_of priors s = None \<Longrightarrow>
     \<exists>p \<in> set ps. s = PathString p \<and> prior_of live contribution p = Some v"
proof (induction ps arbitrary: priors)
  case (Cons p ps)
  let ?pr = "capturePrior live contribution p priors"
  have step: "map_of (capturePriors live contribution ps ?pr) s = Some v"
    using Cons.prems(1) by (simp add: capturePriors_def)
  show ?case
  proof (cases "map_of ?pr s")
    case None
    with Cons.IH[OF step] show ?thesis by auto
  next
    case (Some u)
    then have "u = v" using step capturePriors_known by fastforce
    with Some Cons.prems(2) show ?thesis
      by (cases "s = PathString p") (auto simp: map_of_capturePrior)
  qed
qed (simp add: capturePriors_def)

lemma prior_of_live: "prior_of live contribution p = Some e \<Longrightarrow> Get (JObj live) p = Some e"
  by (auto simp: prior_of_def split: option.splits if_splits)

section \<open>Withdrawing\<close>

lemma restoreOrDelete_cong:
  "map_of pr (PathString p) = map_of pr' (PathString p) \<Longrightarrow> restoreOrDelete pr c p = restoreOrDelete pr' c p"
  by (simp add: restoreOrDelete_def)

definition stale :: "string list \<Rightarrow> Path list \<Rightarrow> Path list" where
  "stale claimed ps = filter (\<lambda>p. PathString p \<notin> set claimed) ps"

lemma withdrawPaths_fold:
  "distinct (map PathString (stale claimed ps)) \<Longrightarrow> akeys_ok priors \<Longrightarrow>
     (\<forall>p \<in> set (stale claimed ps). map_of priors (PathString p) = map_of pr (PathString p)) \<Longrightarrow>
     withdrawPaths claimed ps (c, priors) =
       (foldl (restoreOrDelete pr) c (stale claimed ps), fold adel (map PathString (stale claimed ps)) priors)"
proof (induction ps arbitrary: c priors)
  case (Cons p ps)
  show ?case
  proof (cases "PathString p \<in> set claimed")
    case True
    with Cons show ?thesis by (simp add: withdrawPaths_def withdrawPath_def stale_def)
  next
    case False
    have "withdrawPaths claimed (p # ps) (c, priors)
      = withdrawPaths claimed ps (restoreOrDelete priors c p, adel (PathString p) priors)"
      using False by (simp add: withdrawPaths_def withdrawPath_def)
    moreover have "restoreOrDelete priors c p = restoreOrDelete pr c p"
      using Cons.prems(3) False by (intro restoreOrDelete_cong) (simp add: stale_def)
    moreover have "\<forall>q \<in> set (stale claimed ps). map_of (adel (PathString p) priors) (PathString q) = map_of pr (PathString q)"
    proof
      fix q assume q: "q \<in> set (stale claimed ps)"
      then have "PathString q \<noteq> PathString p" using Cons.prems(1) False
        by (auto simp: stale_def image_iff)
      then show "map_of (adel (PathString p) priors) (PathString q) = map_of pr (PathString q)"
        using Cons.prems(2,3) q False by (simp add: stale_def map_of_adel)
    qed
    ultimately show ?thesis
      using Cons.IH[of "adel (PathString p) priors"] Cons.prems False by (simp add: stale_def akeys_ok_adel)
  qed
qed (simp add: withdrawPaths_def stale_def)

lemma map_of_adels: "akeys_ok m \<Longrightarrow> map_of (fold adel ks m) s = (if s \<in> set ks then None else map_of m s)"
  by (induction ks arbitrary: m) (auto simp: go_map)

section \<open>One update\<close>

lemma apart_append:
  "apart (ps @ qs) \<longleftrightarrow> apart ps \<and> apart qs \<and> (\<forall>p \<in> set ps. \<forall>q \<in> set qs. disjoint p q \<and> disjoint q p)"
  by (induction ps) (auto simp: list_all_iff)

definition base_priors :: "Request \<Rightarrow> Contribution \<Rightarrow> jmap \<Rightarrow> jmap" where
  "base_priors req c live =
     (if rqPriorValuesCaptured req then rqPriorValues req
      else capturePriors live (cnObject c) (cnPaths c) (rqPriorValues req))"

lemma akeys_ok_capturePrior: "akeys_ok priors \<Longrightarrow> akeys_ok (capturePrior live contribution p priors)"
  by (auto simp: capturePrior_def akeys_ok_aput split: option.splits)

lemma akeys_ok_base_priors: "akeys_ok (rqPriorValues req) \<Longrightarrow> akeys_ok (base_priors req c live)"
proof -
  have "akeys_ok pr \<Longrightarrow> akeys_ok (fold (capturePrior live contribution) ps pr)" for pr contribution ps
    by (induction ps arbitrary: pr) (auto simp: akeys_ok_capturePrior)
  then show "akeys_ok (rqPriorValues req) \<Longrightarrow> ?thesis" by (simp add: base_priors_def capturePriors_def)
qed

text \<open>
  A request fits a live object: its claims and the paths it withdraws do not overlap, the claims keep
  their keys, and a prior recorded for a withdrawn path has a value to replace.
\<close>

definition withdrawn :: "Request \<Rightarrow> Contribution \<Rightarrow> Path list" where
  "withdrawn req c = stale (map PathString (cnPaths c)) (rqPreviousPaths req)"

definition fits_live :: "Request \<Rightarrow> Contribution \<Rightarrow> jmap \<Rightarrow> bool" where
  "fits_live req c live \<longleftrightarrow>
     wf_json (JObj live) \<and> akeys_ok (rqPriorValues req) \<and>
     apart (cnPaths c @ withdrawn req c) \<and> distinct (map PathString (withdrawn req c)) \<and>
     list_all (claim_good (cnObject c)) (cnPaths c) \<and>
     list_all (\<lambda>p. restore_good (rqPriorValues req) p (Matches (JObj live) p)) (withdrawn req c)"

lemma desiredState_split:
  assumes "fits_live req c live" and "desiredState req c live = Inr (d, priors')"
  shows "runPaths (writePath (cnObject c)) (cnPaths c)
      (foldl (restoreOrDelete (rqPriorValues req)) (JObj live) (withdrawn req c)) = Inr d \<and>
    priors' = fold adel (map PathString (withdrawn req c)) (base_priors req c live)"
proof -
  have "withdrawPaths (map PathString (cnPaths c)) (rqPreviousPaths req) (JObj live, base_priors req c live)
     = (foldl (restoreOrDelete (rqPriorValues req)) (JObj live) (withdrawn req c),
        fold adel (map PathString (withdrawn req c)) (base_priors req c live))"
    unfolding withdrawn_def
  proof (rule withdrawPaths_fold)
    show "\<forall>p\<in>set (stale (map PathString (cnPaths c)) (rqPreviousPaths req)).
       map_of (base_priors req c live) (PathString p) = map_of (rqPriorValues req) (PathString p)"
      by (auto simp: stale_def base_priors_def intro!: capturePriors_other)
  qed (use assms(1) akeys_ok_base_priors in \<open>auto simp: fits_live_def withdrawn_def\<close>)
  then show ?thesis
    using assms(2) by (auto simp: desiredState_def base_priors_def Let_def split: sum.splits if_splits)
qed

lemma writes_found:
  "runPaths (writePath contribution) ps c = Inr d \<Longrightarrow> p \<in> set ps \<Longrightarrow>
     Get (JObj contribution) p = Some (claim_value contribution p)"
proof (induction ps arbitrary: c)
  case (Cons q ps)
  then show ?case by (auto simp: writePath_def claim_value_def split: sum.splits option.splits)
qed simp

lemma desiredState_effect:
  assumes "fits_live req c live" and "desiredState req c live = Inr (d, priors')"
  shows "map_ok d"
    and "p \<in> set (cnPaths c) \<Longrightarrow> Matches d p = claim_value (cnObject c) p # tl (Matches (JObj live) p)"
    and "p \<in> set (withdrawn req c) \<Longrightarrow> Matches d p = restored (rqPriorValues req) p (Matches (JObj live) p)"
    and "\<forall>p \<in> set (cnPaths c @ withdrawn req c). disjoint p q \<Longrightarrow> Matches d q = Matches (JObj live) q"
proof -
  let ?mid = "foldl (restoreOrDelete (rqPriorValues req)) (JObj live) (withdrawn req c)"
  have ap: "apart (cnPaths c)" "apart (withdrawn req c)"
    "\<And>p q. p \<in> set (cnPaths c) \<Longrightarrow> q \<in> set (withdrawn req c) \<Longrightarrow> disjoint p q \<and> disjoint q p"
    using assms(1) by (auto simp: fits_live_def apart_append)
  have live: "map_ok (JObj live)" using assms(1) by (simp add: fits_live_def map_ok_iff)
  have good: "\<forall>p \<in> set (withdrawn req c). restore_good (rqPriorValues req) p (Matches (JObj live) p)"
    "\<forall>p \<in> set (cnPaths c). claim_good (cnObject c) p"
    using assms(1) by (auto simp: fits_live_def list_all_iff)
  note mid = re.run_frame[OF runPaths_foldl live ap(2) good(1)]
  note mid_own = re.run_own[OF runPaths_foldl live ap(2) good(1)]
  have run: "runPaths (writePath (cnObject c)) (cnPaths c) ?mid = Inr d"
    using desiredState_split[OF assms] by simp
  have mid_ok: "map_ok ?mid" by (rule re.run_ok[OF runPaths_foldl live ap(2) good(1)])
  note out = wr.run_frame[OF run mid_ok ap(1) good(2)] and out_own = wr.run_own[OF run mid_ok ap(1) good(2)]
  show "map_ok d" by (rule wr.run_ok[OF run mid_ok ap(1) good(2)])
  show "Matches d p = claim_value (cnObject c) p # tl (Matches (JObj live) p)" if "p \<in> set (cnPaths c)"
    using out_own[OF that] mid[of p] ap(3) that by simp
  show "Matches d p = restored (rqPriorValues req) p (Matches (JObj live) p)" if "p \<in> set (withdrawn req c)"
    using out[of p] mid_own[OF that] ap(3) that by simp
  show "Matches d q = Matches (JObj live) q" if "\<forall>p \<in> set (cnPaths c @ withdrawn req c). disjoint p q"
    using out[of q] mid[of q] that by simp
qed

section \<open>Apply, then revert\<close>

lemma Matches_elem_ok: "e \<in> set (Matches c p) \<Longrightarrow> list_all addr_seg p \<Longrightarrow> p \<noteq> [] \<Longrightarrow> elem_ok (last p) e"
proof (induction c p rule: Matches.induct)
  case (2 c s)
  then show ?case
    by (cases "IsField s"; cases c) (simp_all add: elem_ok_def matches1_def)
next
  case (3 c s t p)
  then obtain d where "hd_opt (matches1 c s) = Some d" "e \<in> set (Matches d (t # p))"
    by (cases "hd_opt (matches1 c s)") simp_all
  with 3 show ?case by simp
qed simp

lemma Get_wf: "Get c p = Some e \<Longrightarrow> list_all addr_seg p \<Longrightarrow> wf_json c \<Longrightarrow> wf_json e"
proof (induction p arbitrary: c)
  case (Cons s p)
  then obtain d where d: "hd_opt (matches1 c s) = Some d" "Get d p = Some e"
    by (auto simp: Get_Cons split: option.splits)
  then have "wf_json d" using matches1_wf[OF Cons.prems(3), of d s] by (cases "matches1 c s") auto
  with Cons d show ?case by simp
qed simp

lemma printable_inj: "list_all printable ps \<Longrightarrow> inj_on PathString (set ps)"
proof -
  assume ps: "list_all printable ps"
  show ?thesis
  proof (rule inj_onI)
    fix p q assume "p \<in> set ps" "q \<in> set ps" "PathString p = PathString q"
    with ps have "Inr p = (Inr q :: (parse_error, Path) result)"
      by (metis Parse_PathString_aux list_all_iff)
    then show "p = q" by simp
  qed
qed

lemma claim_good_addr: "claim_good contribution p \<Longrightarrow> addr_path p \<and> list_all addr_seg p"
  using key_stable_addr by (auto simp: claim_good_def key_stable_addr_path)

lemma prior_good:
  assumes "prior_of live contribution p = Some e" "wf_json (JObj live)" "addr_path p" "p \<noteq> []"
  shows "key_stable p e \<and> wf_json e \<and> hd_opt (Matches (JObj live) p) = Some e"
proof -
  have addr: "list_all addr_seg p" using assms(3) by (rule addr_path_addr)
  have get: "Get (JObj live) p = Some e" using assms(1) by (rule prior_of_live)
  then have hd: "hd_opt (Matches (JObj live) p) = Some e" using Get_Matches[OF addr] by simp
  then have "e \<in> set (Matches (JObj live) p)" by (cases "Matches (JObj live) p") auto
  then show ?thesis
    using Matches_elem_ok addr assms(3,4) Get_wf[OF get addr assms(2)] hd by (simp add: key_stable_addr_path)
qed

text \<open>The first apply of a contributor: nothing owned before, nothing captured yet.\<close>

definition first_apply :: "Request \<Rightarrow> Contribution \<Rightarrow> bool" where
  "first_apply req c \<longleftrightarrow>
     rqPreviousPaths req = [] \<and> rqPriorValues req = [] \<and> \<not> rqPriorValuesCaptured req \<and> list_all printable (cnPaths c)"

lemma first_apply_priors:
  assumes "first_apply req c" "fits_live req c live" "desiredState req c live = Inr (d, priors)" "p \<in> set (cnPaths c)"
  shows "map_of priors (PathString p) = prior_of live (cnObject c) p"
proof -
  have w: "withdrawn req c = []" using assms(1) by (simp add: first_apply_def withdrawn_def stale_def)
  have "priors = capturePriors live (cnObject c) (cnPaths c) []"
    using desiredState_split[OF assms(2,3)] assms(1) w by (simp add: base_priors_def first_apply_def)
  then show ?thesis
    using capturePriors_path[OF printable_inj assms(4)] assms(1) by (simp add: first_apply_def)
qed

lemma revert_first_apply:
  assumes "first_apply req c" "fits_live req c live" "desiredState req c live = Inr (d, priors)"
    and "rrOwnedPaths rr = cnPaths c" "rrPriorValues rr = priors"
  shows "p \<in> set (cnPaths c) \<Longrightarrow> Matches (revertedState rr (root_map d)) p =
       (if prior_of live (cnObject c) p = None then tl (Matches (JObj live) p) else Matches (JObj live) p)"
    and "\<forall>p \<in> set (cnPaths c). disjoint p q \<Longrightarrow> Matches (revertedState rr (root_map d)) q = Matches (JObj live) q"
proof -
  have w: "withdrawn req c = []" using assms(1) by (simp add: first_apply_def withdrawn_def stale_def)
  have ap: "apart (cnPaths c)" using assms(2) w by (simp add: fits_live_def)
  have wfl: "wf_json (JObj live)" using assms(2) by (simp add: fits_live_def)
  have cg: "\<And>p. p \<in> set (cnPaths c) \<Longrightarrow> claim_good (cnObject c) p \<and> p \<noteq> []"
    using assms(1,2) by (auto simp: fits_live_def first_apply_def list_all_iff printable_def)
  note eff = desiredState_effect[OF assms(2,3)]
  obtain m where m: "d = JObj m" using eff(1) by (auto simp: map_ok_iff)
  have rev: "revertedState rr (root_map d) = foldl (restoreOrDelete priors) d (cnPaths c)"
    using m assms(4,5) by (simp add: revertedState_def root_map_def)
  have good: "\<forall>p \<in> set (cnPaths c). restore_good priors p (Matches d p)"
  proof
    fix p assume p: "p \<in> set (cnPaths c)"
    then show "restore_good priors p (Matches d p)"
      using first_apply_priors[OF assms(1-3) p] prior_good[OF _ wfl] claim_good_addr cg[OF p] eff(2)[OF p]
      by (auto simp: restore_good_def split: option.splits)
  qed
  note own = re.run_own[OF runPaths_foldl eff(1) ap good]
    and frame = re.run_frame[OF runPaths_foldl eff(1) ap good]
  show "Matches (revertedState rr (root_map d)) p =
       (if prior_of live (cnObject c) p = None then tl (Matches (JObj live) p) else Matches (JObj live) p)"
    if p: "p \<in> set (cnPaths c)"
  proof (cases "prior_of live (cnObject c) p")
    case None
    then show ?thesis
      using own[OF p] eff(2)[OF p] first_apply_priors[OF assms(1-3) p] by (simp add: rev restored_def)
  next
    case (Some e)
    then have "hd_opt (Matches (JObj live) p) = Some e" using prior_good[OF Some wfl] claim_good_addr cg[OF p] by blast
    with Some show ?thesis
      using own[OF p] eff(2)[OF p] first_apply_priors[OF assms(1-3) p]
      by (cases "Matches (JObj live) p") (auto simp: rev restored_def)
  qed
  show "Matches (revertedState rr (root_map d)) q = Matches (JObj live) q"
    if "\<forall>p \<in> set (cnPaths c). disjoint p q"
    using frame[OF that] eff(4)[of q] that w by (simp add: rev)
qed

section \<open>Applying again\<close>

lemma stale_self [simp]: "stale (map PathString ps) ps = []"
  by (auto simp: stale_def filter_empty_conv)

lemma captures_nothing:
  "(\<forall>p \<in> set ps. prior_of live contribution p = None) \<Longrightarrow> capturePriors live contribution ps priors = priors"
  unfolding capturePriors_def
proof (induction ps arbitrary: priors)
  case (Cons p ps)
  then have "capturePrior live contribution p priors = priors"
    by (auto simp: capturePrior_def prior_of_def split: option.splits if_splits)
  with Cons show ?case by simp
qed simp

lemma reapply_desired:
  assumes "fits_live req c live" "desiredState req c live = Inr (d, priors')" "\<forall>p \<in> set (cnPaths c). p \<noteq> []"
    and "rqPreviousPaths req' = cnPaths c"
  shows "desiredState req' c (root_map d) = Inr (d, rqPriorValues req')"
proof -
  note eff = desiredState_effect[OF assms(1,2)]
  obtain m where m: "d = JObj m" using eff(1) by (auto simp: map_ok_iff)
  have run: "runPaths (writePath (cnObject c)) (cnPaths c)
      (foldl (restoreOrDelete (rqPriorValues req)) (JObj live) (withdrawn req c)) = Inr d"
    using desiredState_split[OF assms(1,2)] by simp
  have here: "list_all addr_seg p \<and> Get (JObj (cnObject c)) p = Some (claim_value (cnObject c) p) \<and>
      hd_opt (Matches d p) = Some (claim_value (cnObject c) p)" if p: "p \<in> set (cnPaths c)" for p
    using writes_found[OF run p] eff(2)[OF p] assms(1) p claim_good_addr
    by (auto simp: fits_live_def list_all_iff)
  have "runPaths (writePath (cnObject c)) (cnPaths c) d = Inr d"
    using runPaths_idem[OF eff(1)] here assms(3) by blast
  moreover have "prior_of m (cnObject c) p = None" if p: "p \<in> set (cnPaths c)" for p
    using here[OF p] Get_Matches[of p d] m by (simp add: prior_of_def sameValue_def)
  then have "capturePriors m (cnObject c) (cnPaths c) (rqPriorValues req') = rqPriorValues req'"
    by (intro captures_nothing) blast
  moreover have "withdrawPaths (map PathString (cnPaths c)) (cnPaths c) st = st" for st
  proof -
    have "set ps \<subseteq> set qs \<Longrightarrow> withdrawPaths (map PathString qs) ps st = st" for ps qs st
      by (induction ps) (auto simp: withdrawPaths_def withdrawPath_def)
    then show ?thesis by blast
  qed
  ultimately show ?thesis using m assms(4) by (simp add: desiredState_def root_map_def Let_def)
qed

section \<open>The create-time merge\<close>

lemma map_of_deepMerge:
  "distinct (map fst src) \<Longrightarrow>
     map_of (deepMerge dst src) k =
       (case map_of src k of None \<Rightarrow> map_of dst k | Some sv \<Rightarrow> Some (mergeValue (map_of dst k) sv))"
proof (induction src arbitrary: dst)
  case (Cons kv src)
  obtain l sv where kv: "kv = (l, sv)" by fastforce
  have "map_of src l = None" using Cons.prems kv by (auto simp: map_of_eq_None_iff)
  then show ?case
    using Cons kv by (auto simp: map_of_aput split: option.splits)
qed simp

text \<open>A path the source does not touch: it leaves the source's maps before it reaches a value.\<close>

fun untouched :: "jmap \<Rightarrow> Path \<Rightarrow> bool" where
  "untouched src [] = False"
| "untouched src (s # p) =
     (case map_of src (sField s) of None \<Rightarrow> True | Some (JObj m) \<Rightarrow> untouched m p | Some _ \<Rightarrow> False)"

lemma Get_field_Cons:
  "IsField s \<Longrightarrow> Get (JObj m) (s # p) = (case map_of m (sField s) of None \<Rightarrow> None | Some v \<Rightarrow> Get v p)"
  by (simp add: Get.simps)

lemma Get_untouched: "untouched src p \<Longrightarrow> field_path p \<Longrightarrow> Get (JObj src) p = None"
proof (induction src p rule: untouched.induct)
  case (2 src s p)
  then show ?case by (auto simp: Get_field_Cons split: option.splits json.splits)
qed simp

lemma Get_not_map: "field_path p \<Longrightarrow> p \<noteq> [] \<Longrightarrow> (\<forall>m. v \<noteq> JObj m) \<Longrightarrow> Get v p = None"
  by (cases p; cases v) (auto simp: Get.simps)

lemma mergeValue_other: "(\<forall>m. v \<noteq> JObj m) \<Longrightarrow> mergeValue old v = v"
  by (cases v) auto

lemma deepMerge_wins:
  "Get (JObj src) p = Some v \<Longrightarrow> (\<forall>m. v \<noteq> JObj m) \<Longrightarrow> field_path p \<Longrightarrow> wf_json (JObj src) \<Longrightarrow>
     Get (JObj (deepMerge dst src)) p = Some v"
proof (induction p arbitrary: src dst)
  case (Cons s p)
  have dis: "distinct (map fst src)" using Cons.prems(4) by (auto dest: wf_JObjD akeys_ok_distinct)
  have s: "IsField s" "field_path p" using Cons.prems(3) by auto
  then obtain sv where sv: "map_of src (sField s) = Some sv" "Get sv p = Some v"
    using Cons.prems(1) by (auto simp: Get_field_Cons split: option.splits)
  have out: "Get (JObj (deepMerge dst src)) (s # p) = Get (mergeValue (map_of dst (sField s)) sv) p"
    using s sv(1) by (simp add: Get_field_Cons map_of_deepMerge[OF dis])
  show ?case
  proof (cases "\<exists>m. sv = JObj m")
    case True
    then obtain sm where sm: "sv = JObj sm" by blast
    then have "wf_json (JObj sm)" using wf_JObjD(2)[OF Cons.prems(4) sv(1)] by simp
    with Cons.IH[of sm] Cons.prems(2) sv(2) s sm out show ?thesis by (auto split: option.splits json.splits)
  next
    case False
    with out sv(2) show ?thesis by (simp add: mergeValue_other)
  qed
qed auto

lemma deepMerge_keeps:
  "untouched src p \<Longrightarrow> field_path p \<Longrightarrow> wf_json (JObj src) \<Longrightarrow> Get (JObj (deepMerge dst src)) p = Get (JObj dst) p"
proof (induction p arbitrary: src dst)
  case (Cons s p)
  have dis: "distinct (map fst src)" using Cons.prems(3) by (auto dest: wf_JObjD akeys_ok_distinct)
  have s: "IsField s" "field_path p" using Cons.prems(2) by auto
  show ?case
  proof (cases "map_of src (sField s)")
    case None
    then show ?thesis using s by (simp add: Get_field_Cons map_of_deepMerge[OF dis])
  next
    case (Some sv)
    then obtain sm where sm: "sv = JObj sm" "untouched sm p" using Cons.prems(1) by (auto split: json.splits)
    have ne: "p \<noteq> []" using sm(2) by (cases p) auto
    have wf: "wf_json (JObj sm)" using wf_JObjD(2)[OF Cons.prems(3) Some] sm(1) by simp
    show ?thesis
    proof (cases "\<exists>dm. map_of dst (sField s) = Some (JObj dm)")
      case True
      then obtain dm where "map_of dst (sField s) = Some (JObj dm)" by blast
      with Some sm s Cons.IH[OF sm(2) s(2) wf] show ?thesis
        by (simp add: Get_field_Cons map_of_deepMerge[OF dis])
    next
      case False
      then have "mergeValue (map_of dst (sField s)) sv = JObj sm"
        using sm(1) by (auto split: option.splits json.splits)
      moreover have "Get (JObj dst) (s # p) = None"
        using False s ne Get_not_map[OF s(2) ne] by (auto simp: Get_field_Cons split: option.splits)
      ultimately show ?thesis
        using Some s Get_untouched[OF sm(2) s(2)] by (simp add: Get_field_Cons map_of_deepMerge[OF dis])
    qed
  qed
qed simp

section \<open>What client-side apply promises\<close>

lemma update_confined:
  assumes "fits_live req c live" and "desiredState req c live = Inr (d, priors')"
  shows "map_ok d \<and>
    (\<forall>p \<in> set (cnPaths c). Get d p = Get (JObj (cnObject c)) p) \<and>
    (\<forall>p \<in> set (withdrawn req c). Get d p =
       (case map_of (rqPriorValues req) (PathString p) of
          Some v \<Rightarrow> Some v | None \<Rightarrow> hd_opt (tl (Matches (JObj live) p)))) \<and>
    (\<forall>q. list_all addr_seg q \<longrightarrow> (\<forall>p \<in> set (cnPaths c @ withdrawn req c). disjoint p q) \<longrightarrow>
       Get d q = Get (JObj live) q)"
proof (intro conjI ballI allI impI)
  note eff = desiredState_effect[OF assms] and run = desiredState_split[OF assms]
  show "map_ok d" by (rule eff)
  show "Get d p = Get (JObj (cnObject c)) p" if p: "p \<in> set (cnPaths c)" for p
    using eff(2)[OF p] writes_found[OF _ p] run claim_good_addr assms(1) p
    by (auto simp: Get_Matches fits_live_def list_all_iff)
  show "Get d p = (case map_of (rqPriorValues req) (PathString p) of
      Some v \<Rightarrow> Some v | None \<Rightarrow> hd_opt (tl (Matches (JObj live) p)))" if p: "p \<in> set (withdrawn req c)" for p
  proof -
    have "list_all addr_seg p"
      using assms(1) p addr_path_addr by (auto simp: fits_live_def list_all_iff restore_good_def)
    then show ?thesis using eff(3)[OF p] by (simp add: Get_Matches restored_def split: option.splits)
  qed
  show "Get d q = Get (JObj live) q"
    if "list_all addr_seg q" "\<forall>p \<in> set (cnPaths c @ withdrawn req c). disjoint p q" for q
    using eff(4)[OF that(2)] that(1) by (simp add: Get_Matches)
qed


text \<open>A sample: where a contributor swaps one annotation for another it had overwritten.\<close>

definition sample_live :: jmap where
  "sample_live = [(''data'', JObj [(''a'', JStr ''mine''), (''z'', JInt 7)]), (''kind'', JStr ''ConfigMap'')]"

definition sample_contribution :: Contribution where
  "sample_contribution = \<lparr>cnObject = [(''data'', JObj [(''b'', JStr ''new'')])],
     cnPaths = [[FieldSegment ''data'', FieldSegment ''b'']], cnHash = ''''\<rparr>"

definition sample_target :: Target where
  "sample_target = \<lparr>tgAPIVersion = ''v1'', tgKind = ''ConfigMap'', tgName = ''cm'', tgNamespace = ''ns''\<rparr>"

definition sample_request :: "Path list \<Rightarrow> jmap \<Rightarrow> bool \<Rightarrow> Request" where
  "sample_request previous priors captured =
     \<lparr>rqTarget = sample_target, rqContribution = Some sample_contribution, rqFieldManager = ''m'',
      rqConflictPolicy = ConflictPolicyFail, rqMergeKeys = [], rqPreviousPaths = previous,
      rqPriorValues = priors, rqPriorValuesCaptured = captured, rqBase = None, rqAllowCreate = False\<rparr>"

text \<open>A client that counts its writes, for the examples.\<close>

definition counting_client :: "(goerror, jmap) result \<Rightarrow> nat Client" where
  "counting_client live =
     \<lparr>clGet = \<lambda>t. State_Monad.return live, clCreate = \<lambda>ob. State (\<lambda>n. (Inr ob, Suc n)),
      clUpdate = \<lambda>ob. State (\<lambda>n. (Inr ob, Suc n)), clApply = \<lambda>ob m f. State (\<lambda>n. (Inr ob, Suc n)),
      clDelete = \<lambda>t. State (\<lambda>n. (Inr (), Suc n))\<rparr>"




text \<open>
  Applying again is quiet: on the object the first update produced, the same contribution computes
  the same object, makes no call to the API server and leaves the recorded priors as they are, even
  when the status that says they were captured was lost (its own value is never taken for a prior).
\<close>

theorem csa_reapply_quiet:
  assumes "fits_live req c live" and "desiredState req c live = Inr (d, priors')"
    and "\<forall>p \<in> set (cnPaths c). p \<noteq> []" and "rqPreviousPaths req' = cnPaths c"
  shows "run_state (csaUpdate sha cl req' c (root_map d)) w =
    (Inr (csaResult False False (root_map d) c (rqPriorValues req')), w)"
  using reapply_desired[OF assms] by (simp add: csaUpdate_def equalContent_def)

text \<open>The same with the capture lost in between.\<close>

theorem csa_reapply_quiet_witness:
  "let cl = counting_client (Inr []);
       d = [(''data'', JObj [(''a'', JStr ''mine''), (''b'', JStr ''new''), (''z'', JInt 7)]), (''kind'', JStr ''ConfigMap'')]
   in run_state (csaUpdate id cl (sample_request (cnPaths sample_contribution) [] False) sample_contribution d) 0
        = (Inr (csaResult False False d sample_contribution []), 0)"
proof -
  let ?d = "[(''data'', JObj [(''a'', JStr ''mine''), (''b'', JStr ''new''), (''z'', JInt 7)]), (''kind'', JStr ''ConfigMap'')]"
  let ?req = "sample_request [] [] False"
  have "desiredState ?req sample_contribution sample_live = Inr (JObj ?d, [])"
    "fits_live ?req sample_contribution sample_live" "\<forall>p \<in> set (cnPaths sample_contribution). p \<noteq> []" by code_simp+
  from csa_reapply_quiet[OF this(2,1,3), of "sample_request (cnPaths sample_contribution) [] False"]
  show ?thesis unfolding Let_def by (simp add: sample_request_def root_map_def)
qed

text \<open>
  A prior value is captured once: with the capture done, an update records none; while it is not
  done, a value recorded before stays, and a new one is the live value at a claimed path that differs
  from what is contributed there.
\<close>

theorem csa_priors_captured_once:
  assumes "fits_live req c live" and "desiredState req c live = Inr (d, priors')"
    and "map_of priors' s = Some v"
  shows "map_of (rqPriorValues req) s = Some v \<or>
    (\<not> rqPriorValuesCaptured req \<and> map_of (rqPriorValues req) s = None \<and>
     (\<exists>p \<in> set (cnPaths c). s = PathString p \<and> Get (JObj live) p = Some v \<and>
        (\<forall>want. Get (JObj (cnObject c)) p = Some want \<longrightarrow> \<not> sameValue v want)))"
proof -
  have "map_of (base_priors req c live) s = Some v"
    using assms(3) desiredState_split[OF assms(1,2)] akeys_ok_base_priors[of req c live] assms(1)
    by (auto simp: map_of_adels fits_live_def split: if_splits)
  moreover have "\<exists>p \<in> set (cnPaths c). s = PathString p \<and> Get (JObj live) p = Some v \<and>
        (\<forall>want. Get (JObj (cnObject c)) p = Some want \<longrightarrow> \<not> sameValue v want)"
    if "map_of (rqPriorValues req) s = None" "map_of (capturePriors live (cnObject c) (cnPaths c) (rqPriorValues req)) s = Some v"
    using capturePriors_new[OF that(2,1)] by (fastforce simp: prior_of_def split: option.splits if_splits)
  ultimately show ?thesis
    using capturePriors_known[of "rqPriorValues req" s]
    by (cases "map_of (rqPriorValues req) s") (auto simp: base_priors_def split: if_splits)
qed

text \<open>The same at the first apply over an existing value.\<close>

theorem csa_priors_captured_once_witness:
  "let live = [(''data'', JObj [(''b'', JStr ''old'')])]; req = sample_request [] [] False
   in (\<exists>d. desiredState req sample_contribution live = Inr (d, [(''data.b'', JStr ''old'')])) \<and>
      (\<exists>p \<in> set (cnPaths sample_contribution). ''data.b'' = PathString p)"
proof -
  let ?live = "[(''data'', JObj [(''b'', JStr ''old'')])]" and ?req = "sample_request [] [] False"
  have d: "desiredState ?req sample_contribution ?live =
    Inr (JObj [(''data'', JObj [(''b'', JStr ''new'')])], [(''data.b'', JStr ''old'')])" by code_simp
  have h: "fits_live ?req sample_contribution ?live" by code_simp
  have "map_of (rqPriorValues ?req) ''data.b'' = None" by code_simp
  then have "\<exists>p \<in> set (cnPaths sample_contribution). ''data.b'' = PathString p"
    using csa_priors_captured_once[OF h d, of "''data.b''" "JStr ''old''"] by auto
  with d show ?thesis unfolding Let_def by blast
qed

text \<open>
  On a create the contribution wins over the base: every value the contribution gives at a path of
  fields (lists included, maps merged) is the merged object's, and every base value the contribution
  does not touch is kept.
\<close>

theorem merge_contribution_wins:
  assumes "wf_json (JObj contribution)" and "field_path p"
  shows "(\<forall>v. Get (JObj contribution) p = Some v \<longrightarrow> (\<forall>m. v \<noteq> JObj m) \<longrightarrow>
       Get (JObj (deepMerge base contribution)) p = Some v) \<and>
    (untouched contribution p \<longrightarrow> Get (JObj (deepMerge base contribution)) p = Get (JObj base) p)"
  using deepMerge_wins deepMerge_keeps assms by blast

text \<open>The same for a base that sets a field the contribution sets too.\<close>

theorem merge_contribution_wins_witness:
  "let base = [(''spec'', JObj [(''a'', JInt 1), (''b'', JInt 2)])]; con = [(''spec'', JObj [(''a'', JInt 9)])];
       at = (\<lambda>f. [FieldSegment ''spec'', FieldSegment f])
   in Get (JObj (deepMerge base con)) (at ''a'') = Some (JInt 9) \<and>
      Get (JObj (deepMerge base con)) (at ''b'') = Some (JInt 2)"
proof -
  let ?base = "[(''spec'', JObj [(''a'', JInt 1), (''b'', JInt 2)])]" and ?con = "[(''spec'', JObj [(''a'', JInt 9)])]"
  let ?at = "\<lambda>f. [FieldSegment ''spec'', FieldSegment f]"
  have h: "wf_json (JObj ?con)" "field_path (?at ''a'')" "field_path (?at ''b'')" by code_simp+
  have g: "Get (JObj ?con) (?at ''a'') = Some (JInt 9)" "untouched ?con (?at ''b'')"
    "Get (JObj ?base) (?at ''b'') = Some (JInt 2)" by code_simp+
  have "Get (JObj (deepMerge ?base ?con)) (?at ''a'') = Some (JInt 9)"
    using merge_contribution_wins[OF h(1,2), of ?base] g(1) by blast
  moreover have "Get (JObj (deepMerge ?base ?con)) (?at ''b'') = Some (JInt 2)"
    using merge_contribution_wins[OF h(1,3), of ?base] g(2,3) by metis
  ultimately show ?thesis unfolding Let_def by blast
qed

text \<open>
  Client-side apply never creates a target it may not create, and never changes one it cannot
  read: where the live object is absent and creation is not allowed, or the read fails, the call ends
  with that error and the state the read left.
\<close>

theorem csa_apply_no_write:
  assumes "rqContribution req = Some c" and "run_state (clGet cl (rqTarget req)) w = (Inl e, w')"
    and "IsNotFound e \<longrightarrow> \<not> rqAllowCreate req"
  shows "\<exists>e'. run_state (csaApply sha cl req) w = (Inl e', w') \<and> IsNotFound e' = IsNotFound e"
  using assms by (auto simp: csaApply_def)

text \<open>The same for a patch-only contributor whose target is missing.\<close>

theorem csa_apply_no_write_witness:
  "let gone = NewNotFound ''configmaps'' ''cm'';
       cl = counting_client (Inl gone)
   in \<exists>e. run_state (csaApply id cl (sample_request [] [] False)) 5 = (Inl e, 5) \<and> IsNotFound e"
proof -
  let ?gone = "NewNotFound ''configmaps'' ''cm''"
  let ?cl = "counting_client (Inl ?gone)"
  have "rqContribution (sample_request [] [] False) = Some sample_contribution"
    "run_state (clGet ?cl (rqTarget (sample_request [] [] False))) 5 = (Inl ?gone, 5)"
    "IsNotFound ?gone \<longrightarrow> \<not> rqAllowCreate (sample_request [] [] False)"
    by (simp_all add: sample_request_def counting_client_def)
  from csa_apply_no_write[OF this, of id] show ?thesis by simp
qed

end
