(* ===== verification/ServerSide.thy ===== *)
theory ServerSide
  imports ClientSideLaws
begin

text \<open>
  Server-side apply (\<^verbatim>\<open>internal/apply/ssa.go\<close>) and the choice of an applier (\<^verbatim>\<open>For\<close> of
  \<^verbatim>\<open>internal/apply/applier.go\<close>). The API server's merge and its ownership conflicts are behind
  \<open>clApply\<close>; what is modelled is which applies the operator asks for and what it makes of the answers.
\<close>

section \<open>The applier\<close>

definition conflictOf :: "goerror \<Rightarrow> Conflict" where
  "conflictOf e = \<lparr>ccFields = ConflictingFields e, ccManagers = ConflictingManagers e,
     ccAllOurs = AllOurs (ConflictingManagers e)\<rparr>"

text \<open>The conflict reported, or none, together with the object as the server returned it.\<close>

definition ssaPatch ::
  "('w, 'z) Client_scheme \<Rightarrow> jmap \<Rightarrow> string \<Rightarrow> ConflictPolicy \<Rightarrow> ('w, Conflict option \<times> jmap) io" where
  "ssaPatch cl obj manager policy =
     do {
       r \<leftarrow> clApply cl obj manager (policy = ConflictPolicyForce);
       case r of
         Inr obj' \<Rightarrow> State_Monad.return (Inr (None, obj'))
       | Inl e \<Rightarrow>
           if \<not> IsFieldConflict e then State_Monad.return (Inl e)
           else
             (let c = conflictOf e
              in case policy of
                   ConflictPolicyPriority \<Rightarrow>
                     if \<not> ccAllOurs c then State_Monad.return (Inr (Some c, obj))
                     else do {
                       r' \<leftarrow> clApply cl obj manager True;
                       State_Monad.return
                         (case r' of
                            Inl e' \<Rightarrow> if IsFieldConflict e' then Inr (Some c, obj) else Inl e'
                          | Inr obj' \<Rightarrow> Inr (None, obj'))
                     }
                 | _ \<Rightarrow> State_Monad.return (Inr (Some c, obj)))
     }"

definition ssaExists :: "('w, 'z) Client_scheme \<Rightarrow> Target \<Rightarrow> ('w, bool) io" where
  "ssaExists cl t =
     do {
       r \<leftarrow> clGet cl t;
       State_Monad.return
         (case r of Inr _ \<Rightarrow> Inr True | Inl e \<Rightarrow> if IsNotFound e then Inr False else Inl e)
     }"

definition ssaObject :: "Request \<Rightarrow> Contribution \<Rightarrow> bool \<Rightarrow> (goerror, jmap) result" where
  "ssaObject req c existedBefore =
     (case rqBase req of
        Some base \<Rightarrow>
          (if existedBefore then Inr (deepCopyMap (cnObject c)) else mergeBaseAndContribution base (cnObject c))
      | None \<Rightarrow> Inr (deepCopyMap (cnObject c)))"

definition ssaApply :: "('w, 'z) Client_scheme \<Rightarrow> Request \<Rightarrow> ('w, Result) io" where
  "ssaApply cl req =
     (case rqContribution req of
        None \<Rightarrow> State_Monad.return (Inl (Errorf ''contribution is nil'' []))
      | Some c \<Rightarrow>
          if rqFieldManager req = '''' then State_Monad.return (Inl (Errorf ''field manager is empty'' []))
          else do {
            r \<leftarrow> ssaExists cl (rqTarget req);
            case r of
              Inl e \<Rightarrow> State_Monad.return (Inl e)
            | Inr existedBefore \<Rightarrow>
                if \<not> existedBefore \<and> \<not> rqAllowCreate req then
                  State_Monad.return (Inl (NewNotFound (schemaGroupResource (rqTarget req)) (tgName (rqTarget req))))
                else
                  (case ssaObject req c existedBefore of
                     Inl e \<Rightarrow> State_Monad.return (Inl e)
                   | Inr obj \<Rightarrow>
                       do {
                         r' \<leftarrow> ssaPatch cl obj (rqFieldManager req) (rqConflictPolicy req);
                         State_Monad.return
                           (case r' of
                              Inl e \<Rightarrow> Inl e
                            | Inr (Some conflict, _) \<Rightarrow>
                                Inr \<lparr>reCreated = False, reChanged = False, reLive = None, reOwnedPaths = cnPaths c,
                                     rePriorValues = [], rePriorValuesCaptured = False, reConflict = Some conflict\<rparr>
                            | Inr (None, live) \<Rightarrow>
                                Inr \<lparr>reCreated = \<not> existedBefore, reChanged = True, reLive = Some live,
                                     reOwnedPaths = cnPaths c, rePriorValues = [], rePriorValuesCaptured = False,
                                     reConflict = None\<rparr>)
                       })
          })"

definition ssaRevert :: "('w, 'z) Client_scheme \<Rightarrow> RevertRequest \<Rightarrow> ('w, unit) io" where
  "ssaRevert cl req =
     (if rrFieldManager req = '''' then State_Monad.return (Inl (Errorf ''field manager is empty'' []))
      else do {
        r \<leftarrow> clApply cl (Identity (rrTarget req)) (rrFieldManager req) False;
        case r of
          Inr _ \<Rightarrow> State_Monad.return (Inr ())
        | Inl e \<Rightarrow>
            if IsNotFound e then State_Monad.return (Inr ())
            else if IsFieldConflict e then
              do {
                r' \<leftarrow> clApply cl (Identity (rrTarget req)) (rrFieldManager req) True;
                State_Monad.return (map_sum id (\<lambda>_. ()) r')
              }
            else State_Monad.return (Inl e)
      })"

section \<open>Choosing an applier\<close>

datatype Applier = ServerSideApplier | ClientSideApplier

definition For :: "ApplyMode \<Rightarrow> (goerror, Applier) result" where
  "For mode =
     (if mode = ApplyModeServerSideApply \<or> mode = ApplyModeOther '''' then Inr ServerSideApplier
      else if mode = ApplyModeClientSideApply then Inr ClientSideApplier
      else Inl (Errorf ''unsupported apply mode %q'' [ApplyModeString mode]))"

definition ServerSideMode :: ApplyMode where
  "ServerSideMode = ApplyModeServerSideApply"

definition ClientSideMode :: ApplyMode where
  "ClientSideMode = ApplyModeClientSideApply"

definition Mode :: "Applier \<Rightarrow> ApplyMode" where
  "Mode a = (case a of ServerSideApplier \<Rightarrow> ServerSideMode | ClientSideApplier \<Rightarrow> ClientSideMode)"

lemma For_Mode: "For (Mode a) = Inr a"
  by (cases a) (simp_all add: For_def Mode_def ServerSideMode_def ClientSideMode_def)

definition applierApply ::
  "(string \<Rightarrow> string) \<Rightarrow> Applier \<Rightarrow> ('w, 'z) Client_scheme \<Rightarrow> Request \<Rightarrow> ('w, Result) io" where
  "applierApply sha a cl req = (case a of ServerSideApplier \<Rightarrow> ssaApply cl req | ClientSideApplier \<Rightarrow> csaApply sha cl req)"

definition applierRevert ::
  "(string \<Rightarrow> string) \<Rightarrow> Applier \<Rightarrow> ('w, 'z) Client_scheme \<Rightarrow> RevertRequest \<Rightarrow> ('w, unit) io" where
  "applierRevert sha a cl req = (case a of ServerSideApplier \<Rightarrow> ssaRevert cl req | ClientSideApplier \<Rightarrow> csaRevert sha cl req)"

section \<open>What server-side apply promises\<close>

lemma fieldConflict_notFound: "IsFieldConflict e \<Longrightarrow> \<not> IsNotFound e"
  using status_exclusive(1) by (auto simp: IsFieldConflict_def)


text \<open>A sample: a conflict with an ingress controller under Priority.\<close>

definition conflict_error :: "string \<Rightarrow> goerror" where
  "conflict_error manager =
     ErrStatus \<lparr>stReason = StatusReasonConflict, stMessage = '''',
       stDetails = Some [\<lparr>scType = CauseTypeFieldManagerConflict,
         scMessage = ''conflict with '' @ [CHR 0x22] @ manager @ [CHR 0x22] @ '' using v1'', scField = ''.data.a''\<rparr>]\<rparr>"

definition contested_client :: "string \<Rightarrow> nat Client" where
  "contested_client manager =
     (counting_client (Inr []))\<lparr>clApply := \<lambda>ob m f. State (\<lambda>n. (if f then Inr ob else Inl (conflict_error manager), Suc n))\<rparr>"


text \<open>
  Between the operator's own managers Priority does force: a conflict with such managers only is
  resolved by one forced apply, whose outcome is the result.
\<close>

theorem ssa_priority_forces_own:
  assumes "run_state (clApply cl obj manager False) w = (Inl e, w')" and "IsFieldConflict e"
    and "AllOurs (ConflictingManagers e)" and "run_state (clApply cl obj manager True) w' = (Inr obj', w'')"
  shows "run_state (ssaPatch cl obj manager ConflictPolicyPriority) w = (Inr (None, obj'), w'')"
  using assms by (simp add: ssaPatch_def conflictOf_def)

text \<open>The same between two contributors of the operator.\<close>

theorem ssa_priority_forces_own_witness:
  "run_state (ssaPatch (contested_client ''patch-operator/ns/b'') [] ''patch-operator/ns/a'' ConflictPolicyPriority) 0
     = (Inr (None, []), 2)"
proof -
  let ?e = "conflict_error ''patch-operator/ns/b''" and ?cl = "contested_client ''patch-operator/ns/b''"
  have c: "IsFieldConflict ?e" "AllOurs (ConflictingManagers ?e)" by code_simp+
  have a: "run_state (clApply ?cl [] ''patch-operator/ns/a'' False) 0 = (Inl ?e, 1)"
    "run_state (clApply ?cl [] ''patch-operator/ns/a'' True) 1 = (Inr [], 2)" by (simp_all add: contested_client_def)
  show ?thesis by (rule ssa_priority_forces_own[OF a(1) c a(2)])
qed

text \<open>
  A withdrawal succeeds when the target is gone, in both modes: nothing is left to withdraw, so the
  contributor is released instead of retried forever.
\<close>

theorem revert_when_gone:
  assumes "rrFieldManager req \<noteq> ''''" and "IsNotFound e"
    and "run_state (clApply cl (Identity (rrTarget req)) (rrFieldManager req) False) w = (Inl e, w1)"
    and "run_state (clGet cl (rrTarget req)) w = (Inl e, w2)"
  shows "run_state (applierRevert sha ServerSideApplier cl req) w = (Inr (), w1) \<and>
    run_state (applierRevert sha ClientSideApplier cl req) w = (Inr (), w2)"
  using assms by (simp add: applierRevert_def ssaRevert_def csaRevert_def)

text \<open>The same for a client that finds nothing.\<close>

theorem revert_when_gone_witness:
  "let gone = NewNotFound ''configmaps'' ''cm'';
       cl = (counting_client (Inl gone))\<lparr>clApply := \<lambda>ob m f. State_Monad.return (Inl gone)\<rparr>;
       rr = \<lparr>rrTarget = sample_target, rrFieldManager = ''m'', rrOwnedPaths = [], rrPriorValues = []\<rparr>
   in run_state (applierRevert id ServerSideApplier cl rr) 0 = (Inr (), 0)"
proof -
  let ?gone = "NewNotFound ''configmaps'' ''cm''"
  let ?cl = "(counting_client (Inl ?gone))\<lparr>clApply := \<lambda>ob m f. State_Monad.return (Inl ?gone)\<rparr>"
  let ?rr = "\<lparr>rrTarget = sample_target, rrFieldManager = ''m'', rrOwnedPaths = [], rrPriorValues = []\<rparr>"
  have "rrFieldManager ?rr \<noteq> ''''" "IsNotFound ?gone"
    "run_state (clApply ?cl (Identity (rrTarget ?rr)) (rrFieldManager ?rr) False) 0 = (Inl ?gone, 0)"
    "run_state (clGet ?cl (rrTarget ?rr)) 0 = (Inl ?gone, 0)"
    by (simp_all add: counting_client_def)
  from revert_when_gone[OF this, of id] show ?thesis unfolding Let_def by blast
qed

text \<open>
  Field managers are the operator's own, within the API server's limit, and tell contributors
  apart: two contributors whose manager names need no shortening have the same manager only if they
  have the same namespace and name.
\<close>

theorem field_manager_distinct:
  assumes "\<And>s. length (sha s) \<ge> 16"
  shows "IsOurManager (FieldManagerFor sha kind ns n) \<and>
    length (FieldManagerFor sha kind ns n) \<le> maxFieldManagerLength \<and>
    (length ns + length n + 16 \<le> maxFieldManagerLength \<longrightarrow> length ns' + length n' + 16 \<le> maxFieldManagerLength \<longrightarrow>
     CHR ''/'' \<notin> set (ns @ n @ ns' @ n') \<longrightarrow>
     FieldManagerFor sha kind ns n = FieldManagerFor sha kind' ns' n' \<longrightarrow> ns = ns' \<and> n = n')"
proof -
  have pre: "length FieldManagerPrefix = 15" by (simp add: FieldManagerPrefix_def)
  have cut: "ns = ns' \<and> n = n'"
    if "CHR ''/'' \<notin> set (ns @ n @ ns' @ n')"
      "(if ns = '''' then '''' else ns @ ''/'') @ n = (if ns' = '''' then '''' else ns' @ ''/'') @ n'"
    using that by (auto simp: append_eq_append_conv2 append_eq_Cons_conv Cons_eq_append_conv split: if_splits)
  have short: "FieldManagerFor sha k a b = FieldManagerPrefix @ (if a = '''' then '''' else a @ ''/'') @ b"
    if "length a + length b + 16 \<le> maxFieldManagerLength" for k a b
    using that pre by (auto simp: FieldManagerFor_def truncateFieldManager_def)
  have "IsOurManager (FieldManagerFor sha kind ns n)"
    using truncateFieldManager_prefix[of sha FieldManagerPrefix] assms pre
    by (simp add: IsOurManager_def FieldManagerFor_def)
  moreover have "length (FieldManagerFor sha kind ns n) \<le> maxFieldManagerLength"
    using truncateFieldManager_length[of sha] assms by (simp add: FieldManagerFor_def)
  ultimately show ?thesis using cut by (auto simp: short simp del: set_append)
qed

text \<open>The same for a namespaced and a cluster-scoped contributor of the same name.\<close>

theorem field_manager_distinct_witness:
  "FieldManagerFor (\<lambda>s. replicate 64 (CHR ''0'')) KindResourcePatch ''ns'' ''a'' = ''patch-operator/ns/a'' \<and>
   IsOurManager (FieldManagerFor (\<lambda>s. replicate 64 (CHR ''0'')) KindResourcePatch ''ns'' ''a'')"
  using field_manager_distinct[of "\<lambda>s. replicate 64 (CHR ''0'')" KindResourcePatch "''ns''" "''a''"]
  by (simp add: FieldManagerFor_def truncateFieldManager_def maxFieldManagerLength_def FieldManagerPrefix_def)

end
