(* ===== verification/Scope.thy ===== *)
theory Scope
  imports Api
begin

text \<open>
  Containment and tracker selection (\<^verbatim>\<open>internal/scope/scope.go\<close>): the validation table of a
  contributor, the target key it resolves to, which tracker owns a target and what that tracker is
  called. The parameter \<open>isNamespacedKind\<close> is the RESTMapper lookup, absent when admission has none; \<open>sha\<close>
  is the SHA-256 digest in hexadecimal.
\<close>

record TargetKey =
  kyAPIVersion :: string
  kyKind :: string
  kyNamespace :: string
  kyName :: string

definition TargetKeyString :: "TargetKey \<Rightarrow> string" where
  "TargetKeyString k =
     (if kyNamespace k = '''' then kyAPIVersion k @ ''/'' @ kyKind k @ ''/'' @ kyName k
      else kyAPIVersion k @ ''/'' @ kyKind k @ ''/'' @ kyNamespace k @ ''/'' @ kyName k)"

definition IsClusterScopedTarget :: "TargetKey \<Rightarrow> bool" where
  "IsClusterScopedTarget k \<longleftrightarrow> kyNamespace k = ''''"

section \<open>Validation\<close>

datatype ErrorType = ErrorTypeRequired | ErrorTypeForbidden | ErrorTypeInvalid | ErrorTypeNotSupported

text \<open>A \<^verbatim>\<open>field.Error\<close>: its type, the field it names and its detail.\<close>

type_synonym FieldError = "ErrorType \<times> string \<times> string"

type_synonym kind_lookup = "string \<Rightarrow> string \<Rightarrow> (goerror, bool) result"

definition targetMode :: "ResourcePatchSpec \<Rightarrow> TargetMode" where
  "targetMode spec =
     (if trMode (rsTarget spec) = TargetModeOther '''' then TargetModeSingle else trMode (rsTarget spec))"

definition isOwnKind :: "string \<Rightarrow> string \<Rightarrow> bool" where
  "isOwnKind apiVersion kind \<longleftrightarrow>
     (HasPrefix apiVersion (GroupName @ ''/'') \<or> apiVersion = GroupName) \<and>
     kind \<in> {KindResourcePatch, KindClusterResourcePatch, KindSharedResource, KindClusterSharedResource}"

definition validateTargetIdentity :: "ResourcePatchSpec \<Rightarrow> FieldError list" where
  "validateTargetIdentity spec =
     (if trAPIVersion (rsTarget spec) = '''' then [(ErrorTypeRequired, ''spec.target.apiVersion'', ''the target's apiVersion is required'')] else []) @
     (if trKind (rsTarget spec) = '''' then [(ErrorTypeRequired, ''spec.target.kind'', ''the target's kind is required'')] else [])"

definition validateMode :: "ResourcePatchSpec \<Rightarrow> FieldError list" where
  "validateMode spec =
     (let t = rsTarget spec
      in case targetMode spec of
           TargetModeSingle \<Rightarrow>
             (if trName t = '''' then [(ErrorTypeRequired, ''spec.target.name'', ''name is required in Single mode'')] else []) @
             (if trSelector t \<noteq> None then [(ErrorTypeForbidden, ''spec.target.selector'', ''selector is only valid in Selector mode'')] else []) @
             (if trNamespaceSelector t \<noteq> None
              then [(ErrorTypeForbidden, ''spec.target.namespaceSelector'', ''namespaceSelector is only valid in Selector mode'')] else [])
         | TargetModeSelector \<Rightarrow>
             (if trName t \<noteq> '''' then [(ErrorTypeForbidden, ''spec.target.name'', ''name is forbidden in Selector mode'')] else []) @
             (if trSelector t = None \<and> trNamespaceSelector t = None
              then [(ErrorTypeRequired, ''spec.target.selector'', ''Selector mode needs a selector or a namespaceSelector'')] else []) @
             (if trMaxTargets t < 0 then [(ErrorTypeInvalid, ''spec.target.maxTargets'', ''maxTargets must be positive'')] else [])
         | TargetModeOther m \<Rightarrow> [(ErrorTypeNotSupported, ''spec.target.mode'', m)])"

definition validateLifecycle :: "ResourcePatchSpec \<Rightarrow> FieldError list" where
  "validateLifecycle spec =
     (let lc = rsLifecycle spec
      in (if targetMode spec = TargetModeSelector then
            (if lcOnMissing lc = OnMissingCreate
             then [(ErrorTypeForbidden, ''spec.lifecycle.onMissing'', ''onMissing: Create is invalid in Selector mode; there is no single object to create'')] else []) @
            (if lcOnRelease lc = OnReleaseDelete
             then [(ErrorTypeForbidden, ''spec.lifecycle.onRelease'', ''onRelease: Delete is invalid in Selector mode; a matched object was not created by this contributor'')] else [])
          else []) @
         (if lcOnRelease lc = OnReleaseDelete \<and> lcOnMissing lc \<noteq> OnMissingCreate
          then [(ErrorTypeForbidden, ''spec.lifecycle.onRelease'', ''onRelease: Delete requires onMissing: Create; only the contributor that created a target may delete it'')] else []) @
         (if lcOnMissing lc = OnMissingCreate \<and> rsBase spec = None
          then [(ErrorTypeRequired, ''spec.base'', ''onMissing: Create needs spec.base as the seed manifest'')] else []) @
         (if lcBaseReconcile lc = BaseReconcileEnforce
          then [(ErrorTypeForbidden, ''spec.lifecycle.baseReconcile'', ''baseReconcile: Enforce is not implemented in v1alpha1; it needs its own priority semantics against contributions'')] else []))"

definition rawUnset :: "RawExtension option \<Rightarrow> bool" where
  "rawUnset r \<longleftrightarrow> r = None \<or> r = Some RawEmpty"

definition mergeKeyErrors :: "nat \<times> MergeKey \<Rightarrow> FieldError list" where
  "mergeKeyErrors imk =
     (let at = ''spec.patch.mergeKeys['' @ Itoa (int (fst imk)) @ '']''
      in (if mkPath (snd imk) = '''' then [(ErrorTypeRequired, at @ ''.path'', ''path is required'')] else []) @
         (if mkKey (snd imk) = '''' then [(ErrorTypeRequired, at @ ''.key'', ''key is required'')] else []))"

definition validatePatch :: "ResourcePatchSpec \<Rightarrow> FieldError list" where
  "validatePatch spec =
     (let p = rsPatch spec;
          patchType = (if psType p = PatchTypeOther '''' then PatchTypeStrategicMerge else psType p)
      in (case patchType of
            PatchTypeJSON6902 \<Rightarrow>
              (if rawUnset (psOps p) then [(ErrorTypeRequired, ''spec.patch.ops'', ''ops is required for type JSON6902'')] else []) @
              (if psValue p \<noteq> None then [(ErrorTypeForbidden, ''spec.patch.value'', ''value is not used for type JSON6902'')] else [])
          | PatchTypeOther t \<Rightarrow> [(ErrorTypeNotSupported, ''spec.patch.type'', t)]
          | _ \<Rightarrow>
              (if rawUnset (psValue p)
               then [(ErrorTypeRequired, ''spec.patch.value'', Sprintf ''value is required for type %s'' [PatchTypeString patchType])] else []) @
              (if psOps p \<noteq> None then [(ErrorTypeForbidden, ''spec.patch.ops'', ''ops is only valid for type JSON6902'')] else [])) @
         (if psMergeKeys p \<noteq> [] \<and> asMode (rsApply spec) = ApplyModeServerSideApply
          then [(ErrorTypeForbidden, ''spec.patch.mergeKeys'', ''mergeKeys only apply under apply.mode: ClientSideApply; server-side apply takes list semantics from the target's schema'')] else []) @
         concat (map mergeKeyErrors (List.enumerate 0 (psMergeKeys p))))"

definition validateNamespaced :: "ResourcePatchSpec \<Rightarrow> Contributor \<Rightarrow> kind_lookup option \<Rightarrow> FieldError list" where
  "validateNamespaced spec c isNamespacedKind =
     (let t = rsTarget spec; own = coNamespace c
      in (if trNamespace t \<noteq> '''' \<and> trNamespace t \<noteq> own
          then [(ErrorTypeInvalid, ''spec.target.namespace'', Sprintf ''a ResourcePatch may only target its own namespace (%q); use a ClusterResourcePatch to cross a namespace boundary'' [own])] else []) @
         (case isNamespacedKind of
            None \<Rightarrow> []
          | Some lookup \<Rightarrow>
              (case lookup (trAPIVersion t) (trKind t) of
                 Inr namespaced \<Rightarrow>
                   (if namespaced then []
                    else [(ErrorTypeInvalid, ''spec.target.kind'', ''a ResourcePatch may only target namespaced kinds; use a ClusterResourcePatch for a cluster-scoped target'')])
               | Inl e \<Rightarrow> [])) @
         (if trNamespaceSelector t \<noteq> None
          then [(ErrorTypeForbidden, ''spec.target.namespaceSelector'', ''namespaceSelector is forbidden on a ResourcePatch, which is confined to its own namespace'')] else []) @
         (case rsServiceAccountRef spec of
            None \<Rightarrow> []
          | Some sa \<Rightarrow>
              (if saNamespace sa \<noteq> '''' \<and> saNamespace sa \<noteq> own
               then [(ErrorTypeInvalid, ''spec.serviceAccountRef.namespace'', ''a ResourcePatch may only impersonate a ServiceAccount in its own namespace'')] else [])))"

definition validateClusterScoped :: "ResourcePatchSpec \<Rightarrow> kind_lookup option \<Rightarrow> FieldError list" where
  "validateClusterScoped spec isNamespacedKind =
     (case isNamespacedKind of
        None \<Rightarrow> []
      | Some lookup \<Rightarrow>
          (let t = rsTarget spec
           in case lookup (trAPIVersion t) (trKind t) of
                Inl e \<Rightarrow> []
              | Inr namespaced \<Rightarrow>
                  (if namespaced \<and> targetMode spec = TargetModeSingle \<and> trNamespace t = ''''
                   then [(ErrorTypeRequired, ''spec.target.namespace'', Sprintf ''namespace is required for the namespaced kind %q'' [trKind t])]
                   else if \<not> namespaced \<and> trNamespace t \<noteq> ''''
                   then [(ErrorTypeForbidden, ''spec.target.namespace'', Sprintf ''namespace is forbidden for the cluster-scoped kind %q'' [trKind t])]
                   else [])))"

definition Validate :: "Contributor \<Rightarrow> kind_lookup option \<Rightarrow> FieldError list" where
  "Validate c isNamespacedKind =
     (let spec = coSpec c
      in validateTargetIdentity spec @ validateMode spec @ validateLifecycle spec @ validatePatch spec @
         (if coCluster c then validateClusterScoped spec isNamespacedKind
          else validateNamespaced spec c isNamespacedKind) @
         (if isOwnKind (trAPIVersion (rsTarget spec)) (trKind (rsTarget spec))
          then [(ErrorTypeInvalid, ''spec.target.kind'', ''a contributor may not target this operator's own kinds; that would reconcile itself'')] else []))"

section \<open>Target and tracker\<close>

definition ResolveTargetNamespace :: "Contributor \<Rightarrow> string" where
  "ResolveTargetNamespace c = (if \<not> coCluster c then coNamespace c else trNamespace (coTarget c))"

definition TargetKeyFor :: "Contributor \<Rightarrow> TargetKey" where
  "TargetKeyFor c =
     \<lparr>kyAPIVersion = trAPIVersion (coTarget c), kyKind = trKind (coTarget c),
      kyNamespace = ResolveTargetNamespace c, kyName = trName (coTarget c)\<rparr>"

definition TrackerKindFor :: "TargetKey \<Rightarrow> bool \<Rightarrow> string" where
  "TrackerKindFor key hasClusterScopedContributor =
     (if IsClusterScopedTarget key \<or> hasClusterScopedContributor then KindClusterSharedResource
      else KindSharedResource)"

text \<open>The loop of \<^verbatim>\<open>sanitizeDNS1123\<close>, with the bytes written so far in reverse.\<close>

definition dns_byte :: "char \<Rightarrow> bool" where
  "dns_byte c \<longleftrightarrow> CHR ''a'' \<le> c \<and> c \<le> CHR ''z'' \<or> CHR ''0'' \<le> c \<and> c \<le> CHR ''9'' \<or> c = CHR ''-'' \<or> c = CHR ''.''"

fun sanitizeLoop :: "string \<Rightarrow> string \<Rightarrow> string" where
  "sanitizeLoop [] out = rev out"
| "sanitizeLoop (c # s) out =
     (if dns_byte c then sanitizeLoop s (c # out)
      else if CHR ''A'' \<le> c \<and> c \<le> CHR ''Z'' then sanitizeLoop s (lower_byte c # out)
      else if out \<noteq> [] \<and> hd out \<noteq> CHR ''-'' then sanitizeLoop s (CHR ''-'' # out)
      else sanitizeLoop s out)"

definition sanitizeDNS1123 :: "string \<Rightarrow> string" where
  "sanitizeDNS1123 s = TrimSet (sanitizeLoop s []) ''-.''"

definition DNS1123SubdomainMaxLength :: nat where
  "DNS1123SubdomainMaxLength = 253"

definition TrackerName :: "(string \<Rightarrow> string) \<Rightarrow> TargetKey \<Rightarrow> string" where
  "TrackerName sha key =
     (let group = (case IndexByte (kyAPIVersion key) (CHR ''/'') of None \<Rightarrow> '''' | Some i \<Rightarrow> take i (kyAPIVersion key));
          readable = sanitizeDNS1123
            (ToLower (kyKind key) @ (if group \<noteq> '''' then ''.'' @ group else '''') @
             (if kyNamespace key \<noteq> '''' then ''-'' @ kyNamespace key else '''') @ ''-'' @ kyName key);
          suffix = take 10 (sha (TargetKeyString key));
          maxReadable = DNS1123SubdomainMaxLength - length suffix - 1;
          cut = (if length readable > maxReadable then take maxReadable readable else readable);
          trimmed = TrimSet cut ''-.''
      in (if trimmed = '''' then ''target'' else trimmed) @ ''-'' @ suffix)"

definition TrackerNamespace :: "string \<Rightarrow> TargetKey \<Rightarrow> string" where
  "TrackerNamespace trackerKind key = (if trackerKind = KindSharedResource then kyNamespace key else '''')"

section \<open>What containment promises\<close>

lemma empty_concat: "xs @ ys = [] \<longleftrightarrow> xs = [] \<and> ys = []"
  by simp

text \<open>
  A ResourcePatch never leaves its namespace. The key its target resolves to has the contributor's
  own namespace whatever the spec says; and a spec that validates names no other target namespace, no
  namespace selector, no service account of another namespace, and no kind known to be cluster-scoped.
\<close>

theorem resource_patch_contained:
  assumes "\<not> coCluster c"
  shows "kyNamespace (TargetKeyFor c) = coNamespace c \<and>
    (Validate c lookup = [] \<longrightarrow>
       trNamespace (coTarget c) \<in> {'''', coNamespace c} \<and> trNamespaceSelector (coTarget c) = None \<and>
       pred_option (\<lambda>sa. saNamespace sa \<in> {'''', coNamespace c}) (rsServiceAccountRef (coSpec c)) \<and>
       pred_option (\<lambda>f. f (trAPIVersion (coTarget c)) (trKind (coTarget c)) \<noteq> Inr False) lookup)"
  using assms
  by (auto simp: TargetKeyFor_def ResolveTargetNamespace_def Validate_def validateNamespaced_def Let_def
      split: if_splits option.splits sum.splits)

text \<open>A sample: a contributor that tries to point at another namespace.\<close>

definition sample_patch :: "bool \<Rightarrow> string \<Rightarrow> Contributor" where
  "sample_patch cluster ns =
     \<lparr>coCluster = cluster, coMeta = no_meta\<lparr>omName := ''p'', omNamespace := ''team-a'', omUID := ''u1''\<rparr>,
      coSpec = \<lparr>rsTarget = \<lparr>trMode = TargetModeSingle, trAPIVersion = ''v1'', trKind = ''ConfigMap'', trName = ''cm'',
          trNamespace = ns, trSelector = None, trNamespaceSelector = None, trMaxTargets = 0\<rparr>,
        rsLifecycle = \<lparr>lcOnMissing = OnMissingWait, lcOnRelease = OnReleaseRevert, lcAdoptExisting = None,
          lcBaseReconcile = BaseReconcileCreateOnly\<rparr>,
        rsApply = \<lparr>asMode = ApplyModeClientSideApply, asFieldManager = '''', asConflictPolicy = ConflictPolicyFail\<rparr>,
        rsPriority = 100, rsServiceAccountRef = None, rsBase = None,
        rsPatch = \<lparr>psType = PatchTypeMerge, psValue = Some (RawJson (JObj [(''data'', JObj [(''a'', JStr ''1'')])])),
          psOps = None, psMergeKeys = []\<rparr>\<rparr>,
      coStatus = \<lparr>psConditions = [], psObservedTargets = [], psSharedResourceRefs = [], psAppliedGeneration = 0,
        psAuthorizedAs = '''', psLastAuthorizedTime = None\<rparr>\<rparr>"

theorem resource_patch_contained_witness:
  "kyNamespace (TargetKeyFor (sample_patch False ''kube-system'')) = ''team-a'' \<and>
   Validate (sample_patch False ''kube-system'') None \<noteq> [] \<and> Validate (sample_patch False '''') None = []"
proof -
  have c: "\<not> coCluster (sample_patch False ''kube-system'')" "coNamespace (sample_patch False ''kube-system'') = ''team-a''"
    "trNamespace (coTarget (sample_patch False ''kube-system'')) = ''kube-system''"
    by (simp_all add: sample_patch_def)
  have "Validate (sample_patch False '''') None = []" by code_simp
  then show ?thesis using resource_patch_contained[OF c(1), of None] c(2,3) by auto
qed

text \<open>
  What validates can be honoured: deletion on release is asked for only by a contributor that may
  create the target from a base, never by one that selects its targets; the mode and the patch type
  are known ones, with the value or the operations that the type needs; and the target is not one of
  the operator's own kinds, so the operator never reconciles itself.
\<close>

theorem validate_sound:
  assumes "Validate c lookup = []"
  shows "(lcOnRelease (rsLifecycle (coSpec c)) = OnReleaseDelete \<longrightarrow>
       lcOnMissing (rsLifecycle (coSpec c)) = OnMissingCreate \<and> rsBase (coSpec c) \<noteq> None \<and>
       targetMode (coSpec c) = TargetModeSingle) \<and>
    (targetMode (coSpec c) = TargetModeSingle \<longrightarrow> trName (coTarget c) \<noteq> '''') \<and>
    targetMode (coSpec c) \<in> {TargetModeSingle, TargetModeSelector} \<and>
    (psType (rsPatch (coSpec c)) = PatchTypeJSON6902 \<longrightarrow> \<not> rawUnset (psOps (rsPatch (coSpec c)))) \<and>
    (psType (rsPatch (coSpec c)) \<noteq> PatchTypeJSON6902 \<longrightarrow> \<not> rawUnset (psValue (rsPatch (coSpec c)))) \<and>
    \<not> isOwnKind (trAPIVersion (coTarget c)) (trKind (coTarget c))"
proof -
  have parts: "validateMode (coSpec c) = []" "validateLifecycle (coSpec c) = []" "validatePatch (coSpec c) = []"
    "\<not> isOwnKind (trAPIVersion (coTarget c)) (trKind (coTarget c))"
    using assms by (auto simp: Validate_def Let_def split: if_splits)
  have "targetMode (coSpec c) \<in> {TargetModeSingle, TargetModeSelector}"
    "targetMode (coSpec c) = TargetModeSingle \<longrightarrow> trName (coTarget c) \<noteq> ''''"
    using parts(1) by (cases "targetMode (coSpec c)"; auto simp: validateMode_def Let_def split: if_splits)+
  moreover have "lcOnRelease (rsLifecycle (coSpec c)) = OnReleaseDelete \<longrightarrow>
       lcOnMissing (rsLifecycle (coSpec c)) = OnMissingCreate \<and> rsBase (coSpec c) \<noteq> None \<and>
       targetMode (coSpec c) \<noteq> TargetModeSelector"
    using parts(2) by (auto simp: validateLifecycle_def Let_def split: if_splits)
  moreover have "psType (rsPatch (coSpec c)) = PatchTypeJSON6902 \<longrightarrow> \<not> rawUnset (psOps (rsPatch (coSpec c)))"
    "psType (rsPatch (coSpec c)) \<noteq> PatchTypeJSON6902 \<longrightarrow> \<not> rawUnset (psValue (rsPatch (coSpec c)))"
    using parts(3) by (cases "psType (rsPatch (coSpec c))"; auto simp: validatePatch_def Let_def split: if_splits)+
  ultimately show ?thesis using parts(4) by blast
qed

text \<open>The same for a plain merge patch.\<close>

theorem validate_sound_witness:
  "Validate (sample_patch False '''') None = [] \<and> \<not> rawUnset (psValue (rsPatch (coSpec (sample_patch False ''''))))"
proof -
  have v: "Validate (sample_patch False '''') None = []" by code_simp
  have "psType (rsPatch (coSpec (sample_patch False ''''))) \<noteq> PatchTypeJSON6902" by (simp add: sample_patch_def)
  with v validate_sound[OF v] show ?thesis by blast
qed

section \<open>What tracker names promise\<close>

lemma lower_byte_dns: "CHR ''A'' \<le> c \<Longrightarrow> c \<le> CHR ''Z'' \<Longrightarrow> dns_byte (lower_byte c)"
proof -
  assume c: "CHR ''A'' \<le> c" "c \<le> CHR ''Z''"
  then have n: "65 \<le> (of_char c :: nat)" "(of_char c :: nat) \<le> 90" by (simp_all add: less_eq_char_def)
  have "of_char (char_of (of_char c + 32 :: nat)) = (of_char c + 32 :: nat)"
    using n by (simp add: of_char_of)
  with c n show ?thesis by (simp add: lower_byte_def dns_byte_def less_eq_char_def)
qed

lemma sanitizeLoop_dns: "list_all dns_byte out \<Longrightarrow> list_all dns_byte (sanitizeLoop s out)"
proof (induction s out rule: sanitizeLoop.induct)
  case (2 c s out)
  have "dns_byte (CHR ''-'')" by code_simp
  then show ?case using 2 lower_byte_dns[of c] by simp
qed simp

lemma TrimSet_subset: "set (TrimSet s cs) \<subseteq> set s"
proof
  fix x assume "x \<in> set (TrimSet s cs)"
  then have "x \<in> set (dropWhile (\<lambda>c. c \<in> set cs) (rev (dropWhile (\<lambda>c. c \<in> set cs) s)))"
    by (simp add: TrimSet_def)
  then have "x \<in> set (rev (dropWhile (\<lambda>c. c \<in> set cs) s))" by (rule set_dropWhileD)
  then have "x \<in> set (dropWhile (\<lambda>c. c \<in> set cs) s)" by simp
  then show "x \<in> set s" by (rule set_dropWhileD)
qed

lemma TrimSet_ends:
  assumes "TrimSet s cs \<noteq> ''''"
  shows "hd (TrimSet s cs) \<notin> set cs \<and> last (TrimSet s cs) \<notin> set cs"
proof -
  let ?P = "\<lambda>c. c \<in> set cs" and ?t = "dropWhile (\<lambda>c. c \<in> set cs) s"
  have ne: "dropWhile ?P (rev ?t) \<noteq> []" using assms by (simp add: TrimSet_def)
  have "?t \<noteq> []"
  proof
    assume "?t = []"
    then have "dropWhile ?P (rev ?t) = []" by (simp only: rev.simps dropWhile.simps)
    with ne show False by contradiction
  qed
  then have hd: "\<not> ?P (hd ?t)" by (rule hd_dropWhile)
  obtain pre where pre: "rev ?t = pre @ dropWhile ?P (rev ?t)" using takeWhile_dropWhile_id by metis
  then have "?t = rev (dropWhile ?P (rev ?t)) @ rev pre" by (metis rev_append rev_rev_ident)
  then have "hd ?t = hd (rev (dropWhile ?P (rev ?t)))" using ne by (metis hd_append rev_is_Nil_conv)
  moreover have "last (rev (dropWhile ?P (rev ?t))) = hd (dropWhile ?P (rev ?t))"
    using ne by (simp add: last_rev)
  moreover have "\<not> ?P (hd (dropWhile ?P (rev ?t)))" using ne by (rule hd_dropWhile)
  ultimately show ?thesis using hd by (simp add: TrimSet_def)
qed

lemma TrimSet_length: "length (TrimSet s cs) \<le> length s"
proof -
  have "length (TrimSet s cs) \<le> length (dropWhile (\<lambda>c. c \<in> set cs) s)"
    using length_dropWhile_le[of _ "rev (dropWhile (\<lambda>c. c \<in> set cs) s)"] by (simp add: TrimSet_def)
  then show ?thesis using length_dropWhile_le le_trans by blast
qed

lemma TrackerName_shape:
  obtains readable where "TrackerName sha key = readable @ ''-'' @ take 10 (sha (TargetKeyString key))"
    "readable \<noteq> ''''" "list_all dns_byte readable" "hd readable \<notin> set ''-.''"
    "length (take 10 (sha (TargetKeyString key))) = 10 \<Longrightarrow> length readable \<le> 242"
proof -
  define raw where "raw = sanitizeDNS1123
      (ToLower (kyKind key) @ (let group = (case IndexByte (kyAPIVersion key) (CHR ''/'') of None \<Rightarrow> '''' | Some i \<Rightarrow> take i (kyAPIVersion key))
        in if group \<noteq> '''' then ''.'' @ group else '''') @
             (if kyNamespace key \<noteq> '''' then ''-'' @ kyNamespace key else '''') @ ''-'' @ kyName key)"
  define n where "n = DNS1123SubdomainMaxLength - length (take 10 (sha (TargetKeyString key))) - 1"
  define t where "t = TrimSet (if length raw > n then take n raw else raw) ''-.''"
  have name: "TrackerName sha key = (if t = '''' then ''target'' else t) @ ''-'' @ take 10 (sha (TargetKeyString key))"
    by (simp add: TrackerName_def raw_def n_def t_def Let_def)
  have "list_all dns_byte raw"
    using sanitizeLoop_dns[of "[]"] TrimSet_subset by (fastforce simp: raw_def sanitizeDNS1123_def list_all_iff)
  then have "list_all dns_byte t"
    using TrimSet_subset[of "if length raw > n then take n raw else raw" "''-.''"]
    by (auto simp: t_def list_all_iff dest!: set_take_subset[THEN subsetD] split: if_splits)
  moreover have "list_all dns_byte ''target''" by code_simp
  moreover have "hd ''target'' \<notin> set ''-.''" by simp
  moreover have "t \<noteq> '''' \<Longrightarrow> hd t \<notin> set ''-.''" using TrimSet_ends unfolding t_def by blast
  moreover have "length t \<le> n" using TrimSet_length[of "if length raw > n then take n raw else raw" "''-.''"]
    by (simp add: t_def split: if_splits)
  ultimately show thesis
    using name by (intro that[of "if t = '''' then ''target'' else t"]) (auto simp: n_def DNS1123SubdomainMaxLength_def)
qed

definition hex_byte :: "char \<Rightarrow> bool" where
  "hex_byte c \<longleftrightarrow> CHR ''0'' \<le> c \<and> c \<le> CHR ''9'' \<or> CHR ''a'' \<le> c \<and> c \<le> CHR ''f''"

text \<open>
  A tracker's name is a legal object name: at most 253 bytes of the DNS alphabet, starting with a
  letter or a digit and ending with the ten digits of the hash; and trackers of targets whose hashes
  differ there have different names, however the readable part was cut.
\<close>

theorem tracker_name_legal:
  assumes "\<And>s. length (sha s) = 64 \<and> list_all hex_byte (sha s)"
  shows "length (TrackerName sha key) \<le> 253 \<and> list_all dns_byte (TrackerName sha key) \<and>
    hd (TrackerName sha key) \<notin> set ''-.'' \<and>
    (TrackerName sha key = TrackerName sha key' \<longrightarrow>
       take 10 (sha (TargetKeyString key)) = take 10 (sha (TargetKeyString key')))"
proof -
  obtain r where r: "TrackerName sha key = r @ ''-'' @ take 10 (sha (TargetKeyString key))"
    "r \<noteq> ''''" "list_all dns_byte r" "hd r \<notin> set ''-.''"
    "length (take 10 (sha (TargetKeyString key))) = 10 \<Longrightarrow> length r \<le> 242"
    using TrackerName_shape[of sha key] by metis
  obtain r' where r': "TrackerName sha key' = r' @ ''-'' @ take 10 (sha (TargetKeyString key'))"
    using TrackerName_shape[of sha key'] by metis
  have len: "length (take 10 (sha s)) = 10" for s using assms[of s] by simp
  have hex: "list_all dns_byte (take 10 (sha s))" for s
    using assms[of s] by (auto simp: list_all_iff hex_byte_def dns_byte_def less_eq_char_def dest!: in_set_takeD)
  have "dns_byte (CHR ''-'')" by code_simp
  then have "list_all dns_byte (TrackerName sha key)" using r(3) hex unfolding r(1) by simp
  moreover have "length (TrackerName sha key) \<le> 253" using r(5) len unfolding r(1) by simp
  moreover have "hd (TrackerName sha key) \<notin> set ''-.''" using r(2,4) unfolding r(1) by (simp add: hd_append)
  moreover have "take 10 (sha (TargetKeyString key)) = take 10 (sha (TargetKeyString key'))"
    if "TrackerName sha key = TrackerName sha key'"
  proof -
    have "(r @ ''-'') @ take 10 (sha (TargetKeyString key)) = (r' @ ''-'') @ take 10 (sha (TargetKeyString key'))"
      using that r(1) r' by simp
    moreover have "length (sha s) = 64" for s using assms by blast
    ultimately show ?thesis by (subst (asm) append_eq_append_conv) simp_all
  qed
  ultimately show ?thesis by blast
qed

text \<open>The same with a constant digest.\<close>

theorem tracker_name_legal_witness:
  "let sha = (\<lambda>s. replicate 64 (CHR ''0''));
       key = \<lparr>kyAPIVersion = ''apps/v1'', kyKind = ''Deployment'', kyNamespace = ''prod'', kyName = ''web:1''\<rparr>
   in TrackerName sha key = ''deployment.apps-prod-web-1-0000000000'' \<and> list_all dns_byte (TrackerName sha key)"
proof -
  let ?sha = "\<lambda>s :: string. replicate 64 (CHR ''0'')"
  let ?key = "\<lparr>kyAPIVersion = ''apps/v1'', kyKind = ''Deployment'', kyNamespace = ''prod'', kyName = ''web:1''\<rparr>"
  have "TrackerName ?sha ?key = ''deployment.apps-prod-web-1-0000000000''" by code_simp
  moreover have "list_all dns_byte (TrackerName ?sha ?key)"
    using tracker_name_legal[of ?sha ?key] by (simp add: list_all_iff hex_byte_def)
  ultimately show ?thesis unfolding Let_def by blast
qed

lemma split_last_slash:
  assumes "a @ ''/'' @ x = b @ ''/'' @ y" and "CHR ''/'' \<notin> set x" and "CHR ''/'' \<notin> set y"
  shows "a = b \<and> x = (y :: string)"
proof -
  have eq: "rev x @ CHR ''/'' # rev a = rev y @ CHR ''/'' # rev b"
    using arg_cong[OF assms(1), of rev] by simp
  have "CHR ''/'' \<notin> set (rev x)" "CHR ''/'' \<notin> set (rev y)" using assms(2,3) by simp_all
  then have "takeWhile (\<lambda>c. c \<noteq> CHR ''/'') (rev x @ CHR ''/'' # rev a) = rev x"
    "takeWhile (\<lambda>c. c \<noteq> CHR ''/'') (rev y @ CHR ''/'' # rev b) = rev y"
    by (subst takeWhile_append2; auto)+
  with eq have "rev x = rev y" by simp
  with eq show ?thesis by simp
qed

text \<open>
  The index key of a target is faithful: among targets of the same scope whose kind, namespace and
  name contain no slash, equal texts mean equal targets, so the index never mixes contributors of
  different objects.
\<close>

theorem target_key_string_inj:
  assumes "TargetKeyString k = TargetKeyString k'" and "IsClusterScopedTarget k = IsClusterScopedTarget k'"
    and "CHR ''/'' \<notin> set (kyKind k @ kyNamespace k @ kyName k @ kyKind k' @ kyNamespace k' @ kyName k')"
  shows "k = k'"
proof -
  have "kyAPIVersion k = kyAPIVersion k' \<and> kyKind k = kyKind k' \<and> kyNamespace k = kyNamespace k' \<and> kyName k = kyName k'"
  proof (cases "kyNamespace k = ''''")
    case True
    then have eq: "(kyAPIVersion k @ ''/'' @ kyKind k) @ ''/'' @ kyName k = (kyAPIVersion k' @ ''/'' @ kyKind k') @ ''/'' @ kyName k'"
      "kyNamespace k' = ''''"
      using assms(1,2) by (auto simp: TargetKeyString_def IsClusterScopedTarget_def split: if_splits)
    then show ?thesis using split_last_slash[OF eq(1)] split_last_slash[of "kyAPIVersion k" "kyKind k"] assms(3) True
      by auto
  next
    case False
    then have eq: "(kyAPIVersion k @ ''/'' @ kyKind k @ ''/'' @ kyNamespace k) @ ''/'' @ kyName k
        = (kyAPIVersion k' @ ''/'' @ kyKind k' @ ''/'' @ kyNamespace k') @ ''/'' @ kyName k'"
      using assms(1,2) by (auto simp: TargetKeyString_def IsClusterScopedTarget_def split: if_splits)
    then have eq2: "(kyAPIVersion k @ ''/'' @ kyKind k) @ ''/'' @ kyNamespace k
        = (kyAPIVersion k' @ ''/'' @ kyKind k') @ ''/'' @ kyNamespace k'" "kyName k = kyName k'"
      using split_last_slash[OF eq] assms(3) by auto
    then show ?thesis using split_last_slash[OF eq2(1)] split_last_slash[of "kyAPIVersion k" "kyKind k"] assms(3) by auto
  qed
  then show ?thesis by simp
qed

text \<open>The same for two namespaced targets.\<close>

theorem target_key_string_inj_witness:
  "let k = \<lparr>kyAPIVersion = ''apps/v1'', kyKind = ''Deployment'', kyNamespace = ''a'', kyName = ''b''\<rparr>;
       k' = TargetKeyFor (sample_patch False '''')
   in k \<noteq> k' \<and> TargetKeyString k \<noteq> TargetKeyString k'"
proof -
  let ?k = "\<lparr>kyAPIVersion = ''apps/v1'', kyKind = ''Deployment'', kyNamespace = ''a'', kyName = ''b''\<rparr>"
  let ?k' = "TargetKeyFor (sample_patch False '''')"
  have "?k \<noteq> ?k'" by code_simp
  moreover have "IsClusterScopedTarget ?k = IsClusterScopedTarget ?k'"
    "CHR ''/'' \<notin> set (kyKind ?k @ kyNamespace ?k @ kyName ?k @ kyKind ?k' @ kyNamespace ?k' @ kyName ?k')" by code_simp+
  ultimately show ?thesis using target_key_string_inj[of ?k ?k'] unfolding Let_def by blast
qed

end
