(* ===== verification/Kube.thy ===== *)
theory Kube
  imports ServerSide Scope "HOL-Library.Product_Lexorder" "HOL-Library.Multiset"
begin

text \<open>
  What the controllers share: the client for the operator's own kinds, impersonation
  (\<^verbatim>\<open>internal/impersonate/impersonate.go\<close>), the helpers of \<^verbatim>\<open>internal/controller/helpers.go\<close>, the index
  of \<^verbatim>\<open>internal/controller/index.go\<close>, and \<^verbatim>\<open>retry.RetryOnConflict\<close>.
\<close>

section \<open>The client\<close>

text \<open>
  The calls on the operator's own kinds. Trackers are read by kind (cluster-scoped or not), namespace
  and name; contributors are listed by kind, optionally by index value and by namespace; an update
  returns the object as the server stored it.
\<close>

record 'w KubeClient = "'w Client" +
  kcGetTracker :: "bool \<Rightarrow> string \<Rightarrow> string \<Rightarrow> ('w, Tracker) io"
  kcCreateTracker :: "Tracker \<Rightarrow> ('w, Tracker) io"
  kcUpdateTracker :: "Tracker \<Rightarrow> ('w, Tracker) io"
  kcUpdateTrackerStatus :: "Tracker \<Rightarrow> ('w, Tracker) io"
  kcDeleteTracker :: "Tracker \<Rightarrow> ('w, unit) io"
  kcGetPatch :: "bool \<Rightarrow> string \<Rightarrow> string \<Rightarrow> ('w, Contributor) io"
  kcListPatches :: "bool \<Rightarrow> string option \<Rightarrow> string option \<Rightarrow> ('w, Contributor list) io"
  kcUpdatePatch :: "Contributor \<Rightarrow> ('w, Contributor) io"
  kcUpdatePatchStatus :: "Contributor \<Rightarrow> ('w, Contributor) io"

section \<open>Control flow\<close>

text \<open>A \<^verbatim>\<open>ctrl.Result\<close>; the delay is in milliseconds.\<close>

record CtrlResult =
  crRequeue :: bool
  crRequeueAfter :: int

definition done_result :: CtrlResult where
  "done_result = \<lparr>crRequeue = False, crRequeueAfter = 0\<rparr>"

type_synonym 'w reconcile = "('w, CtrlResult) io"

text \<open>
  \<^verbatim>\<open>retry.RetryOnConflict\<close> with \<^verbatim>\<open>retry.DefaultBackoff\<close>: the body runs up to four times while it fails
  with a conflict. The body's own variables are the state \<open>'s\<close> it hands on.
\<close>

fun retryOnConflict :: "nat \<Rightarrow> ('s \<Rightarrow> ('w, goerror option \<times> 's) state) \<Rightarrow> 's \<Rightarrow> ('w, goerror option \<times> 's) state" where
  "retryOnConflict 0 f s = f s"
| "retryOnConflict (Suc n) f s =
     do {
       r \<leftarrow> f s;
       case fst r of
         None \<Rightarrow> State_Monad.return r
       | Some e \<Rightarrow> if IsConflict e then retryOnConflict n f (snd r) else State_Monad.return r
     }"

definition DefaultBackoff :: nat where
  "DefaultBackoff = 3"

text \<open>\<^verbatim>\<open>controllerutil\<close>: the finalizer list of an object.\<close>

definition ContainsFinalizer :: "ObjectMeta \<Rightarrow> string \<Rightarrow> bool" where
  "ContainsFinalizer m f \<longleftrightarrow> f \<in> set (omFinalizers m)"

definition AddFinalizer :: "string \<Rightarrow> ObjectMeta \<Rightarrow> ObjectMeta" where
  "AddFinalizer f m = (if f \<in> set (omFinalizers m) then m else m\<lparr>omFinalizers := omFinalizers m @ [f]\<rparr>)"

definition RemoveFinalizer :: "string \<Rightarrow> ObjectMeta \<Rightarrow> ObjectMeta" where
  "RemoveFinalizer f m = m\<lparr>omFinalizers := filter (\<lambda>g. g \<noteq> f) (omFinalizers m)\<rparr>"

section \<open>Impersonation\<close>

definition ServiceAccountUsername :: "string \<Rightarrow> string \<Rightarrow> string" where
  "ServiceAccountUsername namespace name = ''system:serviceaccount:'' @ namespace @ '':'' @ name"

text \<open>
  The client a contributor's writes run as: the operator's own without a service account, else the one
  built for the account's user name. \<open>newFor\<close> is \<^verbatim>\<open>client.New\<close> with the impersonating configuration; the
  factory's cache returns what it built before for the same user.
\<close>

definition ImpersonationFor ::
  "'c \<Rightarrow> (string \<Rightarrow> (goerror, 'c) result) \<Rightarrow> Contributor \<Rightarrow> (goerror, 'c \<times> string) result" where
  "ImpersonationFor dflt newFor c =
     (case rsServiceAccountRef (coSpec c) of
        None \<Rightarrow> Inr (dflt, '''')
      | Some ref \<Rightarrow>
          if saName ref = '''' then Inr (dflt, '''')
          else
            (let namespace = (if \<not> coCluster c then coNamespace c else saNamespace ref)
             in if namespace = '''' then
                  Inl (Errorf ''serviceAccountRef.namespace is required on a cluster-scoped contributor'' [])
                else
                  (let username = ServiceAccountUsername namespace (saName ref)
                   in case newFor username of
                        Inl e \<Rightarrow> Inl (Errorw ''building an impersonating client for %s: %w'' [username] e)
                      | Inr cl \<Rightarrow> Inr (cl, username))))"

section \<open>Helpers\<close>

definition newTracker :: "string \<Rightarrow> string \<Rightarrow> string \<Rightarrow> TargetKey \<Rightarrow> (goerror, Tracker) result" where
  "newTracker kind name namespace key =
     (let spec = \<lparr>srTargetRef = \<lparr>ttAPIVersion = kyAPIVersion key, ttKind = kyKind key, ttName = kyName key,
                    ttNamespace = kyNamespace key\<rparr>\<rparr>
      in if kind = KindSharedResource then
           Inr \<lparr>tkCluster = False, tkMeta = no_meta\<lparr>omName := name, omNamespace := namespace\<rparr>, tkSpec = spec,
                tkStatus = no_status\<rparr>
         else if kind = KindClusterSharedResource then
           Inr \<lparr>tkCluster = True, tkMeta = no_meta\<lparr>omName := name\<rparr>, tkSpec = spec, tkStatus = no_status\<rparr>
         else Inl (Errorf ''unknown tracker kind %q'' [kind]))"

definition getTracker :: "('w, 'z) KubeClient_scheme \<Rightarrow> TrackerRef \<Rightarrow> ('w, Tracker) io" where
  "getTracker cl ref =
     (if tkKind ref = KindSharedResource then kcGetTracker cl False (tkNamespace ref) (tkName ref)
      else if tkKind ref = KindClusterSharedResource then kcGetTracker cl True (tkNamespace ref) (tkName ref)
      else State_Monad.return (Inl (Errorf ''unknown tracker kind %q'' [tkKind ref])))"

definition condition :: "string \<Rightarrow> ConditionStatus \<Rightarrow> string \<Rightarrow> string \<Rightarrow> Condition" where
  "condition t s reason msg =
     \<lparr>cdType = t, cdStatus = s, cdReason = reason, cdMessage = msg, cdLastTransitionTime = 0\<rparr>"

definition setCond :: "Time \<Rightarrow> string \<Rightarrow> ConditionStatus \<Rightarrow> string \<Rightarrow> string \<Rightarrow> ResourcePatchStatus \<Rightarrow> ResourcePatchStatus" where
  "setCond now t s reason msg st = st\<lparr>psConditions := SetCondition now (psConditions st) (condition t s reason msg)\<rparr>"

definition setTrackerCond :: "Time \<Rightarrow> string \<Rightarrow> ConditionStatus \<Rightarrow> string \<Rightarrow> string \<Rightarrow> SharedResourceStatus \<Rightarrow> SharedResourceStatus" where
  "setTrackerCond now t s reason msg st = st\<lparr>ssConditions := SetCondition now (ssConditions st) (condition t s reason msg)\<rparr>"

definition boolCondition :: "bool \<Rightarrow> ConditionStatus" where
  "boolCondition b = (if b then ConditionTrue else ConditionFalse)"

text \<open>The event filters, on the old and the new object of an update.\<close>

definition generationOrFinalizerChanged :: "ObjectMeta \<Rightarrow> ObjectMeta \<Rightarrow> bool" where
  "generationOrFinalizerChanged a b \<longleftrightarrow>
     omGeneration a \<noteq> omGeneration b \<or>
     (omDeletionTimestamp a = None) \<noteq> (omDeletionTimestamp b = None) \<or>
     length (omFinalizers a) \<noteq> length (omFinalizers b)"

definition trackerChanged :: "Tracker \<Rightarrow> Tracker \<Rightarrow> bool" where
  "trackerChanged a b \<longleftrightarrow>
     (let s = tkStatus a; t = tkStatus b
      in if omGeneration (tkMeta a) \<noteq> omGeneration (tkMeta b) then True
         else if (omDeletionTimestamp (tkMeta a) = None) \<noteq> (omDeletionTimestamp (tkMeta b) = None) then True
         else if length (omFinalizers (tkMeta a)) \<noteq> length (omFinalizers (tkMeta b)) then True
         else if IsFenced s \<noteq> IsFenced t then True
         else if (case (ssPromotedTo s, ssPromotedTo t) of
                    (Some p, Some q) \<Rightarrow> prAdopted p \<noteq> prAdopted q | _ \<Rightarrow> False) then True
         else ssContributorCount s \<noteq> ssContributorCount t)"

definition sanitizeControllerName :: "string \<Rightarrow> string" where
  "sanitizeControllerName s =
     ToLower (ReplaceAll (ReplaceAll (TrimPrefix (TrimPrefix s ''contributor-*'') ''tracker-*'') ''*'' '''') ''.'' ''-'')"

text \<open>The index value of a contributor, if its target is known from its spec.\<close>

definition targetKeysFor :: "Contributor \<Rightarrow> string list" where
  "targetKeysFor c =
     (if targetMode (coSpec c) \<noteq> TargetModeSingle \<or> trName (coTarget c) = '''' then []
      else [TargetKeyString (TargetKeyFor c)])"

section \<open>The order of contributors\<close>

definition timeBefore :: "Time option \<Rightarrow> Time option \<Rightarrow> bool option" where
  "timeBefore a b =
     (case (a, b) of
        (Some x, Some y) \<Rightarrow> (if x \<noteq> y then Some (x < y) else None)
      | (Some _, None) \<Rightarrow> Some True
      | (None, Some _) \<Rightarrow> Some False
      | (None, None) \<Rightarrow> None)"

definition contributorLess :: "ContributorStatus \<Rightarrow> ContributorStatus \<Rightarrow> bool" where
  "contributorLess a b \<longleftrightarrow>
     (if csPriority a \<noteq> csPriority b then csPriority a > csPriority b
      else (case timeBefore (csCreationTimestamp a) (csCreationTimestamp b) of
              Some r \<Rightarrow> r
            | None \<Rightarrow> crUID (csPatchRef a) < crUID (csPatchRef b)))"

text \<open>\<^verbatim>\<open>sort.SliceStable\<close> by a less function: an insertion sort that keeps equal elements in order.\<close>

fun insertStable :: "('a \<Rightarrow> 'a \<Rightarrow> bool) \<Rightarrow> 'a \<Rightarrow> 'a list \<Rightarrow> 'a list" where
  "insertStable lt x [] = [x]"
| "insertStable lt x (y # ys) = (if lt y x then y # insertStable lt x ys else x # y # ys)"

definition sliceStable :: "('a \<Rightarrow> 'a \<Rightarrow> bool) \<Rightarrow> 'a list \<Rightarrow> 'a list" where
  "sliceStable lt xs = foldr (insertStable lt) xs []"

definition sortContributors :: "ContributorStatus list \<Rightarrow> ContributorStatus list" where
  "sortContributors recs = sliceStable contributorLess recs"

section \<open>What the order promises\<close>

lemma sliceStable_key:
  assumes "\<And>a b. lt a b \<longleftrightarrow> f a < (f b :: 'b :: linorder)"
  shows "sliceStable lt xs = sort_key f xs"
proof -
  have "insertStable lt x ys = insort_key f x ys" for x ys
    by (induction ys) (auto simp: assms not_le)
  then have "insertStable lt = insort_key f" by (intro ext)
  then show ?thesis by (simp add: sliceStable_def sort_key_def)
qed

definition contributorKey :: "ContributorStatus \<Rightarrow> int \<times> (nat \<times> int) \<times> string" where
  "contributorKey c =
     (- csPriority c, (case csCreationTimestamp c of Some t \<Rightarrow> (0, t) | None \<Rightarrow> (1, 0)), crUID (csPatchRef c))"

lemma contributorLess_key: "contributorLess a b \<longleftrightarrow> contributorKey a < contributorKey b"
  by (auto simp: contributorLess_def contributorKey_def timeBefore_def less_prod_def' split: option.splits)

lemma sortContributors_key: "sortContributors recs = sort_key contributorKey recs"
  unfolding sortContributors_def by (rule sliceStable_key[OF contributorLess_key])

text \<open>
  The order of contributors is a function of the set of them: the sort keeps every record, puts
  higher priorities first, then older contributors, then smaller UIDs, and gives the same list for any
  order of arrival when the UIDs differ, so every replica applies in the same order.
\<close>

theorem sort_contributors_deterministic:
  assumes "mset recs = mset recs'" and "distinct (map (\<lambda>c. crUID (csPatchRef c)) recs)"
  shows "sortContributors recs = sortContributors recs' \<and> mset (sortContributors recs) = mset recs \<and>
    sorted_wrt (\<lambda>a b. \<not> contributorLess b a) (sortContributors recs)"
proof -
  have "inj_on contributorKey (set recs)"
    using assms(2) by (auto simp: inj_on_def distinct_map contributorKey_def)
  then have "sort_key contributorKey recs = sort_key contributorKey recs'"
    using assms(1) by (intro sort_key_inj_key_eq) simp_all
  moreover have "sorted_wrt (\<lambda>a b. \<not> contributorLess b a) (sort_key contributorKey recs)"
  proof -
    have "sorted (map contributorKey (sort_key contributorKey recs))" by simp
    then have "sorted_wrt (\<lambda>a b. contributorKey a \<le> contributorKey b) (sort_key contributorKey recs)"
      by (simp only: sorted_map)
    then show ?thesis by (simp add: contributorLess_key not_less)
  qed
  ultimately show ?thesis using assms(1) by (simp add: sortContributors_key)
qed

text \<open>A sample: two contributors of the same age.\<close>

definition sample_record :: "string \<Rightarrow> int \<Rightarrow> ContributorStatus" where
  "sample_record uid prio =
     \<lparr>csPatchRef = \<lparr>crKind = KindResourcePatch, crName = uid, crNamespace = ''ns'', crUID = uid\<rparr>,
      csObservedGeneration = 1, csPriority = prio, csFieldManager = '''', csState = ContributorStateOther '''',
      csLastAppliedHash = '''', csOwnedPaths = [], csPriorValues = None, csPriorValuesCaptured = False,
      csCreationTimestamp = Some 5\<rparr>"

theorem sort_contributors_deterministic_witness:
  "sortContributors [sample_record ''b'' 1, sample_record ''a'' 1, sample_record ''c'' 9]
     = [sample_record ''c'' 9, sample_record ''a'' 1, sample_record ''b'' 1] \<and>
   sortContributors [sample_record ''b'' 1, sample_record ''a'' 1, sample_record ''c'' 9]
     = sortContributors [sample_record ''c'' 9, sample_record ''a'' 1, sample_record ''b'' 1]"
proof -
  let ?xs = "[sample_record ''b'' 1, sample_record ''a'' 1, sample_record ''c'' 9]"
  let ?ys = "[sample_record ''c'' 9, sample_record ''a'' 1, sample_record ''b'' 1]"
  have "mset ?xs = mset ?ys" by simp
  moreover have "distinct (map (\<lambda>c. crUID (csPatchRef c)) ?xs)" by (simp add: sample_record_def)
  moreover have "sortContributors ?xs = ?ys"
    by (simp add: sortContributors_def sliceStable_def contributorLess_def timeBefore_def sample_record_def)
  ultimately show ?thesis using sort_contributors_deterministic by blast
qed

section \<open>What conditions promise\<close>

text \<open>
  A condition is upserted: afterwards the conditions have one entry of its type, which is the new
  one (with the old transition time if the status did not change, else the time given or now), and
  every other type is as before.
\<close>

theorem set_condition_upserts:
  "GetCondition (SetCondition now conds c) t =
     (if t \<noteq> cdType c then GetCondition conds t
      else Some (c\<lparr>cdLastTransitionTime :=
             (case GetCondition conds t of
                Some d \<Rightarrow> (if cdStatus d = cdStatus c then cdLastTransitionTime d
                           else if cdLastTransitionTime c = 0 then now else cdLastTransitionTime c)
              | None \<Rightarrow> (if cdLastTransitionTime c = 0 then now else cdLastTransitionTime c))\<rparr>)) \<and>
   distinct (map cdType (SetCondition now conds c)) = distinct (map cdType conds)"
proof (intro conjI)
  let ?c = "if cdLastTransitionTime c = 0 then c\<lparr>cdLastTransitionTime := now\<rparr> else c"
  have c: "cdType ?c = cdType c" "cdStatus ?c = cdStatus c" by simp_all
  have t: "?c = c\<lparr>cdLastTransitionTime := (if cdLastTransitionTime c = 0 then now else cdLastTransitionTime c)\<rparr>"
    "\<And>x. ?c\<lparr>cdLastTransitionTime := x\<rparr> = c\<lparr>cdLastTransitionTime := x\<rparr>" by simp_all
  show "GetCondition (SetCondition now conds c) t =
     (if t \<noteq> cdType c then GetCondition conds t
      else Some (c\<lparr>cdLastTransitionTime :=
             (case GetCondition conds t of
                Some d \<Rightarrow> (if cdStatus d = cdStatus c then cdLastTransitionTime d
                           else if cdLastTransitionTime c = 0 then now else cdLastTransitionTime c)
              | None \<Rightarrow> (if cdLastTransitionTime c = 0 then now else cdLastTransitionTime c))\<rparr>))"
    unfolding SetCondition_def GetCondition_upsert c t(2)
    by (cases "t = cdType c"; cases "GetCondition conds t")
      (auto simp only: t(1) option.case option.inject if_True if_False simp_thms split: if_split)
  show "distinct (map cdType (SetCondition now conds c)) = distinct (map cdType conds)"
    unfolding SetCondition_def upsertCondition_types c by simp
qed

section \<open>What impersonation promises\<close>

text \<open>
  A ResourcePatch never writes as a service account of another namespace: whatever namespace its
  spec names, the user impersonated is the account of that name in the contributor's own namespace,
  and without an account name it is the operator itself.
\<close>

theorem impersonation_contained:
  assumes "\<not> coCluster c" and "ImpersonationFor dflt newFor c = Inr (cl, user)"
  shows "(user = '''' \<and> cl = dflt) \<or>
    (\<exists>sa. rsServiceAccountRef (coSpec c) = Some sa \<and> coNamespace c \<noteq> '''' \<and>
       user = ServiceAccountUsername (coNamespace c) (saName sa) \<and> newFor user = Inr cl)"
  using assms by (auto simp: ImpersonationFor_def Let_def split: option.splits if_splits sum.splits)

text \<open>The same for a contributor that names another namespace.\<close>

theorem impersonation_contained_witness:
  "let c = (sample_patch False '''')\<lparr>coSpec := (coSpec (sample_patch False ''''))
        \<lparr>rsServiceAccountRef := Some \<lparr>saName = ''sa'', saNamespace = ''kube-system''\<rparr>\<rparr>\<rparr>
   in ImpersonationFor '''' Inr c = Inr (''system:serviceaccount:team-a:sa'', ''system:serviceaccount:team-a:sa'') \<and>
      ''system:serviceaccount:team-a:sa'' = ServiceAccountUsername (coNamespace c) ''sa''"
proof -
  let ?c = "(sample_patch False '''')\<lparr>coSpec := (coSpec (sample_patch False ''''))
        \<lparr>rsServiceAccountRef := Some \<lparr>saName = ''sa'', saNamespace = ''kube-system''\<rparr>\<rparr>\<rparr>"
  let ?u = "''system:serviceaccount:team-a:sa''"
  have i: "ImpersonationFor '''' Inr ?c = Inr (?u, ?u)" by code_simp
  have "\<not> coCluster ?c" "rsServiceAccountRef (coSpec ?c) = Some \<lparr>saName = ''sa'', saNamespace = ''kube-system''\<rparr>"
    by (simp_all add: sample_patch_def)
  moreover have "?u \<noteq> ''''" by simp
  ultimately obtain sa where "Some \<lparr>saName = ''sa'', saNamespace = ''kube-system''\<rparr> = Some sa"
    "?u = ServiceAccountUsername (coNamespace ?c) (saName sa)"
    using impersonation_contained[OF _ i] by (metis (no_types))
  then have "?u = ServiceAccountUsername (coNamespace ?c) ''sa''" by (metis ServiceAccountRef.select_convs(1) option.inject)
  with i show ?thesis unfolding Let_def by blast
qed

end
