(* ===== verification/Tracker.thy ===== *)
theory Tracker
  imports Kube
begin

text \<open>
  The tracker reconciler (\<^verbatim>\<open>internal/controller/tracker_controller.go\<close>), the only writer of a target:
  it lists the contributors, withdraws the departing ones, renders and applies the others in order,
  arbitrates conflicts, and keeps the records from which a later release restores the target.
\<close>

section \<open>Environment\<close>

text \<open>
  What the reconciler is built with: its client, the client of an impersonated user (absent without a
  factory), the content digest, the JSON Patch library, the clock reading of the pass, and the order in
  which Go's map iteration visits the contested paths.
\<close>

record 'w TrackerEnv =
  teClient :: "'w KubeClient"
  teNewFor :: "(string \<Rightarrow> (goerror, 'w KubeClient) result) option"
  teSha :: "string \<Rightarrow> string"
  teJsonpatch :: jsonpatch_lib
  teNow :: Time
  teIter :: "(string \<times> nat list) list \<Rightarrow> (string \<times> nat list) list"

record contributorRecord =
  rcObj :: Contributor
  rcStatus :: ContributorStatus

definition renderTarget :: "Tracker \<Rightarrow> Target" where
  "renderTarget t = (let r = srTargetRef (tkSpec t)
     in \<lparr>tgAPIVersion = ttAPIVersion r, tgKind = ttKind r, tgName = ttName r, tgNamespace = ttNamespace r\<rparr>)"

definition trackerTargetKey :: "Tracker \<Rightarrow> TargetKey" where
  "trackerTargetKey t = (let r = srTargetRef (tkSpec t)
     in \<lparr>kyAPIVersion = ttAPIVersion r, kyKind = ttKind r, kyNamespace = ttNamespace r, kyName = ttName r\<rparr>)"

abbreviation updStatus :: "(SharedResourceStatus \<Rightarrow> SharedResourceStatus) \<Rightarrow> Tracker \<Rightarrow> Tracker" where
  "updStatus f t \<equiv> t\<lparr>tkStatus := f (tkStatus t)\<rparr>"

section \<open>Listing contributors\<close>

definition recordFor :: "(string \<Rightarrow> string) \<Rightarrow> Contributor \<Rightarrow> SharedResourceStatus \<Rightarrow> ContributorStatus" where
  "recordFor sha c existing =
     (let ref = ContributorRefOf c;
          fresh = \<lparr>csPatchRef = ref, csObservedGeneration = omGeneration (coMeta c),
            csPriority = rsPriority (coSpec c), csFieldManager = '''', csState = ContributorStateOther '''',
            csLastAppliedHash = '''', csOwnedPaths = [], csPriorValues = None, csPriorValuesCaptured = False,
            csCreationTimestamp = Some (omCreationTimestamp (coMeta c))\<rparr>;
          rec = (case FindContributor existing ref of
                   None \<Rightarrow> fresh
                 | Some prev \<Rightarrow>
                     fresh\<lparr>csFieldManager := csFieldManager prev, csLastAppliedHash := csLastAppliedHash prev,
                       csOwnedPaths := csOwnedPaths prev, csPriorValues := csPriorValues prev,
                       csPriorValuesCaptured := csPriorValuesCaptured prev, csState := csState prev\<rparr>)
      in if csFieldManager rec = ''''
         then rec\<lparr>csFieldManager := FieldManagerFor sha (ContributorKind c) (coNamespace c) (coName c)\<rparr>
         else rec)"

definition recordOf :: "'w TrackerEnv \<Rightarrow> Tracker \<Rightarrow> Contributor \<Rightarrow> contributorRecord" where
  "recordOf env t c = \<lparr>rcObj = c, rcStatus = recordFor (teSha env) c (tkStatus t)\<rparr>"

definition selectorBound :: "Tracker \<Rightarrow> contributorRecord list \<Rightarrow> Contributor \<Rightarrow> bool" where
  "selectorBound t already c \<longleftrightarrow>
     RefString (ContributorRefOf c) \<notin> set (map (\<lambda>r. RefString (csPatchRef (rcStatus r))) already) \<and>
     trMode (coTarget c) = TargetModeSelector \<and>
     \<lparr>tkKind = TrackerKind t, tkName = omName (tkMeta t), tkNamespace = omNamespace (tkMeta t)\<rparr>
       \<in> set (psSharedResourceRefs (coStatus c))"

text \<open>Both kinds, cluster-scoped contributors only for a cluster tracker.\<close>

definition listBoth ::
  "'w TrackerEnv \<Rightarrow> Tracker \<Rightarrow> string option \<Rightarrow> (bool \<Rightarrow> goerror \<Rightarrow> goerror) \<Rightarrow> ('w, Contributor list) io" where
  "listBoth env t index wrap =
     do {
       r \<leftarrow> kcListPatches (teClient env) False index (if tkCluster t then None else Some (omNamespace (tkMeta t)));
       case r of
         Inl e \<Rightarrow> State_Monad.return (Inl (wrap False e))
       | Inr rps \<Rightarrow>
           if \<not> tkCluster t then State_Monad.return (Inr rps)
           else do {
             r' \<leftarrow> kcListPatches (teClient env) True index None;
             State_Monad.return (case r' of Inl e \<Rightarrow> Inl (wrap True e) | Inr crps \<Rightarrow> Inr (rps @ crps))
           }
     }"

definition byKey :: "contributorRecord list \<Rightarrow> string \<Rightarrow> Contributor option" where
  "byKey out s = map_of (map (\<lambda>r. (RefString (csPatchRef (rcStatus r)), rcObj r)) (rev out)) s"

definition sortRecords :: "contributorRecord list \<Rightarrow> contributorRecord list" where
  "sortRecords out =
     concat (map (\<lambda>rec. case byKey out (RefString (csPatchRef rec)) of
         None \<Rightarrow> [] | Some c \<Rightarrow> [\<lparr>rcObj = c, rcStatus = rec\<rparr>])
       (sortContributors (map rcStatus out)))"

definition listContributors :: "'w TrackerEnv \<Rightarrow> Tracker \<Rightarrow> ('w, contributorRecord list) io" where
  "listContributors env t =
     (let key = TargetKeyString (trackerTargetKey t)
      in do {
        r \<leftarrow> listBoth env t (Some key)
          (\<lambda>cluster. Errorw (if cluster then ''listing ClusterResourcePatches for %s: %w''
             else ''listing ResourcePatches for %s: %w'') [key]);
        case r of
          Inl e \<Rightarrow> State_Monad.return (Inl e)
        | Inr cs \<Rightarrow>
            (let out = map (recordOf env t) cs
             in do {
               r' \<leftarrow> listBoth env t None (\<lambda>cluster e. e);
               State_Monad.return
                 (case r' of
                    Inl e \<Rightarrow> Inl e
                  | Inr all \<Rightarrow> Inr (sortRecords (out @ map (recordOf env t) (filter (selectorBound t out) all))))
             })
      })"

definition splitReleasing :: "contributorRecord list \<Rightarrow> contributorRecord list \<times> contributorRecord list" where
  "splitReleasing rs =
     (filter (\<lambda>c. omDeletionTimestamp (coMeta (rcObj c)) \<noteq> None) rs,
      filter (\<lambda>c. omDeletionTimestamp (coMeta (rcObj c)) = None) rs)"

section \<open>Writing status\<close>

text \<open>
  \<open>mutate\<close> is applied to the tracker at hand and, after a conflict, to a fresh read, so that what another
  actor wrote in the meantime survives.
\<close>

definition patchStatusOnce ::
  "('w, 'z) KubeClient_scheme \<Rightarrow> (SharedResourceStatus \<Rightarrow> SharedResourceStatus) \<Rightarrow> Tracker \<Rightarrow> ('w, goerror option \<times> Tracker) state" where
  "patchStatusOnce cl mutate t =
     do {
       let t1 = updStatus mutate t;
       r \<leftarrow> kcUpdateTrackerStatus cl t1;
       case r of
         Inr t2 \<Rightarrow> State_Monad.return (None, t2)
       | Inl e \<Rightarrow>
           if \<not> IsConflict e then State_Monad.return (Some e, t1)
           else do {
             g \<leftarrow> kcGetTracker cl (tkCluster t1) (omNamespace (tkMeta t1)) (omName (tkMeta t1));
             case g of
               Inl e' \<Rightarrow> State_Monad.return (Some e', t1)
             | Inr fresh \<Rightarrow>
                 do {
                   u \<leftarrow> kcUpdateTrackerStatus cl (updStatus mutate fresh);
                   State_Monad.return
                     (case u of
                        Inl e' \<Rightarrow> (Some e', t1)
                      | Inr fresh' \<Rightarrow>
                          (None, t1\<lparr>tkStatus := tkStatus fresh',
                             tkMeta := (tkMeta t1)\<lparr>omResourceVersion := omResourceVersion (tkMeta fresh')\<rparr>\<rparr>))
                 }
           }
     }"

definition ignoreNotFound :: "goerror option \<times> 'a \<Rightarrow> goerror option \<times> 'a" where
  "ignoreNotFound r = (Option.bind (fst r) IgnoreNotFound, snd r)"

definition patchStatus ::
  "('w, 'z) KubeClient_scheme \<Rightarrow> Tracker \<Rightarrow> (SharedResourceStatus \<Rightarrow> SharedResourceStatus) \<Rightarrow> ('w, goerror option \<times> Tracker) state" where
  "patchStatus cl t mutate =
     do {
       r \<leftarrow> retryOnConflict DefaultBackoff (patchStatusOnce cl mutate) t;
       State_Monad.return (ignoreNotFound r)
     }"

definition carryStatus ::
  "ContributorStatus list option \<Rightarrow> ConflictStatus list \<Rightarrow> SharedResourceStatus \<Rightarrow> SharedResourceStatus \<Rightarrow> SharedResourceStatus" where
  "carryStatus records conflicts computed st =
     (let st1 = (case records of None \<Rightarrow> st | Some rs \<Rightarrow> st\<lparr>ssContributors := rs\<rparr>);
          st2 = st1\<lparr>ssContributorCount := int (length (ssContributors st1)), ssConflicts := conflicts,
                    ssPhase := ssPhase computed, ssConditions := ssConditions computed\<rparr>;
          st3 = (if ssCreatedByOperator computed then st2\<lparr>ssCreatedByOperator := True\<rparr> else st2);
          st4 = (if ssCreatorPatchRef computed \<noteq> None \<and> ssCreatorPatchRef st3 = None
                 then st3\<lparr>ssCreatorPatchRef := ssCreatorPatchRef computed\<rparr> else st3);
          st5 = (if ssObservedBaseHash computed \<noteq> '''' \<and> ssObservedBaseHash st4 = ''''
                 then st4\<lparr>ssObservedBaseHash := ssObservedBaseHash computed\<rparr> else st4);
          st6 = (if ssObservedTargetUID computed \<noteq> ''''
                 then st5\<lparr>ssObservedTargetUID := ssObservedTargetUID computed\<rparr> else st5)
      in if ssObservedResourceVersion computed \<noteq> ''''
         then st6\<lparr>ssObservedResourceVersion := ssObservedResourceVersion computed\<rparr> else st6)"

definition writeStatus ::
  "('w, 'z) KubeClient_scheme \<Rightarrow> Tracker \<Rightarrow> ContributorStatus list option \<Rightarrow> ConflictStatus list \<Rightarrow> ('w, goerror option \<times> Tracker) state" where
  "writeStatus cl t records conflicts = patchStatus cl t (carryStatus records conflicts (tkStatus t))"

definition provenance :: "ContributorRef \<Rightarrow> string \<Rightarrow> SharedResourceStatus \<Rightarrow> SharedResourceStatus" where
  "provenance creator baseHash st =
     (let st1 = st\<lparr>ssCreatedByOperator := True\<rparr>;
          st2 = (if ssCreatorPatchRef st1 = None then st1\<lparr>ssCreatorPatchRef := Some creator\<rparr> else st1)
      in if baseHash \<noteq> '''' \<and> ssObservedBaseHash st2 = '''' then st2\<lparr>ssObservedBaseHash := baseHash\<rparr> else st2)"

definition recordProvenance ::
  "('w, 'z) KubeClient_scheme \<Rightarrow> Tracker \<Rightarrow> ContributorRef \<Rightarrow> string \<Rightarrow> ('w, goerror option \<times> Tracker) state" where
  "recordProvenance cl t creator baseHash = patchStatus cl t (provenance creator baseHash)"

section \<open>Conflicts between contributors\<close>

definition claimsOf :: "(string \<Rightarrow> string) \<Rightarrow> nat \<Rightarrow> Contribution \<Rightarrow> (string \<times> nat \<times> string) list" where
  "claimsOf sha i c =
     map (\<lambda>p. (PathString p, i, HashObject sha (case Get (JObj (cnObject c)) p of Some v \<Rightarrow> v | None \<Rightarrow> JNull)))
       (cnPaths c)"

definition addClaim :: "string \<times> nat \<times> string \<Rightarrow> (string \<times> (nat \<times> string) list) list \<Rightarrow> (string \<times> (nat \<times> string) list) list" where
  "addClaim cl m =
     aput (fst cl) ((case map_of m (fst cl) of None \<Rightarrow> [] | Some cs \<Rightarrow> cs) @ [snd cl]) m"

definition contested :: "(nat \<times> string) list \<Rightarrow> bool" where
  "contested cs \<longleftrightarrow> length cs \<ge> 2 \<and> length (remdups (map snd cs)) \<ge> 2"

definition detectPathConflicts :: "(string \<Rightarrow> string) \<Rightarrow> Contribution list \<Rightarrow> (string \<times> nat list) list" where
  "detectPathConflicts sha rendered =
     map (\<lambda>(path, cs). (path, map fst cs))
       (filter (\<lambda>(path, cs). contested cs)
         (fold addClaim (concat (map (\<lambda>(i, c). claimsOf sha i c) (List.enumerate 0 rendered))) []))"

text \<open>The contributors that beat \<open>myIdx\<close> at one contested path, in order.\<close>

definition beatenBy :: "contributorRecord list \<Rightarrow> int \<Rightarrow> nat \<Rightarrow> nat list \<Rightarrow> contributorRecord list" where
  "beatenBy active prio myIdx claimants =
     (if myIdx \<notin> set claimants then []
      else filter (\<lambda>other. csPriority (rcStatus other) > prio)
             (map (\<lambda>i. active ! i) (filter (\<lambda>i. i \<noteq> myIdx \<and> i < length active) claimants)))"

definition indexOf :: "contributorRecord list \<Rightarrow> contributorRecord \<Rightarrow> nat option" where
  "indexOf active c =
     (let ps = takeWhile (\<lambda>a. \<not> SameContributor (csPatchRef (rcStatus a)) (csPatchRef (rcStatus c))) active
      in if length ps < length active then Some (length ps) else None)"

definition isSupersededOn ::
  "((string \<times> nat list) list \<Rightarrow> (string \<times> nat list) list) \<Rightarrow> contributorRecord \<Rightarrow> contributorRecord list \<Rightarrow>
     (string \<times> nat list) list \<Rightarrow> string option" where
  "isSupersededOn iter c active pathClaims =
     (if asConflictPolicy (rsApply (coSpec (rcObj c))) \<noteq> ConflictPolicyPriority then None
      else
        (case indexOf active c of
           None \<Rightarrow> None
         | Some myIdx \<Rightarrow>
             (case concat (map (\<lambda>(path, cl). beatenBy active (csPriority (rcStatus c)) myIdx cl) (iter pathClaims)) of
                [] \<Rightarrow> None
              | other # _ \<Rightarrow> Some (RefString (csPatchRef (rcStatus other))))))"

definition appendConflict ::
  "((string \<times> nat list) list \<Rightarrow> (string \<times> nat list) list) \<Rightarrow> ConflictStatus list \<Rightarrow> (string \<times> nat list) list \<Rightarrow>
     contributorRecord \<Rightarrow> string \<Rightarrow> ConflictStatus list" where
  "appendConflict iter conflicts pathClaims c holder =
     (case iter pathClaims of
        [] \<Rightarrow> conflicts
      | (path, _) # _ \<Rightarrow>
          conflicts @ [\<lparr>cfFieldPath = path, cfClaimants = [RefString (csPatchRef (rcStatus c)), holder], cfHolder = holder\<rparr>])"

section \<open>Prior values and bases in the status\<close>

text \<open>What decoding the encoding of a value gives: its integers become \<^verbatim>\<open>float64\<close>.\<close>

fun viaJson :: "json \<Rightarrow> json"
  and viaElems :: "json list \<Rightarrow> json list"
  and viaMembers :: "jmap \<Rightarrow> jmap" where
  "viaJson (JInt n) = as_float n"
| "viaJson (JArr l) = JArr (viaElems l)"
| "viaJson (JObj m) = JObj (viaMembers m)"
| "viaJson v = v"
| "viaElems [] = []"
| "viaElems (x # xs) = viaJson x # viaElems xs"
| "viaMembers [] = []"
| "viaMembers ((k, v) # m) = (k, viaJson v) # viaMembers m"

definition encodePriorValues :: "jmap \<Rightarrow> RawExtension option" where
  "encodePriorValues m = (if m = [] then None else Some (RawJson (viaJson (JObj m))))"

definition decodePriorValues :: "RawExtension option \<Rightarrow> (goerror, jmap) result" where
  "decodePriorValues raw =
     (case raw of
        None \<Rightarrow> Inr []
      | Some RawEmpty \<Rightarrow> Inr []
      | Some (RawInvalid e) \<Rightarrow> Inl (Errorw ''decoding prior values: %w'' [] (Errorf e []))
      | Some (RawJson (JObj m)) \<Rightarrow> Inr m
      | Some (RawJson JNull) \<Rightarrow> Inr []
      | Some (RawJson _) \<Rightarrow> Inl (Errorw ''decoding prior values: %w'' [] (Errorf ''json: cannot unmarshal'' [])))"

definition baseFor :: "Contributor \<Rightarrow> (goerror, jmap option) result" where
  "baseFor c =
     (if rawUnset (rsBase (coSpec c)) then Inr None
      else map_sum id Some (DecodeBase (rsBase (coSpec c))))"

definition firstOr :: "string list \<Rightarrow> string \<Rightarrow> string" where
  "firstOr xs fallback = (case xs of [] \<Rightarrow> fallback | x # _ \<Rightarrow> x)"

section \<open>Releasing\<close>

definition applierFor :: "'w TrackerEnv \<Rightarrow> Contributor \<Rightarrow> (goerror, Applier \<times> 'w KubeClient) result" where
  "applierFor env c =
     (case (case teNewFor env of
              None \<Rightarrow> Inr (teClient env)
            | Some newFor \<Rightarrow> map_sum id fst (ImpersonationFor (teClient env) newFor c)) of
        Inl e \<Rightarrow> Inl e
      | Inr writer \<Rightarrow> map_sum id (\<lambda>a. (a, writer)) (For (asMode (rsApply (coSpec c)))))"

definition releaseContributor :: "'w TrackerEnv \<Rightarrow> contributorRecord \<Rightarrow> Target \<Rightarrow> ('w, unit) io" where
  "releaseContributor env c target =
     (if lcOnRelease (rsLifecycle (coSpec (rcObj c))) = OnReleaseOrphan then State_Monad.return (Inr ())
      else
        (case applierFor env (rcObj c) of
           Inl e \<Rightarrow> State_Monad.return (Inl e)
         | Inr (a, writer) \<Rightarrow>
             (case ParsePaths (csOwnedPaths (rcStatus c)) of
                Inl e \<Rightarrow> State_Monad.return (Inl (Errorw ''parsing owned paths for %s: %w'' [RefString (csPatchRef (rcStatus c))] e))
              | Inr paths \<Rightarrow>
                  (case decodePriorValues (csPriorValues (rcStatus c)) of
                     Inl e \<Rightarrow> State_Monad.return (Inl e)
                   | Inr priors \<Rightarrow>
                       applierRevert (teSha env) a writer
                         \<lparr>rrTarget = target, rrFieldManager = csFieldManager (rcStatus c), rrOwnedPaths = paths,
                          rrPriorValues = priors\<rparr>))))"

fun releaseAll :: "'w TrackerEnv \<Rightarrow> contributorRecord list \<Rightarrow> Target \<Rightarrow> ('w, unit) io" where
  "releaseAll env [] target = State_Monad.return (Inr ())"
| "releaseAll env (c # cs) target =
     do {
       r \<leftarrow> releaseContributor env c target;
       case r of Inl e \<Rightarrow> State_Monad.return (Inl e) | Inr _ \<Rightarrow> releaseAll env cs target
     }"

definition wantsDelete :: "SharedResourceStatus \<Rightarrow> contributorRecord list \<Rightarrow> bool" where
  "wantsDelete st contributors \<longleftrightarrow>
     ssCreatedByOperator st \<and>
     (case ssCreatorPatchRef st of
        None \<Rightarrow> False
      | Some creator \<Rightarrow>
          list_ex (\<lambda>c. lcOnRelease (rsLifecycle (coSpec (rcObj c))) = OnReleaseDelete \<and>
                       SameContributor (csPatchRef (rcStatus c)) creator) contributors)"

definition maybeDeleteTarget :: "'w TrackerEnv \<Rightarrow> Tracker \<Rightarrow> contributorRecord list \<Rightarrow> Target \<Rightarrow> ('w, unit) io" where
  "maybeDeleteTarget env t contributors target =
     (if \<not> wantsDelete (tkStatus t) contributors then State_Monad.return (Inr ())
      else do {
        r \<leftarrow> clDelete (teClient env) target;
        State_Monad.return
          (case r of
             Inr _ \<Rightarrow> Inr ()
           | Inl e \<Rightarrow> if IsNotFound e then Inr () else Inl (Errorw ''deleting target %s: %w'' [tgName target] e))
      })"

section \<open>Applying the contributions\<close>

fun renderAll :: "'w TrackerEnv \<Rightarrow> contributorRecord list \<Rightarrow> Target \<Rightarrow> (goerror, Contribution list) result" where
  "renderAll env [] target = Inr []"
| "renderAll env (c # cs) target =
     (case Render (teSha env) (teJsonpatch env) (rsPatch (coSpec (rcObj c))) target of
        Inl e \<Rightarrow> Inl (Errorw ''rendering %s: %w'' [RefString (csPatchRef (rcStatus c))] e)
      | Inr r \<Rightarrow> (case renderAll env cs target of Inl e \<Rightarrow> Inl e | Inr rs \<Rightarrow> Inr (r # rs)))"

record LoopState =
  lpTracker :: Tracker
  lpRecords :: "ContributorStatus list"
  lpConflicts :: "ConflictStatus list"
  lpAnyConflict :: bool
  lpTargetExists :: bool

datatype flow = Next LoopState | Exit "(goerror, CtrlResult) result"

definition addRecord :: "ContributorStatus \<Rightarrow> LoopState \<Rightarrow> LoopState" where
  "addRecord rec ls = ls\<lparr>lpRecords := lpRecords ls @ [rec]\<rparr>"

definition applyRequest :: "contributorRecord \<Rightarrow> Contribution \<Rightarrow> Target \<Rightarrow> Path list \<Rightarrow> jmap \<Rightarrow> jmap option \<Rightarrow> Request" where
  "applyRequest c contribution target previous priors base =
     (let spec = coSpec (rcObj c); rec = rcStatus c
      in \<lparr>rqTarget = target, rqContribution = Some contribution, rqFieldManager = csFieldManager rec,
          rqConflictPolicy = asConflictPolicy (rsApply spec), rqMergeKeys = psMergeKeys (rsPatch spec),
          rqPreviousPaths = previous, rqPriorValues = priors, rqPriorValuesCaptured = csPriorValuesCaptured rec,
          rqBase = base, rqAllowCreate = (lcOnMissing (rsLifecycle spec) = OnMissingCreate)\<rparr>)"

definition appliedRecord :: "ContributorStatus \<Rightarrow> Contribution \<Rightarrow> Result \<Rightarrow> ContributorStatus" where
  "appliedRecord rec contribution result =
     (let rec1 = rec\<lparr>csState := ContributorStateApplied, csLastAppliedHash := cnHash contribution,
            csOwnedPaths := PathStrings (reOwnedPaths result)\<rparr>
      in if rePriorValuesCaptured result
         then rec1\<lparr>csPriorValues := encodePriorValues (rePriorValues result), csPriorValuesCaptured := True\<rparr>
         else rec1)"

definition observeLive :: "jmap option \<Rightarrow> SharedResourceStatus \<Rightarrow> SharedResourceStatus" where
  "observeLive live st =
     (case live of
        None \<Rightarrow> st
      | Some obj \<Rightarrow>
          (let st1 = st\<lparr>ssObservedResourceVersion := GetResourceVersion obj\<rparr>
           in if GetUID obj \<noteq> '''' then st1\<lparr>ssObservedTargetUID := GetUID obj\<rparr> else st1))"

text \<open>What the loop does with a successful apply.\<close>

definition recordApplied ::
  "'w TrackerEnv \<Rightarrow> contributorRecord \<Rightarrow> Contribution \<Rightarrow> jmap option \<Rightarrow> Result \<Rightarrow> LoopState \<Rightarrow> ('w, flow) state" where
  "recordApplied env c contribution base result ls =
     (let finish = (\<lambda>t. Next (addRecord (appliedRecord (rcStatus c) contribution result)
                               (ls\<lparr>lpTracker := updStatus (observeLive (reLive result)) t\<rparr>)))
      in if reCreated result \<and> ssCreatorPatchRef (tkStatus (lpTracker ls)) = None then
           do {
             r \<leftarrow> recordProvenance (teClient env) (lpTracker ls) (csPatchRef (rcStatus c))
                   (case base of None \<Rightarrow> '''' | Some b \<Rightarrow> HashObject (teSha env) (JObj b));
             State_Monad.return (case fst r of Some e \<Rightarrow> Exit (Inl e) | None \<Rightarrow> finish (snd r))
           }
         else State_Monad.return (finish (lpTracker ls)))"

definition applyResult ::
  "'w TrackerEnv \<Rightarrow> contributorRecord \<Rightarrow> Contribution \<Rightarrow> jmap option \<Rightarrow> (goerror, Result) result \<Rightarrow> LoopState \<Rightarrow> ('w, flow) state" where
  "applyResult env c contribution base r ls =
     (case r of
        Inl e \<Rightarrow>
          if IsNotFound e then
            State_Monad.return (Next (addRecord ((rcStatus c)\<lparr>csState := ContributorStateOther ''''\<rparr>)
              (ls\<lparr>lpTargetExists := False\<rparr>)))
          else if IsAlreadyExists e \<or> IsConflict e then
            State_Monad.return (Exit (Inr \<lparr>crRequeue = False, crRequeueAfter = 500\<rparr>))
          else
            do {
              s \<leftarrow> writeStatus (teClient env)
                    (updStatus (setTrackerCond (teNow env) ''Synced'' ConditionFalse ''ApplyFailed'' (ErrorText e)) (lpTracker ls))
                    None (lpConflicts ls);
              State_Monad.return (Exit (Inl (case fst s of Some e' \<Rightarrow> e' | None \<Rightarrow> e)))
            }
      | Inr result \<Rightarrow>
          (case reConflict result of
             Some conflict \<Rightarrow>
               State_Monad.return (Next (addRecord ((rcStatus c)\<lparr>csState := ContributorStateConflicted\<rparr>)
                 (ls\<lparr>lpAnyConflict := True,
                   lpConflicts := lpConflicts ls @ [\<lparr>cfFieldPath = firstOr (ccFields conflict) ''<unknown>'',
                     cfClaimants = [RefString (csPatchRef (rcStatus c))],
                     cfHolder = firstOr (ccManagers conflict) ''<unknown>''\<rparr>]\<rparr>)))
           | None \<Rightarrow> recordApplied env c contribution base result ls))"

definition applyContributor ::
  "'w TrackerEnv \<Rightarrow> Target \<Rightarrow> contributorRecord list \<Rightarrow> (string \<times> nat list) list \<Rightarrow>
     contributorRecord \<times> Contribution \<Rightarrow> LoopState \<Rightarrow> ('w, flow) state" where
  "applyContributor env target active pathClaims cc ls =
     (let c = fst cc; contribution = snd cc; rec = rcStatus c;
          conflicted = State_Monad.return (Next (addRecord (rec\<lparr>csState := ContributorStateConflicted\<rparr>) ls))
      in case applierFor env (rcObj c) of
           Inl e \<Rightarrow> conflicted
         | Inr (a, writer) \<Rightarrow>
             (case isSupersededOn (teIter env) c active pathClaims of
                Some holder \<Rightarrow>
                  State_Monad.return (Next (addRecord (rec\<lparr>csState := ContributorStateSuperseded\<rparr>)
                    (ls\<lparr>lpAnyConflict := True,
                      lpConflicts := appendConflict (teIter env) (lpConflicts ls) pathClaims c holder\<rparr>)))
              | None \<Rightarrow>
                  (case decodePriorValues (csPriorValues rec) of
                     Inl e \<Rightarrow> State_Monad.return (Exit (Inl e))
                   | Inr priors \<Rightarrow>
                       (case baseFor (rcObj c) of
                          Inl e \<Rightarrow> conflicted
                        | Inr base \<Rightarrow>
                            do {
                              r \<leftarrow> applierApply (teSha env) a writer
                                    (applyRequest c contribution target
                                      (case ParsePaths (csOwnedPaths rec) of Inl _ \<Rightarrow> [] | Inr ps \<Rightarrow> ps) priors base);
                              applyResult env c contribution base r ls
                            }))))"

fun applyLoop ::
  "'w TrackerEnv \<Rightarrow> Target \<Rightarrow> contributorRecord list \<Rightarrow> (string \<times> nat list) list \<Rightarrow>
     (contributorRecord \<times> Contribution) list \<Rightarrow> LoopState \<Rightarrow> ('w, flow) state" where
  "applyLoop env target active pathClaims [] ls = State_Monad.return (Next ls)"
| "applyLoop env target active pathClaims (cc # ccs) ls =
     do {
       r \<leftarrow> applyContributor env target active pathClaims cc ls;
       case r of
         Exit x \<Rightarrow> State_Monad.return (Exit x)
       | Next ls' \<Rightarrow> applyLoop env target active pathClaims ccs ls'
     }"

definition verdict :: "Time \<Rightarrow> LoopState \<Rightarrow> SharedResourceStatus \<Rightarrow> SharedResourceStatus" where
  "verdict now ls st =
     setTrackerCond now ''Synced'' ConditionTrue ''ReconcileSuccess'' ''''
       (if \<not> lpTargetExists ls then
          setTrackerCond now ''TargetFound'' ConditionFalse ''TargetMissing''
            ''the target does not exist and no contributor creates it'' (st\<lparr>ssPhase := TrackerPhaseWaiting\<rparr>)
        else if lpAnyConflict ls then
          setTrackerCond now ''Conflict'' ConditionTrue ''Conflict'' ''contributors disagree on at least one field''
            (st\<lparr>ssPhase := TrackerPhaseConflicted\<rparr>)
        else
          setTrackerCond now ''Applied'' ConditionTrue ''Applied'' ''''
            (setTrackerCond now ''Conflict'' ConditionFalse ''NoConflict'' ''''
              (setTrackerCond now ''TargetFound'' ConditionTrue ''Found'' '''' (st\<lparr>ssPhase := TrackerPhaseApplied\<rparr>))))"

definition withStatus :: "CtrlResult \<Rightarrow> goerror option \<times> 'a \<Rightarrow> (goerror, CtrlResult) result" where
  "withStatus res r = (case fst r of Some e \<Rightarrow> Inl e | None \<Rightarrow> Inr res)"

definition applyActive :: "'w TrackerEnv \<Rightarrow> Tracker \<Rightarrow> contributorRecord list \<Rightarrow> Target \<Rightarrow> 'w reconcile" where
  "applyActive env t active target =
     (case renderAll env active target of
        Inl e \<Rightarrow>
          do {
            s \<leftarrow> writeStatus (teClient env)
                  (updStatus (\<lambda>st. (setTrackerCond (teNow env) ''Synced'' ConditionFalse ''InvalidSpec'' (ErrorText e) st)
                     \<lparr>ssPhase := TrackerPhaseWaiting\<rparr>) t) (Some []) [];
            State_Monad.return (withStatus done_result s)
          }
      | Inr rendered \<Rightarrow>
          do {
            r \<leftarrow> applyLoop env target active (detectPathConflicts (teSha env) rendered) (zip active rendered)
                  \<lparr>lpTracker = t, lpRecords = [], lpConflicts = [], lpAnyConflict = False, lpTargetExists = True\<rparr>;
            case r of
              Exit x \<Rightarrow> State_Monad.return x
            | Next ls \<Rightarrow>
                do {
                  s \<leftarrow> writeStatus (teClient env) (updStatus (verdict (teNow env) ls) (lpTracker ls))
                        (Some (lpRecords ls)) (lpConflicts ls);
                  State_Monad.return
                    (withStatus \<lparr>crRequeue = False, crRequeueAfter = (if lpTargetExists ls then 0 else 10000)\<rparr> s)
                }
          })"

definition reconcileContributions :: "'w TrackerEnv \<Rightarrow> Tracker \<Rightarrow> contributorRecord list \<Rightarrow> 'w reconcile" where
  "reconcileContributions env t contributors =
     (let target = renderTarget t; (releasing, active) = splitReleasing contributors
      in do {
        r \<leftarrow> releaseAll env releasing target;
        case r of
          Inl e \<Rightarrow> State_Monad.return (Inl e)
        | Inr _ \<Rightarrow>
            do {
              d \<leftarrow> (if active = [] \<and> releasing \<noteq> [] then maybeDeleteTarget env t releasing target
                    else State_Monad.return (Inr ()));
              case d of
                Inl e \<Rightarrow> State_Monad.return (Inl e)
              | Inr _ \<Rightarrow> applyActive env t active target
            }
      })"

section \<open>The last contributor, and deletion\<close>

text \<open>An update or a deletion that finds nothing is done.\<close>

definition orDone :: "goerror \<Rightarrow> (goerror, CtrlResult) result" where
  "orDone e = (case IgnoreNotFound e of None \<Rightarrow> Inr done_result | Some e' \<Rightarrow> Inl e')"

definition dropTracker :: "('w, 'z) KubeClient_scheme \<Rightarrow> Tracker \<Rightarrow> 'w reconcile" where
  "dropTracker cl t =
     do {
       d \<leftarrow> kcDeleteTracker cl t;
       State_Monad.return (case d of Inl e \<Rightarrow> orDone e | Inr _ \<Rightarrow> Inr done_result)
     }"

definition withoutFinalizer :: "Tracker \<Rightarrow> Tracker" where
  "withoutFinalizer t = t\<lparr>tkMeta := RemoveFinalizer TrackerFinalizer (tkMeta t)\<rparr>"

definition reconcileEmpty :: "'w TrackerEnv \<Rightarrow> Tracker \<Rightarrow> 'w reconcile" where
  "reconcileEmpty env t =
     (if ssContributors (tkStatus t) = [] \<and> ssPhase (tkStatus t) \<noteq> TrackerPhaseReleasing then
        do {
          u \<leftarrow> kcUpdateTracker (teClient env) (withoutFinalizer t);
          case u of
            Inl e \<Rightarrow> State_Monad.return (orDone e)
          | Inr t' \<Rightarrow> dropTracker (teClient env) t'
        }
      else
        do {
          s \<leftarrow> writeStatus (teClient env) (updStatus (\<lambda>st. st\<lparr>ssPhase := TrackerPhaseReleasing\<rparr>) t) None [];
          State_Monad.return (withStatus done_result s)
        })"

definition reconcileDeleteTracker :: "'w TrackerEnv \<Rightarrow> Tracker \<Rightarrow> 'w reconcile" where
  "reconcileDeleteTracker env t =
     do {
       l \<leftarrow> listContributors env t;
       case l of
         Inl e \<Rightarrow> State_Monad.return (Inl e)
       | Inr contributors \<Rightarrow>
           do {
             r \<leftarrow> releaseAll env contributors (renderTarget t);
             case r of
               Inl e \<Rightarrow> State_Monad.return (Inl e)
             | Inr _ \<Rightarrow>
                 do {
                   d \<leftarrow> maybeDeleteTarget env t contributors (renderTarget t);
                   case d of
                     Inl e \<Rightarrow> State_Monad.return (Inl e)
                   | Inr _ \<Rightarrow>
                       if \<not> ContainsFinalizer (tkMeta t) TrackerFinalizer then State_Monad.return (Inr done_result)
                       else do {
                         u \<leftarrow> kcUpdateTracker (teClient env) (withoutFinalizer t);
                         State_Monad.return (case u of Inl e \<Rightarrow> orDone e | Inr _ \<Rightarrow> Inr done_result)
                       }
                 }
           }
     }"

section \<open>Finishing a promotion\<close>

text \<open>\<^verbatim>\<open>finishPromotion\<close> of \<^verbatim>\<open>internal/controller/promotion.go\<close>, on the fenced tracker.\<close>

definition finishPromotion :: "'w TrackerEnv \<Rightarrow> Tracker \<Rightarrow> 'w reconcile" where
  "finishPromotion env t =
     (case ssPromotedTo (tkStatus t) of
        None \<Rightarrow> State_Monad.return (Inr done_result)
      | Some promoted \<Rightarrow>
          do {
            s \<leftarrow> kcGetTracker (teClient env) True '''' (prName promoted);
            case s of
              Inl e \<Rightarrow>
                if IsNotFound e then
                  do {
                    u \<leftarrow> kcUpdateTrackerStatus (teClient env)
                          (updStatus (\<lambda>st. st\<lparr>ssPromotedTo := None, ssPhase := TrackerPhaseApplied\<rparr>) t);
                    State_Monad.return (map_sum id (\<lambda>_. \<lparr>crRequeue = True, crRequeueAfter = 0\<rparr>) u)
                  }
                else State_Monad.return (Inl e)
            | Inr successor \<Rightarrow>
                if \<not> prAdopted promoted then
                  State_Monad.return (Inr \<lparr>crRequeue = False, crRequeueAfter = 1000\<rparr>)
                else if ContainsFinalizer (tkMeta t) TrackerFinalizer then
                  do {
                    u \<leftarrow> kcUpdateTracker (teClient env) (withoutFinalizer t);
                    case u of
                      Inl e \<Rightarrow> State_Monad.return (orDone e)
                    | Inr t' \<Rightarrow> dropTracker (teClient env) t'
                  }
                else dropTracker (teClient env) t
          })"

section \<open>Reconcile\<close>

text \<open>
  \<open>cluster\<close> is the kind the reconciler serves; the request names the tracker. The pass of the program also starts a watch on the
  kind of the target before it lists; it is \<open>ReconcileWatching\<close> of \<^verbatim>\<open>Watching\<close>, where the two are shown to do the same to objects.
\<close>

definition ReconcileTracker :: "'w TrackerEnv \<Rightarrow> bool \<Rightarrow> string \<Rightarrow> string \<Rightarrow> 'w reconcile" where
  "ReconcileTracker env cluster namespace name =
     do {
       g \<leftarrow> kcGetTracker (teClient env) cluster namespace name;
       case g of
         Inl e \<Rightarrow> State_Monad.return (orDone e)
       | Inr t \<Rightarrow>
           if IsFenced (tkStatus t) then finishPromotion env t
           else if omDeletionTimestamp (tkMeta t) \<noteq> None then reconcileDeleteTracker env t
           else if \<not> ContainsFinalizer (tkMeta t) TrackerFinalizer then
             do {
               u \<leftarrow> kcUpdateTracker (teClient env) (t\<lparr>tkMeta := AddFinalizer TrackerFinalizer (tkMeta t)\<rparr>);
               State_Monad.return (map_sum id (\<lambda>_. \<lparr>crRequeue = True, crRequeueAfter = 0\<rparr>) u)
             }
           else
             do {
               l \<leftarrow> listContributors env t;
               case l of
                 Inl e \<Rightarrow> State_Monad.return (Inl e)
               | Inr contributors \<Rightarrow>
                   if contributors = [] then reconcileEmpty env t
                   else reconcileContributions env t contributors
             }
     }"

text \<open>The trackers to wake when a contributor changes, as (namespace, name).\<close>

definition trackersOfContributor :: "(string \<Rightarrow> string) \<Rightarrow> string \<Rightarrow> Contributor \<Rightarrow> (string \<times> string) list" where
  "trackersOfContributor sha wantKind c =
     (let out = map (\<lambda>r. (tkNamespace r, tkName r))
                  (filter (\<lambda>r. tkKind r = wantKind) (psSharedResourceRefs (coStatus c)));
          key = TargetKeyFor c; kind = TrackerKindFor key (coCluster c)
      in if out = [] \<and> trMode (coTarget c) \<noteq> TargetModeSelector \<and> kind = wantKind
         then [(TrackerNamespace kind key, TrackerName sha key)] else out)"

end
