(* ===== verification/Sample.thy ===== *)
theory Sample
  imports Tracker
begin

text \<open>
  A cluster in memory, on which the witnesses run the controllers: one target object, the trackers and
  the contributors. Writes to trackers are checked against the resource version, as the API server's
  optimistic concurrency does, and every accepted write makes a new version.
\<close>

record MemCluster =
  mwTarget :: "jmap option"
  mwTrackers :: "Tracker list"
  mwPatches :: "Contributor list"

definition mem_conflict :: goerror where
  "mem_conflict = ErrStatus \<lparr>stReason = StatusReasonConflict, stMessage = ''the object has been modified'', stDetails = None\<rparr>"

definition mem_exists :: goerror where
  "mem_exists = ErrStatus \<lparr>stReason = StatusReasonAlreadyExists, stMessage = ''already exists'', stDetails = None\<rparr>"

definition bumpTracker :: "Tracker \<Rightarrow> Tracker" where
  "bumpTracker t = t\<lparr>tkMeta := (tkMeta t)\<lparr>omResourceVersion := CHR ''v'' # omResourceVersion (tkMeta t)\<rparr>\<rparr>"

definition sameTracker :: "bool \<Rightarrow> string \<Rightarrow> string \<Rightarrow> Tracker \<Rightarrow> bool" where
  "sameTracker cluster ns n t \<longleftrightarrow> tkCluster t = cluster \<and> omNamespace (tkMeta t) = ns \<and> omName (tkMeta t) = n"

abbreviation trackerId :: "Tracker \<Rightarrow> Tracker \<Rightarrow> bool" where
  "trackerId t \<equiv> sameTracker (tkCluster t) (omNamespace (tkMeta t)) (omName (tkMeta t))"

definition memStore :: "(Tracker \<Rightarrow> Tracker \<Rightarrow> Tracker) \<Rightarrow> Tracker \<Rightarrow> (MemCluster, Tracker) io" where
  "memStore change t = State (\<lambda>w.
     case find (trackerId t) (mwTrackers w) of
       None \<Rightarrow> (Inl (NewNotFound ''trackers'' (omName (tkMeta t))), w)
     | Some old \<Rightarrow>
         if omResourceVersion (tkMeta old) \<noteq> omResourceVersion (tkMeta t) then (Inl mem_conflict, w)
         else (let new = bumpTracker (change t old)
               in (Inr new, w\<lparr>mwTrackers := map (\<lambda>x. if trackerId t x then new else x) (mwTrackers w)\<rparr>)))"

definition samePatch :: "bool \<Rightarrow> string \<Rightarrow> string \<Rightarrow> Contributor \<Rightarrow> bool" where
  "samePatch cluster ns n c \<longleftrightarrow> coCluster c = cluster \<and> coNamespace c = ns \<and> coName c = n"

definition memPatch :: "(Contributor \<Rightarrow> Contributor \<Rightarrow> Contributor) \<Rightarrow> Contributor \<Rightarrow> (MemCluster, Contributor) io" where
  "memPatch change c = State (\<lambda>w.
     case find (samePatch (coCluster c) (coNamespace c) (coName c)) (mwPatches w) of
       None \<Rightarrow> (Inl (NewNotFound ''patches'' (coName c)), w)
     | Some old \<Rightarrow> (Inr (change c old), w\<lparr>mwPatches :=
         map (\<lambda>x. if samePatch (coCluster c) (coNamespace c) (coName c) x then change c x else x) (mwPatches w)\<rparr>))"

definition mem_client :: "MemCluster KubeClient" where
  "mem_client =
     \<lparr>clGet = \<lambda>t. State (\<lambda>w. (case mwTarget w of None \<Rightarrow> Inl (NewNotFound ''targets'' (tgName t)) | Some x \<Rightarrow> Inr x, w)),
      clCreate = \<lambda>ob. State (\<lambda>w. case mwTarget w of None \<Rightarrow> (Inr ob, w\<lparr>mwTarget := Some ob\<rparr>) | Some _ \<Rightarrow> (Inl mem_exists, w)),
      clUpdate = \<lambda>ob. State (\<lambda>w. (Inr ob, w\<lparr>mwTarget := Some ob\<rparr>)),
      clApply = \<lambda>ob m force. State (\<lambda>w. (Inr ob, w\<lparr>mwTarget := Some ob\<rparr>)),
      clDelete = \<lambda>t. State (\<lambda>w. (Inr (), w\<lparr>mwTarget := None\<rparr>)),
      kcGetTracker = \<lambda>cluster ns n. State (\<lambda>w.
        (case find (sameTracker cluster ns n) (mwTrackers w) of
           None \<Rightarrow> Inl (NewNotFound ''trackers'' n) | Some t \<Rightarrow> Inr t, w)),
      kcCreateTracker = \<lambda>t. State (\<lambda>w.
        case find (trackerId t) (mwTrackers w) of
          Some _ \<Rightarrow> (Inl mem_exists, w)
        | None \<Rightarrow> (Inr (bumpTracker t), w\<lparr>mwTrackers := mwTrackers w @ [bumpTracker t]\<rparr>)),
      kcUpdateTracker = memStore (\<lambda>t old. t\<lparr>tkStatus := tkStatus old\<rparr>),
      kcUpdateTrackerStatus = memStore (\<lambda>t old. old\<lparr>tkStatus := tkStatus t\<rparr>),
      kcDeleteTracker = \<lambda>t. State (\<lambda>w. (Inr (), w\<lparr>mwTrackers := filter (\<lambda>x. \<not> trackerId t x) (mwTrackers w)\<rparr>)),
      kcGetPatch = \<lambda>cluster ns n. State (\<lambda>w.
        (case find (samePatch cluster ns n) (mwPatches w) of
           None \<Rightarrow> Inl (NewNotFound ''patches'' n) | Some c \<Rightarrow> Inr c, w)),
      kcListPatches = \<lambda>cluster index ns. State (\<lambda>w.
        (Inr (filter (\<lambda>c. coCluster c = cluster \<and>
            (case ns of None \<Rightarrow> True | Some n \<Rightarrow> coNamespace c = n) \<and>
            (case index of None \<Rightarrow> True | Some k \<Rightarrow> k \<in> set (targetKeysFor c))) (mwPatches w)), w)),
      kcUpdatePatch = memPatch (\<lambda>c old. c\<lparr>coStatus := coStatus old\<rparr>),
      kcUpdatePatchStatus = memPatch (\<lambda>c old. old\<lparr>coStatus := coStatus c\<rparr>)\<rparr>"

definition mem_env :: "MemCluster TrackerEnv" where
  "mem_env = \<lparr>teClient = mem_client, teNewFor = None, teSha = (\<lambda>s. s), teJsonpatch = (\<lambda>_. Inl (Errorf ''unused'' [])),
     teNow = 9, teIter = (\<lambda>m. m)\<rparr>"

text \<open>Contributors to one ConfigMap that set \<^verbatim>\<open>data.a\<close>, and a tracker of that ConfigMap.\<close>

definition sample_contributor :: "string \<Rightarrow> int \<Rightarrow> ConflictPolicy \<Rightarrow> string \<Rightarrow> Contributor" where
  "sample_contributor name prio policy v =
     (let c = sample_patch False ''''; s = coSpec c
      in c\<lparr>coMeta := (coMeta c)\<lparr>omName := name, omUID := name\<rparr>,
           coSpec := s\<lparr>rsPriority := prio, rsApply := (rsApply s)\<lparr>asConflictPolicy := policy\<rparr>,
             rsPatch := (rsPatch s)\<lparr>psValue := Some (RawJson (JObj [(''data'', JObj [(''a'', JStr v)])]))\<rparr>\<rparr>\<rparr>)"

definition sample_tracker :: "SharedResourceStatus \<Rightarrow> Tracker" where
  "sample_tracker st =
     \<lparr>tkCluster = False, tkMeta = no_meta\<lparr>omName := ''t'', omNamespace := ''team-a'', omFinalizers := [TrackerFinalizer]\<rparr>,
      tkSpec = \<lparr>srTargetRef = \<lparr>ttAPIVersion = ''v1'', ttKind = ''ConfigMap'', ttName = ''cm'', ttNamespace = ''team-a''\<rparr>\<rparr>,
      tkStatus = st\<rparr>"

definition sample_entry :: "string \<Rightarrow> int \<Rightarrow> ConflictPolicy \<Rightarrow> string \<Rightarrow> contributorRecord" where
  "sample_entry name prio policy v = recordOf mem_env (sample_tracker no_status) (sample_contributor name prio policy v)"

end
