(* ===== verification/TrackerLaws.thy ===== *)
theory TrackerLaws
  imports Sample
begin

text \<open>
  What the tracker promises: it deletes a target only for the contributor that created it, and not while
  another contributor remains; a fenced tracker leaves the target alone; its status writes keep what
  others wrote; conflicts are found exactly and lost only to a higher priority; and the bookkeeping a
  release needs survives. Some results record where the code falls short of its comments.
\<close>

section \<open>Deleting the target\<close>

text \<open>
  The target is deleted only on behalf of its creator: unless the operator created it, the creator
  is on record, and one of the departing contributors both asks for deletion and is that creator (by
  UID when both have one), no call is made at all.
\<close>

theorem delete_only_by_creator:
  "(ssCreatedByOperator (tkStatus t) \<and>
     (\<exists>creator c. ssCreatorPatchRef (tkStatus t) = Some creator \<and> c \<in> set contributors \<and>
        lcOnRelease (rsLifecycle (coSpec (rcObj c))) = OnReleaseDelete \<and>
        SameContributor (csPatchRef (rcStatus c)) creator \<and>
        crUID (csPatchRef (rcStatus c)) \<in> {'''', crUID creator} \<union> (if crUID creator = '''' then UNIV else {}))) \<or>
   run_state (maybeDeleteTarget env t contributors target) w = (Inr (), w)"
proof (cases "wantsDelete (tkStatus t) contributors")
  case True
  then show ?thesis
    by (fastforce simp: wantsDelete_def list_ex_iff SameContributor_def split: option.splits if_splits)
qed (simp add: maybeDeleteTarget_def)

section \<open>Deletion and the remaining contributors\<close>

lemmas deep_cong = sum.case_cong option.case_cong prod.case_cong flow.case_cong if_cong

definition withDelete :: "(Target \<Rightarrow> ('w, unit) io) \<Rightarrow> 'w KubeClient \<Rightarrow> 'w KubeClient" where
  "withDelete d cl = cl\<lparr>clDelete := d\<rparr>"

lemma withDelete_simps [simp]:
  "clGet (withDelete d cl) = clGet cl" "clCreate (withDelete d cl) = clCreate cl" "clUpdate (withDelete d cl) = clUpdate cl"
  "clApply (withDelete d cl) = clApply cl" "kcGetTracker (withDelete d cl) = kcGetTracker cl"
  "kcUpdateTracker (withDelete d cl) = kcUpdateTracker cl" "kcUpdateTrackerStatus (withDelete d cl) = kcUpdateTrackerStatus cl"
  "kcDeleteTracker (withDelete d cl) = kcDeleteTracker cl" "kcListPatches (withDelete d cl) = kcListPatches cl"
  by (simp_all add: withDelete_def)

lemma csa_withDelete:
  "csaCreate (withDelete d cl) req c = csaCreate cl req c"
  "csaUpdate sha (withDelete d cl) req c live = csaUpdate sha cl req c live"
  "csaRevert sha (withDelete d cl) rr = csaRevert sha cl rr"
  unfolding csaCreate_def csaUpdate_def csaRevert_def withDelete_simps by (rule refl)+

lemma csaApply_withDelete: "csaApply sha (withDelete d cl) req = csaApply sha cl req"
  unfolding csaApply_def csa_withDelete withDelete_simps by (rule refl)

lemma ssa_withDelete:
  "ssaPatch (withDelete d cl) obj m pol = ssaPatch cl obj m pol"
  "ssaExists (withDelete d cl) t = ssaExists cl t"
  "ssaRevert (withDelete d cl) rr = ssaRevert cl rr"
  unfolding ssaPatch_def ssaExists_def ssaRevert_def withDelete_simps by (rule refl)+

lemma ssaApply_withDelete: "ssaApply (withDelete d cl) req = ssaApply cl req"
  unfolding ssaApply_def ssa_withDelete by (rule refl)

lemma appliers_never_delete:
  "applierApply sha a (withDelete d cl) req = applierApply sha a cl req"
  "applierRevert sha a (withDelete d cl) rr = applierRevert sha a cl rr"
  by (cases a; simp add: applierApply_def applierRevert_def csaApply_withDelete ssaApply_withDelete
      csa_withDelete ssa_withDelete)+

definition envDelete :: "(Target \<Rightarrow> ('w, unit) io) \<Rightarrow> 'w TrackerEnv \<Rightarrow> 'w TrackerEnv" where
  "envDelete d env = env\<lparr>teClient := withDelete d (teClient env)\<rparr>"

lemma envDelete_simps [simp]:
  "teClient (envDelete d env) = withDelete d (teClient env)" "teNewFor (envDelete d env) = teNewFor env"
  "teSha (envDelete d env) = teSha env" "teJsonpatch (envDelete d env) = teJsonpatch env"
  "teNow (envDelete d env) = teNow env" "teIter (envDelete d env) = teIter env"
  by (simp_all add: envDelete_def)

lemma map_sum_id_eq:
  "map_sum id f x = Inl e \<longleftrightarrow> x = Inl e" "map_sum id f x = Inr y \<longleftrightarrow> (\<exists>a. x = Inr a \<and> y = f a)"
  by (cases x; auto)+

lemma applierFor_envDelete:
  "applierFor env c = Inl e \<Longrightarrow> applierFor (envDelete d env) c = Inl e"
  "applierFor env c = Inr (a, cl) \<Longrightarrow>
     applierFor (envDelete d env) c = Inr (a, cl) \<or> applierFor (envDelete d env) c = Inr (a, withDelete d cl)"
  by (auto simp: applierFor_def ImpersonationFor_def Let_def map_sum_id_eq split: option.splits sum.splits if_splits)

lemma releaseContributor_envDelete:
  "releaseContributor (envDelete d env) c target = releaseContributor env c target"
proof (cases "applierFor env (rcObj c)")
  case (Inl e)
  then show ?thesis using applierFor_envDelete(1)[OF Inl, of d] by (simp add: releaseContributor_def)
next
  case (Inr r)
  obtain a cl where r: "r = (a, cl)" by fastforce
  show ?thesis
    using applierFor_envDelete(2)[of env "rcObj c" a cl d] Inr r
    by (auto simp: releaseContributor_def appliers_never_delete split: sum.split)
qed

lemma releaseAll_envDelete: "releaseAll (envDelete d env) cs target = releaseAll env cs target"
  by (induction cs) (simp_all add: releaseContributor_envDelete)

lemma patchStatusOnce_withDelete: "patchStatusOnce (withDelete d cl) mutate = patchStatusOnce cl mutate"
  by (rule ext) (simp add: patchStatusOnce_def Let_def cong: deep_cong)

lemma patchStatus_withDelete: "patchStatus (withDelete d cl) t mutate = patchStatus cl t mutate"
  by (simp add: patchStatus_def patchStatusOnce_withDelete)

lemma writeStatus_withDelete: "writeStatus (withDelete d cl) t rs cs = writeStatus cl t rs cs"
  by (simp add: writeStatus_def patchStatus_withDelete)

lemma recordApplied_envDelete:
  "recordApplied (envDelete d env) c contribution base r ls = recordApplied env c contribution base r ls"
  by (simp add: recordApplied_def recordProvenance_def patchStatus_withDelete cong: deep_cong)

lemma applyResult_envDelete: "applyResult (envDelete d env) c contribution base r ls = applyResult env c contribution base r ls"
  by (simp add: applyResult_def recordApplied_envDelete writeStatus_withDelete cong: deep_cong)

lemma applyContributor_envDelete:
  "applyContributor (envDelete d env) target active claims cc ls = applyContributor env target active claims cc ls"
proof (cases "applierFor env (rcObj (fst cc))")
  case (Inl e)
  then show ?thesis using applierFor_envDelete(1)[OF Inl, of d] by (simp add: applyContributor_def)
next
  case (Inr r)
  obtain a cl where r: "r = (a, cl)" by fastforce
  show ?thesis
    using applierFor_envDelete(2)[of env "rcObj (fst cc)" a cl d] Inr r
    by (auto simp: applyContributor_def Let_def appliers_never_delete applyResult_envDelete split: option.split sum.split)
qed

lemma applyLoop_envDelete:
  "applyLoop (envDelete d env) target active claims ccs ls = applyLoop env target active claims ccs ls"
proof (induction ccs arbitrary: ls)
  case (Cons cc ccs)
  from Cons.IH have "applyLoop (envDelete d env) target active claims ccs = applyLoop env target active claims ccs"
    by (rule ext)
  then show ?case by (simp add: applyContributor_envDelete)
qed simp

lemma renderAll_envDelete: "renderAll (envDelete d env) cs target = renderAll env cs target"
  by (induction cs) (simp_all cong: deep_cong)

text \<open>
  A departing contributor never takes the target away from the others: while a contributor that is
  not being deleted remains, the whole pass does the same whatever the delete call would do, because
  it does not make it.
\<close>

theorem no_delete_while_shared:
  assumes "c \<in> set contributors" and "omDeletionTimestamp (coMeta (rcObj c)) = None"
  shows "reconcileContributions (env\<lparr>teClient := (teClient env)\<lparr>clDelete := d\<rparr>\<rparr>) t contributors =
    reconcileContributions env t contributors"
proof -
  have "snd (splitReleasing contributors) \<noteq> []"
    using assms by (auto simp: splitReleasing_def filter_empty_conv)
  moreover have "applyActive (envDelete d env) t active target = applyActive env t active target" for active target
    by (simp add: applyActive_def writeStatus_withDelete applyLoop_envDelete renderAll_envDelete
        cong: deep_cong)
  ultimately show ?thesis
    by (simp add: reconcileContributions_def releaseAll_envDelete case_prod_unfold Let_def
        flip: withDelete_def envDelete_def cong: deep_cong)
qed

text \<open>The same for the creator leaving with deletion on release while another contributor stays.\<close>

theorem no_delete_while_shared_witness:
  "let stay = sample_entry ''q'' 1 ConflictPolicyFail ''y''; e = sample_entry ''p'' 1 ConflictPolicyFail ''x'';
       c = rcObj e; l = rsLifecycle (coSpec c);
       leave = e\<lparr>rcObj := c\<lparr>coMeta := (coMeta c)\<lparr>omDeletionTimestamp := Some 7\<rparr>,
         coSpec := (coSpec c)\<lparr>rsLifecycle := l\<lparr>lcOnRelease := OnReleaseDelete\<rparr>\<rparr>\<rparr>\<rparr>;
       t = sample_tracker (no_status\<lparr>ssCreatedByOperator := True, ssCreatorPatchRef := Some (csPatchRef (rcStatus e))\<rparr>)
   in wantsDelete (tkStatus t) [leave] \<and>
      (\<forall>d. reconcileContributions (mem_env\<lparr>teClient := (teClient mem_env)\<lparr>clDelete := d\<rparr>\<rparr>) t [leave, stay]
        = reconcileContributions mem_env t [leave, stay])"
proof -
  let ?stay = "sample_entry ''q'' 1 ConflictPolicyFail ''y''" and ?e = "sample_entry ''p'' 1 ConflictPolicyFail ''x''"
  let ?leave = "?e\<lparr>rcObj := (rcObj ?e)\<lparr>coMeta := (coMeta (rcObj ?e))\<lparr>omDeletionTimestamp := Some 7\<rparr>,
         coSpec := (coSpec (rcObj ?e))\<lparr>rsLifecycle := (rsLifecycle (coSpec (rcObj ?e)))\<lparr>lcOnRelease := OnReleaseDelete\<rparr>\<rparr>\<rparr>\<rparr>"
  have "?stay \<in> set [?leave, ?stay]" "omDeletionTimestamp (coMeta (rcObj ?stay)) = None"
    by (simp_all add: sample_entry_def recordOf_def sample_contributor_def sample_patch_def no_meta_def Let_def)
  note same = no_delete_while_shared[OF this]
  show ?thesis
    unfolding Let_def by (rule conjI, simp add: wantsDelete_def sample_tracker_def, intro allI, rule same)
qed

section \<open>Conflict detection\<close>

lemma map_of_addClaim:
  "map_of (addClaim cl m) s =
     (if s = fst cl then Some ((case map_of m s of None \<Rightarrow> [] | Some cs \<Rightarrow> cs) @ [snd cl]) else map_of m s)"
  by (simp add: addClaim_def map_of_aput)

lemma map_of_fold_addClaim:
  "map_of (fold addClaim cls m) s =
     (let mine = map snd (filter (\<lambda>cl. fst cl = s) cls)
      in if mine = [] then map_of m s else Some ((case map_of m s of None \<Rightarrow> [] | Some cs \<Rightarrow> cs) @ mine))"
proof (induction cls arbitrary: m)
  case (Cons cl cls)
  show ?case unfolding fold_Cons o_apply Cons.IH by (auto simp: map_of_addClaim Let_def)
qed simp

lemma fold_addClaim_ok: "akeys_ok m \<Longrightarrow> akeys_ok (fold addClaim cls m)"
  by (induction cls arbitrary: m) (simp_all add: addClaim_def akeys_ok_aput)

definition allClaims :: "(string \<Rightarrow> string) \<Rightarrow> Contribution list \<Rightarrow> (string \<times> nat \<times> string) list" where
  "allClaims sha rendered = concat (map (\<lambda>(i, c). claimsOf sha i c) (List.enumerate 0 rendered))"

definition valueHash :: "(string \<Rightarrow> string) \<Rightarrow> Contribution \<Rightarrow> Path \<Rightarrow> string" where
  "valueHash sha c p = HashObject sha (case Get (JObj (cnObject c)) p of Some v \<Rightarrow> v | None \<Rightarrow> JNull)"

lemma set_allClaims:
  "(s, i, h) \<in> set (allClaims sha rendered) \<longleftrightarrow>
     i < length rendered \<and> (\<exists>p \<in> set (cnPaths (rendered ! i)). s = PathString p \<and> h = valueHash sha (rendered ! i) p)"
proof -
  have "set (allClaims sha rendered) = (\<Union>i < length rendered. set (claimsOf sha i (rendered ! i)))"
    by (force simp: allClaims_def in_set_enumerate_eq enumerate_eq_zip set_zip)
  then show ?thesis by (auto simp: claimsOf_def valueHash_def)
qed

lemma claims_of_path:
  "(s, cl) \<in> set (detectPathConflicts sha rendered) \<longleftrightarrow>
     (let mine = map snd (filter (\<lambda>c. fst c = s) (allClaims sha rendered)) in contested mine \<and> cl = map fst mine)"
proof -
  let ?m = "fold addClaim (allClaims sha rendered) []"
  let ?mine = "map snd (filter (\<lambda>c. fst c = s) (allClaims sha rendered))"
  have "(s, cs) \<in> set ?m \<longleftrightarrow> map_of ?m s = Some cs" for cs
    using akeys_ok_distinct[OF fold_addClaim_ok[OF akeys_ok_Nil]] by simp
  then have m: "(s, cs) \<in> set ?m \<longleftrightarrow> ?mine \<noteq> [] \<and> cs = ?mine" for cs
    by (auto simp: map_of_fold_addClaim Let_def)
  have "(s, cl) \<in> set (detectPathConflicts sha rendered) \<longleftrightarrow>
      (\<exists>cs. (s, cs) \<in> set ?m \<and> contested cs \<and> cl = map fst cs)"
    unfolding detectPathConflicts_def allClaims_def[symmetric] set_map set_filter by (fastforce simp del: set_map)
  also have "\<dots> \<longleftrightarrow> ?mine \<noteq> [] \<and> contested ?mine \<and> cl = map fst ?mine"
    unfolding m by blast
  also have "\<dots> \<longleftrightarrow> contested ?mine \<and> cl = map fst ?mine"
    by (auto simp: contested_def)
  finally show ?thesis by (simp only: Let_def)
qed

lemma contested_iff: "contested cs \<longleftrightarrow> (\<exists>a \<in> set cs. \<exists>b \<in> set cs. snd a \<noteq> snd b)"
proof
  assume c: "contested cs"
  show "\<exists>a \<in> set cs. \<exists>b \<in> set cs. snd a \<noteq> snd b"
  proof (rule ccontr)
    assume "\<not> ?thesis"
    moreover have "hd cs \<in> set cs" using c by (cases cs) (simp_all add: contested_def)
    ultimately have "snd ` set cs \<subseteq> {snd (hd cs)}" by blast
    then have "card (snd ` set cs) \<le> card {snd (hd cs)}" by (rule card_mono[rotated]) simp
    then have "card (snd ` set cs) \<le> 1" by simp
    then show False using c by (simp add: contested_def length_remdups_card_conv)
  qed
next
  assume "\<exists>a \<in> set cs. \<exists>b \<in> set cs. snd a \<noteq> snd b"
  then obtain a b where ab: "a \<in> set cs" "b \<in> set cs" "snd a \<noteq> snd b" by blast
  then have "card {snd a, snd b} \<le> card (snd ` set cs)" by (intro card_mono) auto
  moreover have "card (snd ` set cs) \<le> length cs" by (metis card_length length_map set_map)
  ultimately show "contested cs" using ab by (simp add: contested_def length_remdups_card_conv)
qed

text \<open>
  Conflict detection is exact: a path is reported if and only if two claims on it, by whichever
  contributors, hash to different values, and then its claimants are all the contributors that claim
  it. Contributors that agree on the value are never reported.
\<close>

theorem detect_conflicts_exact:
  "(\<exists>cl. (s, cl) \<in> set (detectPathConflicts sha rendered)) =
     (\<exists>i j p q. i < length rendered \<and> j < length rendered \<and> p \<in> set (cnPaths (rendered ! i)) \<and>
        q \<in> set (cnPaths (rendered ! j)) \<and> PathString p = s \<and> PathString q = s \<and>
        valueHash sha (rendered ! i) p \<noteq> valueHash sha (rendered ! j) q) \<and>
   {cl. (s, cl) \<in> set (detectPathConflicts sha rendered)} \<subseteq>
     {cl. set cl = {i. i < length rendered \<and> s \<in> PathString ` set (cnPaths (rendered ! i))}}"
proof -
  let ?mine = "map snd (filter (\<lambda>c. fst c = s) (allClaims sha rendered))"
  have mine: "(i, h) \<in> set ?mine \<longleftrightarrow> (s, i, h) \<in> set (allClaims sha rendered)" for i h by force
  have "contested ?mine \<longleftrightarrow>
     (\<exists>i h j g. (s, i, h) \<in> set (allClaims sha rendered) \<and> (s, j, g) \<in> set (allClaims sha rendered) \<and> h \<noteq> g)"
    unfolding contested_iff Bex_def split_paired_Ex mine by force
  then have "contested ?mine \<longleftrightarrow> (\<exists>i j p q. i < length rendered \<and> j < length rendered \<and>
      p \<in> set (cnPaths (rendered ! i)) \<and> q \<in> set (cnPaths (rendered ! j)) \<and> PathString p = s \<and> PathString q = s \<and>
      valueHash sha (rendered ! i) p \<noteq> valueHash sha (rendered ! j) q)"
    unfolding set_allClaims by metis
  moreover have "set (map fst ?mine) = {i. \<exists>h. (s, i, h) \<in> set (allClaims sha rendered)}"
    using mine by force
  then have "set (map fst ?mine) = {i. i < length rendered \<and> s \<in> PathString ` set (cnPaths (rendered ! i))}"
    unfolding set_allClaims by blast
  moreover have "(\<exists>cl. (s, cl) \<in> set (detectPathConflicts sha rendered)) \<longleftrightarrow> contested ?mine"
    "{cl. (s, cl) \<in> set (detectPathConflicts sha rendered)} \<subseteq> {map fst ?mine}"
    unfolding claims_of_path Let_def by blast+
  ultimately show ?thesis by (auto simp del: set_map map_map)
qed

section \<open>Who is superseded\<close>

lemma beatenBy_set:
  "set (beatenBy active prio me cl) =
     {active ! i |i. me \<in> set cl \<and> i \<in> set cl \<and> i \<noteq> me \<and> i < length active \<and> csPriority (rcStatus (active ! i)) > prio}"
  by (auto simp: beatenBy_def)

text \<open>\<open>other\<close> outranks \<open>c\<close> on a contested path that both claim.\<close>

definition outranks :: "contributorRecord list \<Rightarrow> (string \<times> nat list) list \<Rightarrow> contributorRecord \<Rightarrow> contributorRecord \<Rightarrow> bool" where
  "outranks active claims other c \<longleftrightarrow>
     (\<exists>me path cl i. indexOf active c = Some me \<and> (path, cl) \<in> set claims \<and> me \<in> set cl \<and> i \<in> set cl \<and> i \<noteq> me \<and>
        i < length active \<and> other = active ! i \<and> csPriority (rcStatus other) > csPriority (rcStatus c))"

text \<open>
  A contributor is held got only by a higher priority: it is superseded exactly when its policy
  is Priority and, on some contested path it claims itself, another claimant has a strictly higher
  priority; the holder named is one of those. The iteration order of the map does not matter for the
  verdict, and the highest priority among the claimants is never held got.
\<close>

theorem superseded_only_by_higher:
  assumes "\<And>m. set (iter m) = set m"
  shows "(isSupersededOn iter c active claims \<noteq> None) =
      (asConflictPolicy (rsApply (coSpec (rcObj c))) = ConflictPolicyPriority \<and> (\<exists>other. outranks active claims other c)) \<and>
    set_option (isSupersededOn iter c active claims)
      \<subseteq> {RefString (csPatchRef (rcStatus other)) |other. outranks active claims other c}"
proof (cases "asConflictPolicy (rsApply (coSpec (rcObj c))) = ConflictPolicyPriority")
  case True
  show ?thesis
  proof (cases "indexOf active c")
    case None
    with True show ?thesis by (simp add: isSupersededOn_def outranks_def)
  next
    case (Some me)
    define beating where
      "beating = concat (map (\<lambda>(path, cl). beatenBy active (csPriority (rcStatus c)) me cl) (iter claims))"
    have set: "set beating = {other. outranks active claims other c}"
      by (fastforce simp: beating_def beatenBy_set outranks_def Some assms)
    have "isSupersededOn iter c active claims =
        (case beating of [] \<Rightarrow> None | other # _ \<Rightarrow> Some (RefString (csPatchRef (rcStatus other))))"
      by (simp add: beating_def isSupersededOn_def True Some)
    then show ?thesis using set True by (cases beating) (simp_all, blast+)
  qed
qed (simp add: isSupersededOn_def)

section \<open>Records\<close>

text \<open>
  A contributor keeps its bookkeeping from pass to pass: whatever the status says of it under the
  same identity, its owned paths, prior values, capture flag, hash and state, comes got in the new
  record, with the generation and priority of the live object. The field manager named in the spec
  never matters.
\<close>

theorem record_carries_bookkeeping:
  "recordFor sha c st =
     (let prev = FindContributor st (ContributorRefOf c);
          old = (case prev of Some r \<Rightarrow> r | None \<Rightarrow> recordFor sha c (st\<lparr>ssContributors := []\<rparr>));
          manager = (if csFieldManager old = '''' then FieldManagerFor sha (ContributorKind c) (coNamespace c) (coName c)
                     else csFieldManager old)
      in old\<lparr>csPatchRef := ContributorRefOf c, csObservedGeneration := omGeneration (coMeta c),
           csPriority := rsPriority (coSpec c), csFieldManager := manager,
           csCreationTimestamp := Some (omCreationTimestamp (coMeta c))\<rparr>) \<and>
   recordFor sha (c\<lparr>coSpec := (coSpec c)\<lparr>rsApply := (rsApply (coSpec c))\<lparr>asFieldManager := m\<rparr>\<rparr>\<rparr>) st = recordFor sha c st"
  by (auto simp: recordFor_def Let_def FindContributor_def ContributorRefOf_def ContributorKind_def split: option.split)

section \<open>Prior values in the status\<close>

fun ints_fit :: "json \<Rightarrow> bool"
  and ints_fit_elems :: "json list \<Rightarrow> bool"
  and ints_fit_members :: "jmap \<Rightarrow> bool" where
  "ints_fit (JInt n) \<longleftrightarrow> \<bar>n\<bar> \<le> 2 ^ 53"
| "ints_fit (JArr l) \<longleftrightarrow> ints_fit_elems l"
| "ints_fit (JObj m) \<longleftrightarrow> ints_fit_members m"
| "ints_fit v \<longleftrightarrow> True"
| "ints_fit_elems [] \<longleftrightarrow> True"
| "ints_fit_elems (x # xs) \<longleftrightarrow> ints_fit x \<and> ints_fit_elems xs"
| "ints_fit_members [] \<longleftrightarrow> True"
| "ints_fit_members ((k, v) # m) \<longleftrightarrow> ints_fit v \<and> ints_fit_members m"

lemma float_marshal: "\<bar>n\<bar> \<le> 9007199254740992 \<Longrightarrow> json_marshal (as_float n) = Itoa n"
  using json_marshal_as_float[of n] by (simp add: in_int64_def abs_le_iff)

lemma viaJson_marshal:
  "ints_fit v \<Longrightarrow> json_marshal (viaJson v) = json_marshal v"
  "ints_fit_elems l \<Longrightarrow> marshal_elems (viaElems l) = marshal_elems l"
  "ints_fit_members m \<Longrightarrow> marshal_members (viaMembers m) = marshal_members m"
  by (induction v and l and m rule: viaJson_viaElems_viaMembers.induct)
    (auto simp: float_marshal neq_Nil_conv)

lemma map_of_viaMembers: "map_of (viaMembers m) k = map_option viaJson (map_of m k)"
  by (induction m) auto

text \<open>
  Prior values survive the status: what is written for them decodes, and the value read got at
  every path is the same JSON text, so restoring it restores what the target held, as long as its
  integers are ones a \<^verbatim>\<open>float64\<close> represents.
\<close>

theorem prior_values_roundtrip:
  assumes "\<And>v. v \<in> ran (map_of priors) \<Longrightarrow> ints_fit v"
  shows "\<exists>got. decodePriorValues (encodePriorValues priors) = Inr got \<and>
    (\<forall>path. map_option json_marshal (map_of got path) = map_option json_marshal (map_of priors path))"
proof -
  have "map_option json_marshal (map_of (viaMembers priors) path) = map_option json_marshal (map_of priors path)" for path
    using assms by (cases "map_of priors path") (auto simp: map_of_viaMembers viaJson_marshal(1) ranI)
  then show ?thesis by (auto simp: encodePriorValues_def decodePriorValues_def)
qed

text \<open>The same for a port number that was there before.\<close>

theorem prior_values_roundtrip_witness:
  "\<exists>got. decodePriorValues (encodePriorValues [(''spec.port'', JInt 8080)]) = Inr got \<and>
     map_option json_marshal (map_of got ''spec.port'') = Some (json_marshal (JInt 8080))"
proof -
  have "ints_fit v" if "v \<in> ran (map_of [(''spec.port'', JInt 8080)])" for v
    using that by (auto split: if_splits)
  from prior_values_roundtrip[OF this] obtain got where
    b: "decodePriorValues (encodePriorValues [(''spec.port'', JInt 8080)]) = Inr got"
    "map_option json_marshal (map_of got ''spec.port'')
       = map_option json_marshal (map_of [(''spec.port'', JInt 8080)] ''spec.port'')" by blast
  have m: "map_option json_marshal (map_of [(''spec.port'', JInt 8080)] ''spec.port'') = Some (json_marshal (JInt 8080))"
    by (simp del: json_marshal.simps)
  show ?thesis by (rule exI[of _ got], rule conjI[OF b(1)], rule trans[OF b(2) m])
qed

text \<open>The same for two contributors at priorities 1 and 9 that disagree on one field.\<close>

theorem superseded_only_by_higher_witness:
  "let low = sample_entry ''low'' 1 ConflictPolicyPriority ''x''; high = sample_entry ''high'' 9 ConflictPolicyPriority ''y'';
       claims = [(''data.a'', [0, 1])]
   in (isSupersededOn (\<lambda>m. m) low [high, low] claims \<noteq> None) = True \<and>
      (isSupersededOn (\<lambda>m. m) high [high, low] claims \<noteq> None) = False"
proof -
  let ?low = "sample_entry ''low'' 1 ConflictPolicyPriority ''x''" and ?high = "sample_entry ''high'' 9 ConflictPolicyPriority ''y''"
  let ?active = "[?high, ?low]" and ?claims = "[(''data.a'', [0, 1])]"
  have i: "indexOf ?active ?low = Some 1" "indexOf ?active ?high = Some 0" by code_simp+
  have p: "asConflictPolicy (rsApply (coSpec (rcObj ?low))) = ConflictPolicyPriority"
    "csPriority (rcStatus ?low) = 1" "csPriority (rcStatus ?high) = 9" by code_simp+
  have "outranks ?active ?claims ?high ?low"
    unfolding outranks_def using i(1) p
    by (intro exI[of _ 1] exI[of _ "''data.a''"] exI[of _ "[0, 1]"] exI[of _ 0]) simp
  moreover have "\<not> outranks ?active ?claims other ?high" for other
    using i(2) p by (auto simp: outranks_def less_Suc_eq)
  ultimately show ?thesis
    unfolding Let_def using superseded_only_by_higher[of "\<lambda>m. m"] p(1) by blast
qed

text \<open>
  Under the policies Fail and Force a client-side contributor never learns of a conflict with
  another contributor: the pass treats it as if the contested paths and the other contributors did not
  exist, and its applier never reports a conflict. So contributors that disagree all write, the last
  one in the order wins, and the tracker reports them all applied.
\<close>

theorem conflict_unseen_client_side:
  assumes "asConflictPolicy (rsApply (coSpec (rcObj (fst cc)))) \<noteq> ConflictPolicyPriority"
  shows "applyContributor env target active claims cc = applyContributor env target [] [] cc \<and>
    (case fst (run_state (applierApply sha ClientSideApplier cl req) w) of
       Inl e \<Rightarrow> True | Inr result \<Rightarrow> reConflict result = None)"
proof
  have "isSupersededOn it (fst cc) as cls = None" for it as cls
    using assms by (simp add: isSupersededOn_def)
  then show "applyContributor env target active claims cc = applyContributor env target [] [] cc"
    by (intro ext) (simp add: applyContributor_def Let_def cong: deep_cong)
  show "case fst (run_state (applierApply sha ClientSideApplier cl req) w) of
       Inl e \<Rightarrow> True | Inr result \<Rightarrow> reConflict result = None"
    by (auto simp: applierApply_def csaApply_def csaCreate_def csaUpdate_def csaResult_def map_sum_id_eq
        split: option.split sum.split prod.split if_split)
qed

text \<open>The same for two contributors under Fail: both are applied, the one of lower priority last.\<close>

theorem conflict_unseen_client_side_witness:
  "let c = sample_entry ''p'' 1 ConflictPolicyFail ''x''; d = sample_entry ''q'' 2 ConflictPolicyFail ''y'';
       contribution = \<lparr>cnObject = [(''data'', JObj [(''a'', JStr ''x'')])], cnPaths = [[FieldSegment ''data'', FieldSegment ''a'']], cnHash = ''''\<rparr>
   in applyContributor mem_env sample_target [d, c] [(''data.a'', [0, 1])] (c, contribution)
        = applyContributor mem_env sample_target [] [] (c, contribution) \<and>
      contested [(0, ''x''), (1, ''y'')]"
proof -
  let ?c = "sample_entry ''p'' 1 ConflictPolicyFail ''x''"
  have "asConflictPolicy (rsApply (coSpec (rcObj (fst (?c, y))))) \<noteq> ConflictPolicyPriority" for y :: Contribution
    unfolding fst_conv by code_simp
  note same = conflict_unseen_client_side[OF this, THEN conjunct1]
  have "contested [(0, ''x''), (1, ''y'')]" by code_simp
  with same show ?thesis unfolding Let_def by blast
qed

section \<open>Every contributor stays on record\<close>

definition refsOf :: "LoopState \<Rightarrow> ContributorRef list" where
  "refsOf ls = map csPatchRef (lpRecords ls)"

definition adds_refs :: "LoopState \<Rightarrow> ContributorRef list \<Rightarrow> flow \<Rightarrow> bool" where
  "adds_refs ls refs r = (case r of Exit _ \<Rightarrow> True | Next ls' \<Rightarrow> refsOf ls' = refsOf ls @ refs)"

lemma adds_refs_addRecord [simp]:
  "adds_refs ls [csPatchRef rec] (Next (addRecord rec (ls\<lparr>lpTargetExists := b\<rparr>)))"
  "adds_refs ls [csPatchRef rec] (Next (addRecord rec (ls\<lparr>lpAnyConflict := b, lpConflicts := cs\<rparr>)))"
  "adds_refs ls [csPatchRef rec] (Next (addRecord rec (ls\<lparr>lpTracker := t\<rparr>)))"
  "adds_refs ls [csPatchRef rec] (Next (addRecord rec ls))"
  "adds_refs ls refs (Exit x)"
  by (simp_all add: adds_refs_def refsOf_def addRecord_def)

lemma applyContributor_adds_refs:
  "adds_refs ls [csPatchRef (rcStatus (fst cc))] (fst (run_state (applyContributor env target active claims cc ls) w))"
proof -
  let ?rec = "rcStatus (fst cc)"
  have u: "csPatchRef (?rec\<lparr>csState := s\<rparr>) = csPatchRef ?rec" for s by simp
  have a: "csPatchRef (appliedRecord ?rec c r) = csPatchRef ?rec" for c r
    by (simp add: appliedRecord_def Let_def)
  have r: "adds_refs ls [csPatchRef ?rec] (fst (run_state (recordApplied env (fst cc) c base result ls) w))" for c base result w
    using adds_refs_addRecord(3)[of ls "appliedRecord ?rec c result"]
    by (auto simp: recordApplied_def Let_def a split: prod.split option.split)
  have s: "adds_refs ls [csPatchRef ?rec] (fst (run_state (applyResult env (fst cc) c base result ls) w))" for c base result w
    using adds_refs_addRecord(1,2)[of ls "?rec\<lparr>csState := s\<rparr>" for s]
    by (auto simp: applyResult_def r split: sum.split option.split prod.split)
  have n: "adds_refs ls [csPatchRef ?rec] (Next (addRecord (?rec\<lparr>csState := s\<rparr>) ls))"
    "adds_refs ls [csPatchRef ?rec] (Next (addRecord (?rec\<lparr>csState := s\<rparr>) (ls\<lparr>lpAnyConflict := b, lpConflicts := x\<rparr>)))" for s b x
    by (metis adds_refs_addRecord(4) u) (metis adds_refs_addRecord(2) u)
  show ?thesis
    by (auto simp: applyContributor_def Let_def n s split: sum.split option.split prod.split)
qed

text \<open>
  The contributor list the tracker writes is complete: when the loop over the contributors comes
  to its end, the records are exactly the contributors given, one each and in order, whatever happened
  to each of them. A pass that stops early writes no list. The list is the reference count that keeps
  a shared target alive.
\<close>

theorem apply_loop_complete:
  "case fst (run_state (applyLoop env target active claims ccs ls) w) of
     Exit _ \<Rightarrow> True
   | Next ls' \<Rightarrow> map csPatchRef (lpRecords ls') =
       map csPatchRef (lpRecords ls) @ map (\<lambda>cc. csPatchRef (rcStatus (fst cc))) ccs"
proof (induction ccs arbitrary: ls w)
  case (Cons cc ccs)
  obtain r w1 where r: "run_state (applyContributor env target active claims cc ls) w = (r, w1)" by fastforce
  have "adds_refs ls [csPatchRef (rcStatus (fst cc))] r"
    using applyContributor_adds_refs[of ls cc env target active claims w] r by simp
  then show ?case
  proof (cases r)
    case (Next ls1)
    with \<open>adds_refs ls _ r\<close> Cons.IH[of ls1 w1] r show ?thesis
      by (simp add: adds_refs_def refsOf_def cong: flow.case_cong)
  qed (use r in simp)
qed simp

end
