(* ===== verification/StatusLaws.thy ===== *)
theory StatusLaws
  imports TrackerLaws
begin

text \<open>
  What the tracker's status writes promise: what a write keeps, that a fence committed by the
  contributor controller survives any interleaving with them, that a fenced tracker leaves the target
  alone, and two places where the code loses what it means to keep.
\<close>

section \<open>What a status write keeps\<close>

text \<open>
  A status write touches only what the pass computed: the fence is never changed; without records
  the contributor list stays; the count is always the length of the list; provenance only grows: a
  creation on record stays, a creator or base hash on record is never replaced, and they are filled in
  only from what the pass learned.
\<close>

theorem write_status_keeps:
  "let st' = carryStatus records conflicts computed st
   in ssPromotedTo st' = ssPromotedTo st \<and>
      ssContributors st' = (case records of None \<Rightarrow> ssContributors st | Some rs \<Rightarrow> rs) \<and>
      ssContributorCount st' = int (length (ssContributors st')) \<and>
      ssConflicts st' = conflicts \<and> ssPhase st' = ssPhase computed \<and> ssConditions st' = ssConditions computed \<and>
      ssCreatedByOperator st' = (ssCreatedByOperator st \<or> ssCreatedByOperator computed) \<and>
      ssCreatorPatchRef st' = (case ssCreatorPatchRef st of Some c \<Rightarrow> Some c | None \<Rightarrow> ssCreatorPatchRef computed) \<and>
      ssObservedBaseHash st' = (if ssObservedBaseHash st = '''' then ssObservedBaseHash computed else ssObservedBaseHash st) \<and>
      ssPromotedTo (provenance creator h st) = ssPromotedTo st \<and>
      ssCreatorPatchRef (provenance creator h st) = Some (case ssCreatorPatchRef st of Some c \<Rightarrow> c | None \<Rightarrow> creator)"
  by (auto simp: carryStatus_def provenance_def Let_def split: option.split)

section \<open>The fence under concurrent writers\<close>

text \<open>
  One tracker on a server with optimistic concurrency, and another writer that commits a value of the
  fence (\<open>Some f\<close>) before any of the tracker controller's calls, as the schedule \<open>racePending\<close> says.
  \<open>raceFence\<close> remembers what that writer committed last.
\<close>

record Race =
  raceStored :: Tracker
  racePending :: "PromotionRef option option list"
  raceFence :: "PromotionRef option"

definition disturb :: "Race \<Rightarrow> Race" where
  "disturb w =
     (case racePending w of
        [] \<Rightarrow> w
      | None # rest \<Rightarrow> w\<lparr>racePending := rest\<rparr>
      | Some f # rest \<Rightarrow>
          w\<lparr>raceStored := bumpTracker (updStatus (\<lambda>st. st\<lparr>ssPromotedTo := f\<rparr>) (raceStored w)),
            racePending := rest, raceFence := f\<rparr>)"

definition race_client :: "Race KubeClient \<Rightarrow> Race KubeClient" where
  "race_client cl =
     cl\<lparr>kcGetTracker := \<lambda>cluster ns n. State (\<lambda>w. let w1 = disturb w in (Inr (raceStored w1), w1)),
       kcUpdateTrackerStatus := \<lambda>t. State (\<lambda>w.
         let w1 = disturb w
         in if omResourceVersion (tkMeta t) \<noteq> omResourceVersion (tkMeta (raceStored w1)) then (Inl mem_conflict, w1)
            else (let new = bumpTracker ((raceStored w1)\<lparr>tkStatus := tkStatus t\<rparr>)
                  in (Inr new, w1\<lparr>raceStored := new\<rparr>)))\<rparr>"

text \<open>\<open>t\<close> was read from this server: its version is not newer, and at the same version its fence is the stored one.\<close>

definition snapshot :: "Tracker \<Rightarrow> Race \<Rightarrow> bool" where
  "snapshot t w \<longleftrightarrow>
     length (omResourceVersion (tkMeta t)) \<le> length (omResourceVersion (tkMeta (raceStored w))) \<and>
     (omResourceVersion (tkMeta t) = omResourceVersion (tkMeta (raceStored w)) \<longrightarrow>
        ssPromotedTo (tkStatus t) = ssPromotedTo (tkStatus (raceStored w)))"

definition fence_ok :: "Race \<Rightarrow> bool" where
  "fence_ok w \<longleftrightarrow> ssPromotedTo (tkStatus (raceStored w)) = raceFence w"

lemma disturb_ok:
  assumes "fence_ok w" and "snapshot t w"
  shows "fence_ok (disturb w)" "snapshot t (disturb w)"
  using assms by (auto simp: disturb_def fence_ok_def snapshot_def bumpTracker_def split: list.split option.split)

lemma snapshot_stored: "snapshot (raceStored w) w"
  by (simp add: snapshot_def)

lemma race_update:
  assumes ok: "fence_ok w" "snapshot t w" "\<And>st. ssPromotedTo (mutate st) = ssPromotedTo st"
    and run: "run_state (kcUpdateTrackerStatus (race_client cl) (updStatus mutate t)) w = (r, w')"
  shows "fence_ok w' \<and> snapshot (updStatus mutate t) w' \<and> (\<forall>t'. r = Inr t' \<longrightarrow> t' = raceStored w')"
proof -
  note d = disturb_ok[OF ok(1,2)]
  show ?thesis
  proof (cases "omResourceVersion (tkMeta t) = omResourceVersion (tkMeta (raceStored (disturb w)))")
    case True
    with run d ok(3) show ?thesis
      by (auto simp: race_client_def Let_def fence_ok_def snapshot_def bumpTracker_def)
  next
    case False
    with run d ok(3) show ?thesis
      by (auto simp: race_client_def Let_def fence_ok_def snapshot_def)
  qed
qed

lemma race_get:
  assumes "fence_ok w" and "snapshot t w"
    and "run_state (kcGetTracker (race_client cl) c ns n) w = (r, w')"
  shows "fence_ok w' \<and> snapshot t w' \<and> r = Inr (raceStored w')"
  using assms disturb_ok[OF assms(1,2)] by (auto simp: race_client_def Let_def)

lemma snapshot_cong:
  "snapshot t w \<Longrightarrow> omResourceVersion (tkMeta t') = omResourceVersion (tkMeta t) \<Longrightarrow>
     ssPromotedTo (tkStatus t') = ssPromotedTo (tkStatus t) \<Longrightarrow> snapshot t' w"
  by (simp add: snapshot_def)

lemma race_once:
  assumes ok: "fence_ok w" "snapshot t w" and m: "\<And>st. ssPromotedTo (mutate st) = ssPromotedTo st"
    and run: "run_state (patchStatusOnce (race_client cl) mutate t) w = (r, w')"
  shows "fence_ok w' \<and> snapshot (snd r) w'"
proof -
  let ?t1 = "updStatus mutate t"
  obtain a w1 where u: "run_state (kcUpdateTrackerStatus (race_client cl) ?t1) w = (a, w1)" by fastforce
  note u1 = race_update[OF ok m u]
  show ?thesis
  proof (cases a)
    case (Inr t2)
    with run u u1 snapshot_stored[of w1] show ?thesis by (auto simp: patchStatusOnce_def Let_def)
  next
    case (Inl e)
    show ?thesis
    proof (cases "IsConflict e")
      case False
      with Inl run u u1 show ?thesis by (auto simp: patchStatusOnce_def Let_def)
    next
      case True
      obtain b w2 where g: "run_state (kcGetTracker (race_client cl) (tkCluster ?t1) (omNamespace (tkMeta ?t1)) (omName (tkMeta ?t1))) w1 = (b, w2)"
        by fastforce
      have g1: "fence_ok w2" "snapshot ?t1 w2" "b = Inr (raceStored w2)"
        using race_get[OF _ _ g, of ?t1] u1 by blast+
      obtain d w3 where v: "run_state (kcUpdateTrackerStatus (race_client cl) (updStatus mutate (raceStored w2))) w2 = (d, w3)"
        by fastforce
      note v1 = race_update[OF g1(1) snapshot_stored m v]
      have "snapshot ?t1 w3"
        using disturb_ok[OF g1(1,2)] v m by (auto simp: race_client_def Let_def snapshot_def bumpTracker_def split: if_splits)
      moreover have "snapshot (?t1\<lparr>tkStatus := tkStatus x, tkMeta := (tkMeta ?t1)\<lparr>omResourceVersion := omResourceVersion (tkMeta x)\<rparr>\<rparr>) w3"
        if "d = Inr x" for x
        using v1 that snapshot_stored[of w3] by (auto simp: snapshot_def)
      ultimately show ?thesis
        using run u g v v1 Inl True g1(3) by (auto simp: patchStatusOnce_def Let_def split: sum.splits)
    qed
  qed
qed

lemma retry_invariant:
  assumes step: "\<And>s w r w'. I s w \<Longrightarrow> run_state (f s) w = (r, w') \<Longrightarrow> I (snd r) w'"
    and "I s w" and "run_state (retryOnConflict n f s) w = (r, w')"
  shows "I (snd r) w'"
  using assms(2,3)
proof (induction n arbitrary: s w)
  case (Suc n)
  obtain r1 w1 where r1: "run_state (f s) w = (r1, w1)" by fastforce
  have i: "I (snd r1) w1" using step[OF Suc.prems(1) r1] .
  with Suc.prems(2) r1 show ?case
    using Suc.IH[OF i] by (auto split: option.splits if_splits)
qed (use step in auto)

lemma race_patchStatus:
  assumes "fence_ok w" and "snapshot t w" and m: "\<And>st. ssPromotedTo (mutate st) = ssPromotedTo st"
    and "run_state (patchStatus (race_client cl) t mutate) w = (r, w')"
  shows "fence_ok w' \<and> snapshot (snd r) w'"
proof -
  obtain r1 where r1: "run_state (retryOnConflict DefaultBackoff (patchStatusOnce (race_client cl) mutate) t) w = (r1, w')"
    "r = ignoreNotFound r1"
    using assms(4) by (auto simp: patchStatus_def split: prod.splits)
  have "fence_ok w' \<and> snapshot (snd r1) w'"
  proof (rule retry_invariant[where I = "\<lambda>t w. fence_ok w \<and> snapshot t w", OF _ _ r1(1)])
    show "fence_ok w'' \<and> snapshot (snd q) w''"
      if "fence_ok v \<and> snapshot s v" and "run_state (patchStatusOnce (race_client cl) mutate s) v = (q, w'')" for s v q w''
      using race_once[OF _ _ m that(2)] that(1) by blast
  qed (use assms(1,2) in blast)
  then show ?thesis by (simp add: r1(2) ignoreNotFound_def)
qed

text \<open>
  C25. A committed fence survives: whatever the other writer commits between the tracker controller's
  own calls, after a status write of the tracker controller from any earlier read of the tracker, the
  fence on the server is the one the other writer committed last, and the tracker in hand is again a
  read of the server.
\<close>

theorem fence_survives_status_write:
  assumes "fence_ok w" and "snapshot t w"
  shows "let (r, w') = run_state (writeStatus (race_client cl) t records conflicts) w
         in ssPromotedTo (tkStatus (raceStored w')) = raceFence w' \<and> snapshot (snd r) w'"
proof -
  obtain r w' where r: "run_state (writeStatus (race_client cl) t records conflicts) w = (r, w')" by fastforce
  have "ssPromotedTo (carryStatus records conflicts (tkStatus t) st) = ssPromotedTo st" for st
    by (cases records) (simp_all add: carryStatus_def Let_def)
  from race_patchStatus[OF assms this r[unfolded writeStatus_def]] show ?thesis
    by (simp add: r fence_ok_def)
qed

text \<open>C25 where the fence lands between the read and the write: the first write conflicts, the second keeps the fence.\<close>

theorem fence_survives_status_write_witness:
  "let f = Some \<lparr>prName = ''c'', prAdopted = False\<rparr>;
       w = \<lparr>raceStored = sample_tracker no_status, racePending = [Some f], raceFence = None\<rparr>;
       w' = snd (run_state (writeStatus (race_client undefined) (sample_tracker no_status) (Some []) []) w)
   in raceFence w' = f \<and> ssPromotedTo (tkStatus (raceStored w')) = f"
proof -
  let ?f = "Some \<lparr>prName = ''c'', prAdopted = False\<rparr>"
  let ?w = "\<lparr>raceStored = sample_tracker no_status, racePending = [Some ?f], raceFence = None\<rparr>"
  have h: "fence_ok ?w" "snapshot (sample_tracker no_status) ?w"
    by (simp_all add: fence_ok_def snapshot_def sample_tracker_def no_status_def)
  obtain r w' where r: "run_state (writeStatus (race_client undefined) (sample_tracker no_status) (Some []) []) ?w = (r, w')"
    by fastforce
  have "raceFence w' = ?f"
    using r by (auto simp: writeStatus_def patchStatus_def DefaultBackoff_def numeral_3_eq_3 patchStatusOnce_def Let_def
        race_client_def disturb_def bumpTracker_def sample_tracker_def mem_conflict_def status_predicates
        split: prod.splits sum.splits if_splits option.splits)
  with fence_survives_status_write[OF h, of undefined "Some []" "[]"] r show ?thesis by (simp add: Let_def)
qed

section \<open>A fenced tracker\<close>

text \<open>
  A fenced tracker writes nothing to its target: reconciling it does the same whatever the calls
  on target objects and the impersonated clients would do, because it makes none of them.
\<close>

theorem fenced_tracker_silent:
  assumes "run_state (kcGetTracker (teClient env) cluster ns n) w = (Inr t, w1)" and "IsFenced (tkStatus t)"
  shows "run_state (ReconcileTracker (env\<lparr>teClient := (teClient env)\<lparr>clGet := g, clCreate := c, clUpdate := u,
      clApply := a, clDelete := d\<rparr>, teNewFor := nf\<rparr>) cluster ns n) w =
    run_state (ReconcileTracker env cluster ns n) w"
proof -
  let ?cl = "(teClient env)\<lparr>clGet := g, clCreate := c, clUpdate := u, clApply := a, clDelete := d\<rparr>"
  let ?env = "env\<lparr>teClient := ?cl, teNewFor := nf\<rparr>"
  have k: "kcGetTracker ?cl = kcGetTracker (teClient env)" "kcUpdateTrackerStatus ?cl = kcUpdateTrackerStatus (teClient env)"
    "kcUpdateTracker ?cl = kcUpdateTracker (teClient env)" "kcDeleteTracker ?cl = kcDeleteTracker (teClient env)"
    by simp_all
  have e: "teClient ?env = ?cl" by simp
  have "finishPromotion ?env t = finishPromotion env t"
    unfolding finishPromotion_def dropTracker_def e k by (rule refl)
  moreover have "run_state (kcGetTracker (teClient ?env) cluster ns n) w = (Inr t, w1)"
    unfolding e k by (rule assms(1))
  ultimately show ?thesis using assms by (simp add: ReconcileTracker_def)
qed

text \<open>A sample: a fenced tracker whose successor exists already.\<close>

definition fenced_cluster :: "bool \<Rightarrow> MemCluster" where
  "fenced_cluster adopted =
     \<lparr>mwTarget = Some [(''kind'', JStr ''ConfigMap'')],
      mwTrackers = [sample_tracker (no_status\<lparr>ssPromotedTo := Some \<lparr>prName = ''t'', prAdopted = adopted\<rparr>\<rparr>),
        (sample_tracker no_status)\<lparr>tkCluster := True, tkMeta := (tkMeta (sample_tracker no_status))\<lparr>omNamespace := ''''\<rparr>\<rparr>],
      mwPatches = [sample_contributor ''p'' 1 ConflictPolicyFail ''x'']\<rparr>"

theorem fenced_tracker_silent_witness:
  "\<forall>g c u a d nf. run_state (ReconcileTracker (mem_env\<lparr>teClient := (teClient mem_env)\<lparr>clGet := g, clCreate := c, clUpdate := u,
      clApply := a, clDelete := d\<rparr>, teNewFor := nf\<rparr>) False ''team-a'' ''t'') (fenced_cluster False)
     = (Inr \<lparr>crRequeue = False, crRequeueAfter = 1000\<rparr>, fenced_cluster False)"
proof -
  let ?t = "sample_tracker (no_status\<lparr>ssPromotedTo := Some \<lparr>prName = ''t'', prAdopted = False\<rparr>\<rparr>)"
  have "run_state (kcGetTracker (teClient mem_env) False ''team-a'' ''t'') (fenced_cluster False) = (Inr ?t, fenced_cluster False)"
    "IsFenced (tkStatus ?t)"
    by (simp_all add: mem_env_def mem_client_def fenced_cluster_def sameTracker_def sample_tracker_def no_meta_def IsFenced_def)
  note same = fenced_tracker_silent[OF this]
  have "run_state (ReconcileTracker mem_env False ''team-a'' ''t'') (fenced_cluster False)
      = (Inr \<lparr>crRequeue = False, crRequeueAfter = 1000\<rparr>, fenced_cluster False)"
    by (simp add: ReconcileTracker_def finishPromotion_def mem_env_def mem_client_def fenced_cluster_def sameTracker_def
        sample_tracker_def no_meta_def no_status_def IsFenced_def)
  then show ?thesis using same by simp
qed

text \<open>
  A fenced tracker retires only after adoption: unless the fence is marked adopted and the
  successor can be read, the pass neither updates nor deletes the tracker object, so the provenance and
  the prior values it holds are not lost.
\<close>

theorem retire_only_after_adoption:
  assumes "ssPromotedTo (tkStatus t) = Some promoted"
    and "\<not> prAdopted promoted \<or> fst (run_state (kcGetTracker (teClient env) True '''' (prName promoted)) w) = Inl e"
  shows "run_state (finishPromotion (env\<lparr>teClient := (teClient env)\<lparr>kcUpdateTracker := u, kcDeleteTracker := d\<rparr>\<rparr>) t) w =
    run_state (finishPromotion env t) w"
  using assms by (auto simp: finishPromotion_def split: prod.split sum.split)

text \<open>The same for a tracker whose successor has not adopted its state yet.\<close>

theorem retire_only_after_adoption_witness:
  "let t = sample_tracker (no_status\<lparr>ssPromotedTo := Some \<lparr>prName = ''t'', prAdopted = False\<rparr>\<rparr>)
   in \<forall>u d. run_state (finishPromotion (mem_env\<lparr>teClient := (teClient mem_env)\<lparr>kcUpdateTracker := u, kcDeleteTracker := d\<rparr>\<rparr>) t)
        (fenced_cluster False) = run_state (finishPromotion mem_env t) (fenced_cluster False)"
proof -
  let ?t = "sample_tracker (no_status\<lparr>ssPromotedTo := Some \<lparr>prName = ''t'', prAdopted = False\<rparr>\<rparr>)"
  have "ssPromotedTo (tkStatus ?t) = Some \<lparr>prName = ''t'', prAdopted = False\<rparr>" by (simp add: sample_tracker_def)
  note same = retire_only_after_adoption[OF this]
  show ?thesis unfolding Let_def by (intro allI, rule same) simp
qed

section \<open>Where bookkeeping is lost\<close>

lemma writeStatus_run:
  "writeStatus cl t records conflicts = patchStatus cl t (carryStatus records conflicts (tkStatus t))"
  by (fact writeStatus_def)

text \<open>
  C40. One contribution that does not render costs every contributor its record: the pass then writes a
  status with an empty contributor list and count 0 (the writer treats only a nil list as nothing to
  write, and the list given is empty, not nil), so the prior values and owned paths of the others are
  gone, although the code states that a partial list must never be written.
\<close>

theorem render_error_drops_records:
  assumes "renderAll env active target = Inl e"
  shows "\<exists>t' mutate. applyActive env t active target =
      do { s \<leftarrow> patchStatus (teClient env) t' mutate; State_Monad.return (withStatus done_result s) } \<and>
    (\<forall>st. ssContributors (mutate st) = [] \<and> ssContributorCount (mutate st) = 0)"
proof -
  let ?t = "updStatus (\<lambda>st. (setTrackerCond (teNow env) ''Synced'' ConditionFalse ''InvalidSpec'' (ErrorText e) st)
    \<lparr>ssPhase := TrackerPhaseWaiting\<rparr>) t"
  let ?mutate = "carryStatus (Some []) [] (tkStatus ?t)"
  have "applyActive env t active target =
      do { s \<leftarrow> patchStatus (teClient env) ?t ?mutate; State_Monad.return (withStatus done_result s) }"
    by (simp only: applyActive_def assms sum.case writeStatus_run)
  moreover have "ssContributors (?mutate st) = [] \<and> ssContributorCount (?mutate st) = 0" for st
    by (simp add: carryStatus_def Let_def)
  ultimately show ?thesis by blast
qed

text \<open>C40 for two contributors, one of them with an empty patch value: the other's owned paths are lost.\<close>

theorem render_error_drops_records_witness:
  "let bad = recordOf mem_env (sample_tracker no_status) (sample_contributor ''p'' 1 ConflictPolicyFail ''x''
        \<lparr>coSpec := (coSpec (sample_patch False ''''))\<lparr>rsPatch := (rsPatch (coSpec (sample_patch False '''')))\<lparr>psValue := Some RawEmpty\<rparr>\<rparr>\<rparr>);
       good = sample_entry ''q'' 1 ConflictPolicyFail ''y''
   in \<exists>t' mutate. applyActive mem_env (sample_tracker no_status) [good, bad] sample_target =
      do { s \<leftarrow> patchStatus mem_client t' mutate; State_Monad.return (withStatus done_result s) } \<and>
    (\<forall>st. ssContributors (mutate st) = [] \<and> ssContributorCount (mutate st) = 0)"
proof -
  let ?bad = "recordOf mem_env (sample_tracker no_status) (sample_contributor ''p'' 1 ConflictPolicyFail ''x''
        \<lparr>coSpec := (coSpec (sample_patch False ''''))\<lparr>rsPatch := (rsPatch (coSpec (sample_patch False '''')))\<lparr>psValue := Some RawEmpty\<rparr>\<rparr>\<rparr>)"
  let ?good = "sample_entry ''q'' 1 ConflictPolicyFail ''y''"
  have "Render (teSha mem_env) (teJsonpatch mem_env) (rsPatch (coSpec (rcObj ?bad))) sample_target
      = Inl (Errorf ''%s must be set'' [''patch.value''])"
    by (simp add: Render_def decodeObject_def recordOf_def sample_patch_def)
  then obtain e where e: "renderAll mem_env [?good, ?bad] sample_target = Inl e"
    by (cases "Render (teSha mem_env) (teJsonpatch mem_env) (rsPatch (coSpec (rcObj ?good))) sample_target") simp_all
  have "teClient mem_env = mem_client" by (simp add: mem_env_def)
  with render_error_drops_records[OF e, of "sample_tracker no_status"] show ?thesis unfolding Let_def by simp
qed

text \<open>
  A tracker that lists contributors when its last one is gone is never removed: the pass for an
  empty list leaves the list alone and sets the phase Releasing, and the next pass removes the tracker
  only with an empty list in another phase. Every further pass does the same write again.
\<close>

theorem empty_pass_never_ends:
  assumes "ssContributors (tkStatus t) \<noteq> [] \<or> ssPhase (tkStatus t) = TrackerPhaseReleasing"
  shows "\<exists>t' mutate. reconcileEmpty env t =
      do { s \<leftarrow> patchStatus (teClient env) t' mutate; State_Monad.return (withStatus done_result s) } \<and>
    (\<forall>st. ssPhase (mutate st) = TrackerPhaseReleasing \<and> ssContributors (mutate st) = ssContributors st)"
proof -
  let ?t = "updStatus (\<lambda>st. st\<lparr>ssPhase := TrackerPhaseReleasing\<rparr>) t"
  let ?mutate = "carryStatus None [] (tkStatus ?t)"
  have "\<not> (ssContributors (tkStatus t) = [] \<and> ssPhase (tkStatus t) \<noteq> TrackerPhaseReleasing)" using assms by blast
  then have "reconcileEmpty env t =
      do { s \<leftarrow> patchStatus (teClient env) ?t ?mutate; State_Monad.return (withStatus done_result s) }"
    by (simp only: reconcileEmpty_def if_False writeStatus_run)
  moreover have "ssPhase (?mutate st) = TrackerPhaseReleasing \<and> ssContributors (?mutate st) = ssContributors st" for st
    by (simp add: carryStatus_def Let_def)
  ultimately show ?thesis by blast
qed

text \<open>The same for a tracker with one stale record.\<close>

theorem empty_pass_never_ends_witness:
  "let t = sample_tracker (no_status\<lparr>ssContributors := [sample_record ''u'' 1], ssPhase := TrackerPhaseApplied\<rparr>)
   in \<exists>t' mutate. reconcileEmpty mem_env t =
        do { s \<leftarrow> patchStatus (teClient mem_env) t' mutate; State_Monad.return (withStatus done_result s) } \<and>
      (\<forall>st. ssPhase (mutate st) = TrackerPhaseReleasing \<and> ssContributors (mutate st) = ssContributors st)"
proof -
  let ?t = "sample_tracker (no_status\<lparr>ssContributors := [sample_record ''u'' 1], ssPhase := TrackerPhaseApplied\<rparr>)"
  have "ssContributors (tkStatus ?t) \<noteq> [] \<or> ssPhase (tkStatus ?t) = TrackerPhaseReleasing"
    by (simp add: sample_tracker_def)
  from empty_pass_never_ends[OF this, of mem_env] show ?thesis unfolding Let_def .
qed

end
