(* ===== verification/Promotion.thy ===== *)
theory Promotion
  imports StatusLaws
begin

text \<open>
  The contributor side of a promotion (\<^verbatim>\<open>internal/controller/promotion.go\<close>): fence the namespaced
  tracker, create its cluster-scoped successor, let it adopt the state, and mark the fence adopted. The
  tracker side, \<open>finishPromotion\<close>, is in \<^verbatim>\<open>Tracker\<close>.
\<close>

section \<open>Environment\<close>

text \<open>
  What the contributor reconciler is built with: its cached client, the uncached reader if there is
  one, the digest, the clock reading of the pass, the RESTMapper (the resource of a kind, and whether it is
  namespaced), the parser of group versions, the listing of targets and of namespaces by selector, how an error list reads as one error,
  the reauthorizer with its interval, and the decoder of the recorded identity.
\<close>

record 'w ContributorEnv =
  ceClient :: "'w KubeClient"
  ceAPIReader :: "'w KubeClient option"
  ceSha :: "string \<Rightarrow> string"
  ceNow :: Time
  ceRESTMapping :: "string \<times> string \<Rightarrow> string \<Rightarrow> (goerror, string \<times> bool) result"
  ceParseGroupVersion :: "string \<Rightarrow> (goerror, string \<times> string) result"
  ceParseSelector :: "LabelSelector \<Rightarrow> (goerror, unit) result"
  ceListTargets :: "string \<times> string \<Rightarrow> string \<Rightarrow> LabelSelector option \<Rightarrow> string option \<Rightarrow> ('w, (string \<times> string) list) io"
  ceListNamespaces :: "LabelSelector \<Rightarrow> ('w, string list) io"
  ceAggregate :: "FieldError list \<Rightarrow> string"
  ceReauthorizeAfter :: int
  ceAuthorizer :: "(UserInfo \<Rightarrow> Contributor \<Rightarrow> ('w, bool \<times> string) io) option"
  ceUnmarshalIdentity :: "string \<Rightarrow> RecordedIdentity option"

definition reader :: "'w ContributorEnv \<Rightarrow> 'w KubeClient" where
  "reader env = (case ceAPIReader env of Some r \<Rightarrow> r | None \<Rightarrow> ceClient env)"

section \<open>Adoption\<close>

text \<open>The revert state a record of the successor is missing, from the predecessor's record.\<close>

definition adoptRecord :: "ContributorStatus \<Rightarrow> ContributorStatus \<Rightarrow> ContributorStatus" where
  "adoptRecord src existing =
     (let e1 = (if \<not> csPriorValuesCaptured existing \<and> (csPriorValuesCaptured src \<or> csPriorValues src \<noteq> None)
                then existing\<lparr>csPriorValues := (if csPriorValues src \<noteq> None then csPriorValues src else csPriorValues existing),
                       csPriorValuesCaptured := True\<rparr>
                else existing);
          e2 = (if csOwnedPaths e1 = [] then e1\<lparr>csOwnedPaths := csOwnedPaths src\<rparr> else e1);
          e3 = (if csLastAppliedHash e2 = '''' then e2\<lparr>csLastAppliedHash := csLastAppliedHash src\<rparr> else e2)
      in if csFieldManager e3 = '''' then e3\<lparr>csFieldManager := csFieldManager src\<rparr> else e3)"

fun adoptInto :: "ContributorStatus \<Rightarrow> ContributorStatus list \<Rightarrow> ContributorStatus list" where
  "adoptInto src [] = [src]"
| "adoptInto src (c # cs) =
     (if SameContributor (csPatchRef c) (csPatchRef src) then adoptRecord src c # cs else c # adoptInto src cs)"

definition adoptStatus ::
  "Time \<Rightarrow> SharedResourceStatus \<Rightarrow> SharedResourceStatus \<Rightarrow> string \<Rightarrow> string \<Rightarrow> SharedResourceStatus" where
  "adoptStatus now dst src srcNamespace srcName =
     (let d1 = (if \<not> ssCreatedByOperator dst \<and> ssCreatedByOperator src then dst\<lparr>ssCreatedByOperator := True\<rparr> else dst);
          d2 = (if ssCreatorPatchRef d1 = None \<and> ssCreatorPatchRef src \<noteq> None
                then d1\<lparr>ssCreatorPatchRef := ssCreatorPatchRef src\<rparr> else d1);
          d3 = (if ssObservedBaseHash d2 = '''' then d2\<lparr>ssObservedBaseHash := ssObservedBaseHash src\<rparr> else d2);
          d4 = (if ssObservedTargetUID d3 = '''' then d3\<lparr>ssObservedTargetUID := ssObservedTargetUID src\<rparr> else d3);
          d5 = (if ssObservedResourceVersion d4 = ''''
                then d4\<lparr>ssObservedResourceVersion := ssObservedResourceVersion src\<rparr> else d4);
          d6 = d5\<lparr>ssContributors := fold adoptInto (ssContributors src) (ssContributors d5)\<rparr>;
          d7 = d6\<lparr>ssContributorCount := int (length (ssContributors d6)), ssPromotedTo := None\<rparr>;
          d8 = (if ssPhase d7 = TrackerPhaseOther '''' \<or> ssPhase d7 = TrackerPhasePromoting
                then d7\<lparr>ssPhase := TrackerPhaseApplied\<rparr> else d7)
      in setTrackerCond now ''Synced'' ConditionTrue ''AdoptedFromPromotion''
           (Sprintf ''adopted %d contributor(s) from SharedResource %s/%s''
              [Itoa (int (length (ssContributors d8))), srcNamespace, srcName]) d8)"

section \<open>The steps of a promotion\<close>

definition fenceStatus :: "Time \<Rightarrow> string \<Rightarrow> SharedResourceStatus \<Rightarrow> SharedResourceStatus" where
  "fenceStatus now successor st =
     setTrackerCond now ''Synced'' ConditionFalse ''Promoting''
       ''a ClusterResourcePatch joined this target; migrating to a ClusterSharedResource''
       (st\<lparr>ssPromotedTo := Some \<lparr>prName = successor, prAdopted = False\<rparr>, ssPhase := TrackerPhasePromoting\<rparr>)"

text \<open>An update as the body of a retry: an error, or done.\<close>

definition asAttempt :: "(goerror, 'a) result \<Rightarrow> goerror option \<times> unit" where
  "asAttempt r = (case r of Inl e \<Rightarrow> (Some e, ()) | Inr _ \<Rightarrow> (None, ()))"

definition fenceOnce :: "'w ContributorEnv \<Rightarrow> string \<Rightarrow> string \<Rightarrow> unit \<Rightarrow> ('w, goerror option \<times> unit) state" where
  "fenceOnce env namespace trackerName _ =
     do {
       g \<leftarrow> kcGetTracker (reader env) False namespace trackerName;
       case g of
         Inl e \<Rightarrow> State_Monad.return (Some e, ())
       | Inr old \<Rightarrow>
           if ssPromotedTo (tkStatus old) \<noteq> None then State_Monad.return (None, ())
           else do {
             u \<leftarrow> kcUpdateTrackerStatus (ceClient env) (updStatus (fenceStatus (ceNow env) trackerName) old);
             State_Monad.return (asAttempt u)
           }
     }"

definition successorFor :: "string \<Rightarrow> TargetKey \<Rightarrow> Tracker" where
  "successorFor clusterName key =
     \<lparr>tkCluster = True, tkMeta = AddFinalizer TrackerFinalizer (no_meta\<lparr>omName := clusterName\<rparr>),
      tkSpec = \<lparr>srTargetRef = \<lparr>ttAPIVersion = kyAPIVersion key, ttKind = kyKind key, ttName = kyName key,
        ttNamespace = kyNamespace key\<rparr>\<rparr>,
      tkStatus = no_status\<rparr>"

definition adoptOnce :: "'w ContributorEnv \<Rightarrow> Tracker \<Rightarrow> string \<Rightarrow> unit \<Rightarrow> ('w, goerror option \<times> unit) state" where
  "adoptOnce env old clusterName _ =
     do {
       g \<leftarrow> kcGetTracker (reader env) True '''' clusterName;
       case g of
         Inl e \<Rightarrow> State_Monad.return (Some e, ())
       | Inr current \<Rightarrow>
           do {
             u \<leftarrow> kcUpdateTrackerStatus (ceClient env)
                   (updStatus (\<lambda>st. adoptStatus (ceNow env) st (tkStatus old) (omNamespace (tkMeta old)) (omName (tkMeta old))) current);
             State_Monad.return (asAttempt u)
           }
     }"

definition fromAttempt :: "goerror option \<times> unit \<Rightarrow> (goerror, unit) result" where
  "fromAttempt r = (case fst r of Some e \<Rightarrow> Inl e | None \<Rightarrow> Inr ())"

definition isAdopted :: "SharedResourceStatus \<Rightarrow> bool" where
  "isAdopted st \<longleftrightarrow> (case ssPromotedTo st of Some p \<Rightarrow> prAdopted p | None \<Rightarrow> False)"

definition createSuccessor :: "'w ContributorEnv \<Rightarrow> Tracker \<Rightarrow> string \<Rightarrow> TargetKey \<Rightarrow> ('w, unit) io" where
  "createSuccessor env old clusterName key =
     (if isAdopted (tkStatus old) then State_Monad.return (Inr ())
      else do {
        g \<leftarrow> kcGetTracker (ceClient env) True '''' clusterName;
        made \<leftarrow> (case g of
            Inl e \<Rightarrow>
              if IsNotFound e then
                do {
                  c \<leftarrow> kcCreateTracker (ceClient env) (successorFor clusterName key);
                  State_Monad.return
                    (case c of
                       Inl e' \<Rightarrow> if IsAlreadyExists e' then Inr () else Inl (Errorw ''creating successor %s: %w'' [clusterName] e')
                     | Inr _ \<Rightarrow> Inr ())
                }
              else State_Monad.return (Inl e)
          | Inr _ \<Rightarrow> State_Monad.return (Inr ()));
        case made of
          Inl e \<Rightarrow> State_Monad.return (Inl e)
        | Inr _ \<Rightarrow>
            do {
              r \<leftarrow> retryOnConflict DefaultBackoff (adoptOnce env old clusterName) ();
              State_Monad.return (fromAttempt r)
            }
      })"

definition markAdopted :: "SharedResourceStatus \<Rightarrow> SharedResourceStatus" where
  "markAdopted st = st\<lparr>ssPromotedTo := map_option (\<lambda>p. p\<lparr>prAdopted := True\<rparr>) (ssPromotedTo st)\<rparr>"

definition markOnce :: "'w ContributorEnv \<Rightarrow> string \<Rightarrow> string \<Rightarrow> unit \<Rightarrow> ('w, goerror option \<times> unit) state" where
  "markOnce env namespace trackerName _ =
     do {
       g \<leftarrow> kcGetTracker (reader env) False namespace trackerName;
       case g of
         Inl e \<Rightarrow> State_Monad.return (IgnoreNotFound e, ())
       | Inr current \<Rightarrow>
           if ssPromotedTo (tkStatus current) = None \<or> isAdopted (tkStatus current) then State_Monad.return (None, ())
           else do {
             u \<leftarrow> kcUpdateTrackerStatus (ceClient env) (updStatus markAdopted current);
             State_Monad.return (asAttempt u)
           }
     }"

definition promoteIfNeeded :: "'w ContributorEnv \<Rightarrow> TargetKey \<Rightarrow> ('w, unit) io" where
  "promoteIfNeeded env key =
     (let trackerName = TrackerName (ceSha env) key; namespace = kyNamespace key
      in do {
        f \<leftarrow> retryOnConflict DefaultBackoff (fenceOnce env namespace trackerName) ();
        case fst f of
          Some e \<Rightarrow>
            State_Monad.return
              (if IsNotFound e then Inr () else Inl (Errorw ''fencing tracker %s: %w'' [namespace @ ''/'' @ trackerName] e))
        | None \<Rightarrow>
            do {
              g \<leftarrow> kcGetTracker (reader env) False namespace trackerName;
              case g of
                Inl e \<Rightarrow> State_Monad.return (case IgnoreNotFound e of None \<Rightarrow> Inr () | Some e' \<Rightarrow> Inl e')
              | Inr old \<Rightarrow>
                  do {
                    c \<leftarrow> createSuccessor env old trackerName key;
                    case c of
                      Inl e \<Rightarrow> State_Monad.return (Inl e)
                    | Inr _ \<Rightarrow>
                        do {
                          m \<leftarrow> retryOnConflict DefaultBackoff (markOnce env namespace trackerName) ();
                          State_Monad.return (fromAttempt m)
                        }
                  }
            }
      })"

end
