(* ===== verification/PromotionLaws.thy ===== *)
theory PromotionLaws
  imports Promotion
begin

text \<open>
  What a promotion promises: the adoption hands over exactly the state that cannot be derived again;
  the two controllers, however their calls interleave, follow a protocol that never loses the
  provenance; and the one step of that protocol that can leave two trackers writing.
\<close>

section \<open>What adoption hands over\<close>

lemma adoptRecord_ref [simp]: "csPatchRef (adoptRecord src c) = csPatchRef c"
  by (simp add: adoptRecord_def Let_def)

definition has_uid :: "ContributorStatus \<Rightarrow> bool" where
  "has_uid c \<longleftrightarrow> crUID (csPatchRef c) \<noteq> ''''"

definition recordOfRef :: "ContributorRef \<Rightarrow> ContributorStatus list \<Rightarrow> ContributorStatus option" where
  "recordOfRef r cs = find (\<lambda>c. SameContributor (csPatchRef c) r) cs"

lemma FindContributor_record: "FindContributor s r = recordOfRef r (ssContributors s)"
  by (simp add: FindContributor_def recordOfRef_def)

lemma adoptInto_find:
  assumes "list_all has_uid cs" and "has_uid src" and "crUID r \<noteq> ''''"
  shows "recordOfRef r (adoptInto src cs) =
    (if crUID r = crUID (csPatchRef src)
     then Some (case recordOfRef r cs of None \<Rightarrow> src | Some c \<Rightarrow> adoptRecord src c)
     else recordOfRef r cs)"
  using assms by (induction cs) (auto simp: recordOfRef_def SameContributor_def has_uid_def)

lemma adoptInto_uids: "list_all has_uid cs \<Longrightarrow> has_uid src \<Longrightarrow> list_all has_uid (adoptInto src cs)"
  by (induction cs) (auto simp: has_uid_def)

lemma adopt_fold_find:
  assumes "list_all has_uid cs" and "list_all has_uid srcs" and "crUID r \<noteq> ''''"
    and "distinct (map (\<lambda>s. crUID (csPatchRef s)) srcs)"
  shows "recordOfRef r (fold adoptInto srcs cs) =
    (case recordOfRef r srcs of
       None \<Rightarrow> recordOfRef r cs
     | Some s \<Rightarrow> Some (case recordOfRef r cs of None \<Rightarrow> s | Some c \<Rightarrow> adoptRecord s c))"
  using assms
proof (induction srcs arbitrary: cs)
  case (Cons s srcs)
  have IH: "recordOfRef r (fold adoptInto srcs (adoptInto s cs)) =
      (case recordOfRef r srcs of
         None \<Rightarrow> recordOfRef r (adoptInto s cs)
       | Some s' \<Rightarrow> Some (case recordOfRef r (adoptInto s cs) of None \<Rightarrow> s' | Some c \<Rightarrow> adoptRecord s' c))"
    using Cons by (intro Cons.IH) (simp_all add: adoptInto_uids)
  have find: "recordOfRef r (adoptInto s cs) =
    (if crUID r = crUID (csPatchRef s) then Some (case recordOfRef r cs of None \<Rightarrow> s | Some c \<Rightarrow> adoptRecord s c)
     else recordOfRef r cs)"
    using Cons.prems by (intro adoptInto_find) simp_all
  have same: "SameContributor (csPatchRef s) r \<longleftrightarrow> crUID r = crUID (csPatchRef s)"
    using Cons.prems by (auto simp: SameContributor_def has_uid_def)
  have "recordOfRef r srcs = None" if "crUID r = crUID (csPatchRef s)"
  proof -
    have "crUID (csPatchRef x) \<noteq> crUID r" if "x \<in> set srcs" for x
    proof -
      have "crUID (csPatchRef x) \<in> (\<lambda>s. crUID (csPatchRef s)) ` set srcs" using that by blast
      then show ?thesis using Cons.prems(4) \<open>crUID r = crUID (csPatchRef s)\<close> by (auto simp del: imageE)
    qed
    then show ?thesis
      using Cons.prems(2,3) by (auto simp: recordOfRef_def find_None_iff SameContributor_def has_uid_def list_all_iff)
  qed
  moreover have "recordOfRef r (s # srcs) = (if crUID r = crUID (csPatchRef s) then Some s else recordOfRef r srcs)"
    using same by (simp add: recordOfRef_def)
  ultimately show ?case using IH find by (simp cong: option.case_cong)
qed (simp add: recordOfRef_def)



section \<open>The protocol\<close>

text \<open>
  The two trackers of one target as the API server stores their status, and where the contributor
  controller is in a promotion: about to read the fenced tracker, holding the copy it read, with the
  successor known to exist, or about to mark. A step is one call, of either controller; \<open>Idle\<close> is also
  where an error or a restart leads. With \<open>patient\<close> the tracker controller does not unfence while a
  promotion runs, which the code does not ensure.
\<close>

datatype promoter = Idle | Fenced | Copied SharedResourceStatus | Created SharedResourceStatus | Marking

record Promo =
  pmOld :: "SharedResourceStatus option"
  pmNew :: "SharedResourceStatus option"
  pmAt :: promoter

inductive promo_step :: "bool \<Rightarrow> Promo \<Rightarrow> Promo \<Rightarrow> bool" for patient where
  fence: "pmOld p = Some s \<Longrightarrow> ssPromotedTo s = None \<Longrightarrow> pmAt p = Idle \<Longrightarrow>
     promo_step patient p (p\<lparr>pmOld := Some (fenceStatus now n s), pmAt := Fenced\<rparr>)"
| fenced_already: "pmOld p = Some s \<Longrightarrow> ssPromotedTo s \<noteq> None \<Longrightarrow> pmAt p = Idle \<Longrightarrow>
     promo_step patient p (p\<lparr>pmAt := Fenced\<rparr>)"
| copy: "pmOld p = Some s \<Longrightarrow> \<not> isAdopted s \<Longrightarrow> pmAt p = Fenced \<Longrightarrow> promo_step patient p (p\<lparr>pmAt := Copied s\<rparr>)"
| create: "pmAt p = Copied s \<Longrightarrow> pmNew p = None \<Longrightarrow>
     promo_step patient p (p\<lparr>pmNew := Some no_status, pmAt := Created s\<rparr>)"
| exists: "pmAt p = Copied s \<Longrightarrow> pmNew p = Some d \<Longrightarrow> promo_step patient p (p\<lparr>pmAt := Created s\<rparr>)"
| adopt: "pmAt p = Created s \<Longrightarrow> pmNew p = Some d \<Longrightarrow>
     promo_step patient p (p\<lparr>pmNew := Some (adoptStatus now d s ns n), pmAt := Marking\<rparr>)"
| mark: "pmAt p = Marking \<Longrightarrow> pmOld p = Some s \<Longrightarrow> ssPromotedTo s \<noteq> None \<Longrightarrow>
     promo_step patient p (p\<lparr>pmOld := Some (markAdopted s), pmAt := Idle\<rparr>)"
| give_up: "promo_step patient p (p\<lparr>pmAt := Idle\<rparr>)"
| unfence: "pmOld p = Some s \<Longrightarrow> ssPromotedTo s \<noteq> None \<Longrightarrow> pmNew p = None \<Longrightarrow> (patient \<longrightarrow> pmAt p = Idle) \<Longrightarrow>
     promo_step patient p (p\<lparr>pmOld := Some (s\<lparr>ssPromotedTo := None, ssPhase := TrackerPhaseApplied\<rparr>)\<rparr>)"
| retire: "pmOld p = Some s \<Longrightarrow> isAdopted s \<Longrightarrow> pmNew p \<noteq> None \<Longrightarrow> promo_step patient p (p\<lparr>pmOld := None\<rparr>)"
| old_writes: "pmOld p = Some s \<Longrightarrow> ssPromotedTo s = None \<Longrightarrow>
     promo_step patient p (p\<lparr>pmOld := Some (carryStatus rs cs computed s)\<rparr>)"
| old_creates: "pmOld p = Some s \<Longrightarrow> ssPromotedTo s = None \<Longrightarrow>
     promo_step patient p (p\<lparr>pmOld := Some (provenance c h s)\<rparr>)"
| new_writes: "pmNew p = Some d \<Longrightarrow> promo_step patient p (p\<lparr>pmNew := Some (carryStatus rs cs computed d)\<rparr>)"
| new_creates: "pmNew p = Some d \<Longrightarrow> promo_step patient p (p\<lparr>pmNew := Some (provenance c h d)\<rparr>)"

text \<open>A promotion starts with the namespaced tracker alone, unfenced.\<close>

inductive promo_reachable :: "bool \<Rightarrow> Promo \<Rightarrow> bool" for patient where
  start: "ssPromotedTo s = None \<Longrightarrow> promo_reachable patient \<lparr>pmOld = Some s, pmNew = None, pmAt = Idle\<rparr>"
| step: "promo_reachable patient p \<Longrightarrow> promo_step patient p q \<Longrightarrow> promo_reachable patient q"

text \<open>The successor knows what the predecessor knew of who created the target.\<close>

definition knows :: "SharedResourceStatus \<Rightarrow> SharedResourceStatus \<Rightarrow> bool" where
  "knows d s \<longleftrightarrow> (ssCreatedByOperator s \<longrightarrow> ssCreatedByOperator d) \<and>
     (ssCreatorPatchRef s \<noteq> None \<longrightarrow> ssCreatorPatchRef d \<noteq> None)"

definition same_provenance :: "SharedResourceStatus \<Rightarrow> SharedResourceStatus \<Rightarrow> bool" where
  "same_provenance s t \<longleftrightarrow> ssCreatedByOperator s = ssCreatedByOperator t \<and> ssCreatorPatchRef s = ssCreatorPatchRef t"

definition known_to :: "SharedResourceStatus option \<Rightarrow> SharedResourceStatus \<Rightarrow> bool" where
  "known_to new s \<longleftrightarrow> (\<exists>d. new = Some d \<and> knows d s)"

definition promo_inv :: "Promo \<Rightarrow> bool" where
  "promo_inv p \<longleftrightarrow>
     (\<forall>s. pmOld p = Some s \<longrightarrow> ssPromotedTo s \<noteq> None \<longrightarrow>
        (isAdopted s \<or> pmAt p = Marking \<longrightarrow> known_to (pmNew p) s) \<and>
        (\<forall>c. pmAt p = Copied c \<or> pmAt p = Created c \<longrightarrow> same_provenance c s))"

lemma provenance_kept:
  "ssCreatedByOperator d \<Longrightarrow> ssCreatedByOperator (carryStatus rs cs computed d)"
  "ssCreatorPatchRef d \<noteq> None \<Longrightarrow> ssCreatorPatchRef (carryStatus rs cs computed d) \<noteq> None"
  "ssPromotedTo (carryStatus rs cs computed d) = ssPromotedTo d"
  "ssCreatedByOperator (provenance c h d)" "ssCreatorPatchRef (provenance c h d) \<noteq> None"
  "ssPromotedTo (provenance c h d) = ssPromotedTo d"
  by (auto simp: carryStatus_def provenance_def Let_def split: option.split)

lemma known_to_simps [simp]: "\<not> known_to None s" "known_to (Some d) s = knows d s"
  by (simp_all add: known_to_def)

lemma knows_kept:
  "knows d s \<Longrightarrow> knows (carryStatus rs cs computed d) s" "knows d s \<Longrightarrow> knows (provenance c h d) s"
  using provenance_kept by (auto simp: knows_def)

lemma knows_adopted: "same_provenance c s \<Longrightarrow> knows (adoptStatus now d c ns n) s"
  by (auto simp: knows_def same_provenance_def adoptStatus_def setTrackerCond_def Let_def)

lemma mark_fields:
  "ssPromotedTo (markAdopted s) = map_option (\<lambda>p. p\<lparr>prAdopted := True\<rparr>) (ssPromotedTo s)"
  "known_to new (markAdopted s) = known_to new s" "same_provenance c (markAdopted s) = same_provenance c s"
  by (simp_all add: known_to_def knows_def same_provenance_def markAdopted_def)

lemma fence_fields:
  "ssPromotedTo (fenceStatus now n s) = Some \<lparr>prName = n, prAdopted = False\<rparr>" "\<not> isAdopted (fenceStatus now n s)"
  "ssPromotedTo (markAdopted s) = None \<longleftrightarrow> ssPromotedTo s = None" "isAdopted s \<Longrightarrow> ssPromotedTo s \<noteq> None"
  by (auto simp: fenceStatus_def setTrackerCond_def isAdopted_def markAdopted_def split: option.splits)

lemma promo_inv_step: "promo_step patient p q \<Longrightarrow> promo_inv p \<Longrightarrow> promo_inv q"
proof (induction rule: promo_step.induct)
  case (fence p s now n)
  then show ?case by (simp add: promo_inv_def fence_fields)
next
  case (fenced_already p s)
  then show ?case by (simp add: promo_inv_def)
next
  case (copy p s)
  then show ?case by (simp add: promo_inv_def same_provenance_def)
next
  case (create p s)
  then show ?case by (auto simp: promo_inv_def)
next
  case (exists p s d)
  then show ?case by (simp add: promo_inv_def)
next
  case (adopt p s d now ns n)
  then show ?case by (auto simp: promo_inv_def intro: knows_adopted)
next
  case (mark p s)
  then show ?case by (simp add: promo_inv_def mark_fields)
next
  case (give_up p)
  then show ?case by (simp add: promo_inv_def)
next
  case (unfence p s)
  then show ?case by (simp add: promo_inv_def)
next
  case (retire p s)
  then show ?case by (simp add: promo_inv_def)
next
  case (old_writes p s rs cs computed)
  then show ?case by (simp add: promo_inv_def provenance_kept)
next
  case (old_creates p s c h)
  then show ?case by (simp add: promo_inv_def provenance_kept)
next
  case (new_writes p d rs cs computed)
  then show ?case by (simp add: promo_inv_def knows_kept)
next
  case (new_creates p d c h)
  then show ?case by (simp add: promo_inv_def knows_kept)
qed

lemma promo_inv_reachable: "promo_reachable patient p \<Longrightarrow> promo_inv p"
proof (induction rule: promo_reachable.induct)
  case (start s)
  then show ?case by (simp add: promo_inv_def)
qed (rule promo_inv_step)


definition one_writer :: "Promo \<Rightarrow> bool" where
  "one_writer p \<longleftrightarrow> (pmAt p \<noteq> Idle \<or> pmNew p \<noteq> None \<longrightarrow> (\<forall>s. pmOld p = Some s \<longrightarrow> IsFenced s))"

lemma one_writer_step: "promo_step True p q \<Longrightarrow> one_writer p \<Longrightarrow> one_writer q"
  by (induction rule: promo_step.induct)
    (auto simp: one_writer_def IsFenced_def fence_fields provenance_kept isAdopted_def markAdopted_def)

text \<open>
  Two trackers never write at once, provided that the tracker controller does not unfence while a
  promotion is running: once the successor exists, the namespaced tracker is fenced or gone.
\<close>

theorem promotion_one_writer:
  assumes "promo_reachable True p" and "pmNew p = Some d" and "pmOld p = Some s"
  shows "IsFenced s"
proof -
  have "one_writer p"
    using assms(1)
  proof (induction rule: promo_reachable.induct)
    case (start s)
    show ?case by (simp add: one_writer_def)
  qed (rule one_writer_step)
  then show ?thesis using assms(2,3) by (simp add: one_writer_def)
qed

subsection \<open>Runs of the protocol\<close>

definition created_status :: SharedResourceStatus where
  "created_status = no_status\<lparr>ssCreatedByOperator := True, ssCreatorPatchRef := Some (csPatchRef (sample_record ''u'' 1))\<rparr>"

abbreviation "fenced_sample \<equiv> fenceStatus 1 ''t'' created_status"

lemma sample_fenced: "promo_reachable patient \<lparr>pmOld = Some fenced_sample, pmNew = None, pmAt = Copied fenced_sample\<rparr>"
proof -
  let ?p = "\<lparr>pmOld = Some created_status, pmNew = None, pmAt = Idle\<rparr>"
  have start: "promo_reachable patient ?p"
    by (rule promo_reachable.start) (simp add: created_status_def no_status_def)
  have "promo_step patient ?p (?p\<lparr>pmOld := Some fenced_sample, pmAt := Fenced\<rparr>)"
    by (rule promo_step.fence) (simp_all add: created_status_def no_status_def)
  note fenced = promo_reachable.step[OF start this]
  have "promo_step patient \<lparr>pmOld = Some fenced_sample, pmNew = None, pmAt = Fenced\<rparr>
      (\<lparr>pmOld = Some fenced_sample, pmNew = None, pmAt = Fenced\<rparr>\<lparr>pmAt := Copied fenced_sample\<rparr>)"
    by (rule promo_step.copy) (simp_all add: fence_fields)
  with fenced show ?thesis by (auto intro: promo_reachable.step)
qed

lemma sample_promoted:
  "\<exists>d. promo_reachable patient \<lparr>pmOld = Some (markAdopted fenced_sample), pmNew = Some d, pmAt = Idle\<rparr>"
proof -
  let ?p = "\<lparr>pmOld = Some fenced_sample, pmNew = None, pmAt = Copied fenced_sample\<rparr>"
  let ?d = "adoptStatus 2 no_status fenced_sample ''ns'' ''t''"
  have "promo_step patient ?p (?p\<lparr>pmNew := Some no_status, pmAt := Created fenced_sample\<rparr>)"
    by (rule promo_step.create) simp_all
  note q = promo_reachable.step[OF sample_fenced this]
  have "promo_step patient \<lparr>pmOld = Some fenced_sample, pmNew = Some no_status, pmAt = Created fenced_sample\<rparr>
      (\<lparr>pmOld = Some fenced_sample, pmNew = Some no_status, pmAt = Created fenced_sample\<rparr>\<lparr>pmNew := Some ?d, pmAt := Marking\<rparr>)"
    by (rule promo_step.adopt) simp_all
  with q have q2: "promo_reachable patient \<lparr>pmOld = Some fenced_sample, pmNew = Some ?d, pmAt = Marking\<rparr>"
    by (auto intro: promo_reachable.step)
  have "promo_step patient \<lparr>pmOld = Some fenced_sample, pmNew = Some ?d, pmAt = Marking\<rparr>
      (\<lparr>pmOld = Some fenced_sample, pmNew = Some ?d, pmAt = Marking\<rparr>\<lparr>pmOld := Some (markAdopted fenced_sample), pmAt := Idle\<rparr>)"
    by (rule promo_step.mark) (simp_all add: fence_fields)
  with q2 show ?thesis by (auto intro: promo_reachable.step)
qed


text \<open>The same after a promotion without disturbance.\<close>

theorem promotion_one_writer_witness:
  "\<exists>d. promo_reachable True \<lparr>pmOld = Some (markAdopted fenced_sample), pmNew = Some d, pmAt = Idle\<rparr> \<and>
     IsFenced (markAdopted fenced_sample)"
proof -
  obtain d where d: "promo_reachable True \<lparr>pmOld = Some (markAdopted fenced_sample), pmNew = Some d, pmAt = Idle\<rparr>" (is "promo_reachable True ?p")
    using sample_promoted by blast
  have "pmNew ?p = Some d" "pmOld ?p = Some (markAdopted fenced_sample)" by simp_all
  with promotion_one_writer[OF d] d show ?thesis by blast
qed

section \<open>The code follows the protocol\<close>

text \<open>A server that holds the two trackers of one target.\<close>

record Duo =
  duOld :: "Tracker option"
  duNew :: "Tracker option"

definition duo_put :: "Tracker \<Rightarrow> Duo \<Rightarrow> Duo" where
  "duo_put t w = (if tkCluster t then w\<lparr>duNew := Some t\<rparr> else w\<lparr>duOld := Some t\<rparr>)"

definition duo_get :: "bool \<Rightarrow> Duo \<Rightarrow> Tracker option" where
  "duo_get cluster w = (if cluster then duNew w else duOld w)"

definition duo_store :: "(Tracker \<Rightarrow> Tracker \<Rightarrow> Tracker) \<Rightarrow> Tracker \<Rightarrow> (Duo, Tracker) io" where
  "duo_store change t = State (\<lambda>w.
     case duo_get (tkCluster t) w of
       None \<Rightarrow> (Inl (NewNotFound ''trackers'' (omName (tkMeta t))), w)
     | Some old \<Rightarrow> (Inr (change t old), duo_put (change t old) w))"

definition duo_client :: "Duo KubeClient \<Rightarrow> Duo KubeClient" where
  "duo_client cl =
     cl\<lparr>kcGetTracker := \<lambda>cluster ns n. State (\<lambda>w.
         (case duo_get cluster w of None \<Rightarrow> Inl (NewNotFound ''trackers'' n) | Some t \<Rightarrow> Inr t, w)),
       kcCreateTracker := \<lambda>t. State (\<lambda>w.
         case duo_get (tkCluster t) w of Some _ \<Rightarrow> (Inl mem_exists, w) | None \<Rightarrow> (Inr t, duo_put t w)),
       kcUpdateTracker := duo_store (\<lambda>t old. t\<lparr>tkStatus := tkStatus old\<rparr>),
       kcUpdateTrackerStatus := duo_store (\<lambda>t old. old\<lparr>tkStatus := tkStatus t\<rparr>),
       kcDeleteTracker := \<lambda>t. State (\<lambda>w. (Inr (), if tkCluster t then w\<lparr>duNew := None\<rparr> else w\<lparr>duOld := None\<rparr>))\<rparr>"

definition duo_abs :: "promoter \<Rightarrow> Duo \<Rightarrow> Promo" where
  "duo_abs a w = \<lparr>pmOld = map_option tkStatus (duOld w), pmNew = map_option tkStatus (duNew w), pmAt = a\<rparr>"

definition duo_ok :: "Duo \<Rightarrow> bool" where
  "duo_ok w \<longleftrightarrow> (\<forall>t. duOld w = Some t \<longrightarrow> \<not> tkCluster t) \<and> (\<forall>t. duNew w = Some t \<longrightarrow> tkCluster t)"

lemma retry_done:
  assumes "run_state (f s) w = (r, w')" and "\<And>e. fst r = Some e \<Longrightarrow> \<not> IsConflict e"
  shows "run_state (retryOnConflict n f s) w = (r, w')"
  using assms by (cases n) (auto split: option.split)

lemmas duo_defs = duo_client_def duo_get_def duo_put_def duo_store_def

text \<open>
  The tracker controller's part of a promotion refines the protocol: \<open>finishPromotion\<close> on the stored
  fenced tracker is, on the two stored statuses, no step, an unfencing or a retirement.
\<close>

theorem finish_promotion_refines:
  assumes "teClient env = duo_client cl" and "duo_ok w" and "duOld w = Some t"
  shows "(promo_step False)\<^sup>*\<^sup>* (duo_abs a w) (duo_abs a (snd (run_state (finishPromotion env t) w)))"
proof -
  have t: "\<not> tkCluster t" using assms(2,3) by (simp add: duo_ok_def)
  show ?thesis
  proof (cases "ssPromotedTo (tkStatus t)")
    case None
    then show ?thesis by (simp add: finishPromotion_def)
  next
    case (Some p)
    show ?thesis
    proof (cases "duNew w")
      case new: None
      have "promo_step False (duo_abs a w)
          ((duo_abs a w)\<lparr>pmOld := Some ((tkStatus t)\<lparr>ssPromotedTo := None, ssPhase := TrackerPhaseApplied\<rparr>)\<rparr>)"
        using Some new assms(3) by (intro promo_step.unfence) (simp_all add: duo_abs_def)
      moreover have "duo_abs a (snd (run_state (finishPromotion env t) w)) =
          (duo_abs a w)\<lparr>pmOld := Some ((tkStatus t)\<lparr>ssPromotedTo := None, ssPhase := TrackerPhaseApplied\<rparr>)\<rparr>"
        using Some new assms t by (simp add: finishPromotion_def duo_defs duo_abs_def)
      ultimately show ?thesis by auto
    next
      case new: (Some n)
      show ?thesis
      proof (cases "prAdopted p")
        case False
        with Some new assms show ?thesis by (simp add: finishPromotion_def duo_defs)
      next
        case True
        have "promo_step False (duo_abs a w) ((duo_abs a w)\<lparr>pmOld := None\<rparr>)"
          using Some new True assms(3) by (intro promo_step.retire[where s = "tkStatus t"]) (simp_all add: duo_abs_def isAdopted_def)
        moreover have "duo_abs a (snd (run_state (finishPromotion env t) w)) = (duo_abs a w)\<lparr>pmOld := None\<rparr>"
          using Some new True assms t
          by (simp add: finishPromotion_def duo_defs duo_abs_def dropTracker_def withoutFinalizer_def)
        ultimately show ?thesis by auto
      qed
    qed
  qed
qed

text \<open>The same for a fenced tracker whose successor is missing: one unfencing.\<close>

theorem finish_promotion_refines_witness:
  "let t = sample_tracker (no_status\<lparr>ssPromotedTo := Some \<lparr>prName = ''t'', prAdopted = False\<rparr>\<rparr>);
       w = \<lparr>duOld = Some t, duNew = None\<rparr>;
       env = \<lparr>teClient = duo_client undefined, teNewFor = None, teSha = id, teJsonpatch = undefined, teNow = 0, teIter = id\<rparr>
   in (promo_step False)\<^sup>*\<^sup>* (duo_abs Idle w) (duo_abs Idle (snd (run_state (finishPromotion env t) w)))"
proof -
  let ?t = "sample_tracker (no_status\<lparr>ssPromotedTo := Some \<lparr>prName = ''t'', prAdopted = False\<rparr>\<rparr>)"
  let ?env = "\<lparr>teClient = duo_client undefined, teNewFor = None, teSha = id, teJsonpatch = undefined, teNow = 0, teIter = id\<rparr>"
  have "teClient ?env = duo_client undefined" "duo_ok \<lparr>duOld = Some ?t, duNew = None\<rparr>" "duOld \<lparr>duOld = Some ?t, duNew = None\<rparr> = Some ?t"
    by (simp_all add: duo_ok_def sample_tracker_def)
  from finish_promotion_refines[OF this] show ?thesis unfolding Let_def .
qed

lemma markAdopted_adopted: "ssPromotedTo s \<noteq> None \<Longrightarrow> isAdopted (markAdopted s)"
  by (auto simp: isAdopted_def mark_fields)

lemma protocol_tail:
  assumes "pmOld p = Some s" and "ssPromotedTo s \<noteq> None" and "\<not> isAdopted s" and "pmAt p = Fenced"
  shows "(promo_step b)\<^sup>*\<^sup>* p (p\<lparr>pmOld := Some (markAdopted s),
    pmNew := Some (adoptStatus now (case pmNew p of Some d \<Rightarrow> d | None \<Rightarrow> no_status) s ns n), pmAt := Idle\<rparr>)"
proof -
  let ?d = "case pmNew p of Some d \<Rightarrow> d | None \<Rightarrow> no_status"
  let ?p1 = "p\<lparr>pmAt := Copied s\<rparr>" and ?p2 = "p\<lparr>pmNew := Some ?d, pmAt := Created s\<rparr>"
  let ?p3 = "p\<lparr>pmNew := Some (adoptStatus now ?d s ns n), pmAt := Marking\<rparr>"
  have 1: "promo_step b p ?p1" using assms by (intro promo_step.copy)
  have 2: "promo_step b ?p1 ?p2"
  proof (cases "pmNew p")
    case None
    have "promo_step b ?p1 (?p1\<lparr>pmNew := Some no_status, pmAt := Created s\<rparr>)"
      using None by (intro promo_step.create) simp_all
    with None show ?thesis by simp
  next
    case (Some d)
    have "promo_step b ?p1 (?p1\<lparr>pmAt := Created s\<rparr>)"
      using Some by (intro promo_step.exists) simp_all
    moreover have "?p2 = ?p1\<lparr>pmAt := Created s\<rparr>" using Some by (cases p) simp
    ultimately show ?thesis by simp
  qed
  have "promo_step b ?p2 (?p2\<lparr>pmNew := Some (adoptStatus now ?d s ns n), pmAt := Marking\<rparr>)"
    by (intro promo_step.adopt) simp_all
  then have 3: "promo_step b ?p2 ?p3" by simp
  have "promo_step b ?p3 (?p3\<lparr>pmOld := Some (markAdopted s), pmAt := Idle\<rparr>)"
    using assms(1,2) by (intro promo_step.mark) simp_all
  then have 4: "promo_step b ?p3 (p\<lparr>pmOld := Some (markAdopted s), pmNew := Some (adoptStatus now ?d s ns n), pmAt := Idle\<rparr>)"
    by (cases p) simp
  from 1 2 3 4 show ?thesis by (meson converse_rtranclp_into_rtranclp rtranclp.rtrancl_refl)
qed

lemma adopt_run:
  assumes "ceClient env = duo_client cl" and "reader env = duo_client cl'" and "duNew w = Some n" and "tkCluster n"
  shows "run_state (retryOnConflict DefaultBackoff (adoptOnce env old cn) ()) w = ((None, ()), w\<lparr>duNew := Some
    (n\<lparr>tkStatus := adoptStatus (ceNow env) (tkStatus n) (tkStatus old) (omNamespace (tkMeta old)) (omName (tkMeta old))\<rparr>)\<rparr>)"
  by (rule retry_done) (use assms in \<open>simp_all add: adoptOnce_def duo_defs asAttempt_def\<close>)

lemma create_run:
  assumes "ceClient env = duo_client cl" and "reader env = duo_client cl'" and "\<not> isAdopted (tkStatus old)"
    and "\<And>n. duNew w = Some n \<Longrightarrow> tkCluster n"
  shows "run_state (createSuccessor env old cn key) w = (Inr (), w\<lparr>duNew := Some
    ((case duNew w of Some n \<Rightarrow> n | None \<Rightarrow> successorFor cn key)\<lparr>tkStatus := adoptStatus (ceNow env)
      (case duNew w of Some n \<Rightarrow> tkStatus n | None \<Rightarrow> no_status) (tkStatus old) (omNamespace (tkMeta old)) (omName (tkMeta old))\<rparr>)\<rparr>)"
proof (cases "duNew w")
  case None
  let ?w = "w\<lparr>duNew := Some (successorFor cn key)\<rparr>"
  have "tkCluster (successorFor cn key)" "tkStatus (successorFor cn key) = no_status" by (simp_all add: successorFor_def)
  moreover note adopt_run[OF assms(1,2), of ?w "successorFor cn key" old cn]
  moreover have "run_state (kcGetTracker (duo_client cl) True '''' cn) w = (Inl (NewNotFound ''trackers'' cn), w)"
    "run_state (kcCreateTracker (duo_client cl) (successorFor cn key)) w = (Inr (successorFor cn key), ?w)"
    using None by (simp_all add: duo_defs successorFor_def)
  ultimately show ?thesis
    using None assms(1,3) by (simp add: createSuccessor_def fromAttempt_def)
next
  case (Some n)
  moreover have "run_state (kcGetTracker (duo_client cl) True '''' cn) w = (Inr n, w)"
    using Some by (simp add: duo_defs)
  ultimately show ?thesis
    using adopt_run[OF assms(1,2), of w n old cn] assms by (simp add: createSuccessor_def fromAttempt_def)
qed

definition fenced_old :: "'w ContributorEnv \<Rightarrow> TargetKey \<Rightarrow> Tracker \<Rightarrow> SharedResourceStatus" where
  "fenced_old env key t =
     (if ssPromotedTo (tkStatus t) = None then fenceStatus (ceNow env) (TrackerName (ceSha env) key) (tkStatus t) else tkStatus t)"

lemma promote_run:
  assumes "ceClient env = duo_client cl" and "reader env = duo_client cl'" and "duo_ok w" and "duOld w = Some t"
    and "\<not> isAdopted (tkStatus t)"
  shows "\<exists>w'. run_state (promoteIfNeeded env key) w = (Inr (), w') \<and> duo_ok w' \<and>
    map_option tkStatus (duOld w') = Some (markAdopted (fenced_old env key t)) \<and>
    map_option tkStatus (duNew w') = Some (adoptStatus (ceNow env)
      (case duNew w of Some n \<Rightarrow> tkStatus n | None \<Rightarrow> no_status) (fenced_old env key t) (omNamespace (tkMeta t)) (omName (tkMeta t)))"
proof -
  let ?f = "fenced_old env key t" and ?old = "t\<lparr>tkStatus := fenced_old env key t\<rparr>"
  let ?w1 = "w\<lparr>duOld := Some ?old\<rparr>"
  have c: "\<not> tkCluster t" "\<And>n. duNew w = Some n \<Longrightarrow> tkCluster n" using assms(3,4) by (simp_all add: duo_ok_def)
  have f: "ssPromotedTo ?f \<noteq> None" "\<not> isAdopted ?f"
    using assms(5) by (auto simp: fenced_old_def fence_fields)
  obtain y where y: "ssPromotedTo ?f = Some y" using f(1) by blast
  have 1: "run_state (retryOnConflict DefaultBackoff (fenceOnce env (kyNamespace key) (TrackerName (ceSha env) key)) ()) w = ((None, ()), ?w1)"
    by (rule retry_done) (use assms c in \<open>simp_all add: fenceOnce_def duo_defs asAttempt_def fenced_old_def\<close>)
  have 2: "run_state (createSuccessor env ?old (TrackerName (ceSha env) key) key) ?w1 =
      (Inr (), ?w1\<lparr>duNew := Some ((case duNew w of Some n \<Rightarrow> n | None \<Rightarrow> successorFor (TrackerName (ceSha env) key) key)
        \<lparr>tkStatus := adoptStatus (ceNow env) (case duNew w of Some n \<Rightarrow> tkStatus n | None \<Rightarrow> no_status) ?f (omNamespace (tkMeta t)) (omName (tkMeta t))\<rparr>)\<rparr>)"
    (is "_ = (_, ?w2)")
    using create_run[OF assms(1,2), of ?old ?w1 "TrackerName (ceSha env) key" key] f c by simp
  have 3: "run_state (retryOnConflict DefaultBackoff (markOnce env (kyNamespace key) (TrackerName (ceSha env) key)) ()) ?w2 =
      ((None, ()), ?w2\<lparr>duOld := Some (?old\<lparr>tkStatus := markAdopted ?f\<rparr>)\<rparr>)"
    (is "_ = (_, ?w3)")
    by (rule retry_done) (use assms c f(2) y in \<open>simp_all add: markOnce_def duo_defs asAttempt_def\<close>)
  have "duo_ok ?w3" using c by (simp add: duo_ok_def successorFor_def split: option.split)
  with 1 2 3 assms(2) show ?thesis
    by (simp add: promoteIfNeeded_def Let_def duo_client_def duo_get_def fromAttempt_def)
qed


definition duo_contributor_env :: "Duo KubeClient \<Rightarrow> Duo ContributorEnv" where
  "duo_contributor_env cl =
     \<lparr>ceClient = cl, ceAPIReader = Some (duo_client undefined), ceSha = id, ceNow = 0, ceRESTMapping = \<lambda>_ _. Inr ('''', True),
      ceParseGroupVersion = \<lambda>v. Inr ('''', v), ceParseSelector = \<lambda>_. Inr (),
      ceListTargets = \<lambda>_ _ _ _. State_Monad.return (Inr []), ceListNamespaces = \<lambda>_. State_Monad.return (Inr []),
      ceAggregate = \<lambda>_. '''', ceReauthorizeAfter = 0, ceAuthorizer = None, ceUnmarshalIdentity = \<lambda>_. None\<rparr>"

definition duo_tracker_env :: "Duo TrackerEnv" where
  "duo_tracker_env = \<lparr>teClient = duo_client undefined, teNewFor = None, teSha = id, teJsonpatch = undefined, teNow = 0, teIter = id\<rparr>"

definition sample_key :: TargetKey where
  "sample_key = \<lparr>kyAPIVersion = ''v1'', kyKind = ''ConfigMap'', kyNamespace = ''team-a'', kyName = ''cm''\<rparr>"


section \<open>Two writers\<close>

text \<open>
  The tracker controller handles the namespaced tracker between the commit of the fence and the look
  for the successor: the contributor controller's client, with that pass before its read of the successor.
\<close>

definition racing_client :: "Duo TrackerEnv \<Rightarrow> string \<Rightarrow> string \<Rightarrow> Duo KubeClient \<Rightarrow> Duo KubeClient" where
  "racing_client tenv ns n cl =
     cl\<lparr>kcGetTracker := \<lambda>cluster ns' n'.
         if cluster then do { _ \<leftarrow> ReconcileTracker tenv False ns n; kcGetTracker cl cluster ns' n' }
         else kcGetTracker cl cluster ns' n'\<rparr>"

text \<open>
  C36. The promotion can leave two writers: when the tracker controller handles the fenced tracker before
  the successor is created, it finds no successor and unfences it, and the promotion goes on. It reports
  success with the namespaced tracker unfenced and the successor in place, so both reconcilers write to
  the target, which the fence exists to prevent.
\<close>

theorem promotion_race_two_writers:
  assumes "ceClient env = racing_client tenv ns n (duo_client cl)" and "reader env = duo_client cl'"
    and "teClient tenv = duo_client cl''" and "duo_ok w"
    and "duOld w = Some t" and "ssPromotedTo (tkStatus t) = None" and "duNew w = None"
  shows "\<exists>w' old new. run_state (promoteIfNeeded env key) w = (Inr (), w') \<and>
    duOld w' = Some old \<and> \<not> IsFenced (tkStatus old) \<and> duNew w' = Some new \<and> \<not> IsFenced (tkStatus new)"
proof -
  let ?name = "TrackerName (ceSha env) key"
  let ?f = "fenceStatus (ceNow env) ?name (tkStatus t)"
  let ?old = "t\<lparr>tkStatus := ?f\<rparr>" and ?u = "t\<lparr>tkStatus := ?f\<lparr>ssPromotedTo := None, ssPhase := TrackerPhaseApplied\<rparr>\<rparr>"
  let ?w1 = "w\<lparr>duOld := Some ?old\<rparr>" and ?w2 = "w\<lparr>duOld := Some ?u\<rparr>"
  let ?new = "(successorFor ?name key)\<lparr>tkStatus := adoptStatus (ceNow env) no_status ?f (omNamespace (tkMeta t)) (omName (tkMeta t))\<rparr>"
  have c: "\<not> tkCluster t" using assms(4,5) by (simp add: duo_ok_def)
  have keep: "kcUpdateTrackerStatus (ceClient env) = kcUpdateTrackerStatus (duo_client cl)"
    "kcCreateTracker (ceClient env) = kcCreateTracker (duo_client cl)"
    using assms(1) by (simp_all add: racing_client_def)
  have 1: "run_state (retryOnConflict DefaultBackoff (fenceOnce env (kyNamespace key) ?name) ()) w = ((None, ()), ?w1)"
    by (rule retry_done) (use assms(2,5,6) c in \<open>simp_all add: fenceOnce_def keep duo_defs asAttempt_def\<close>)
  have unfenced: "run_state (ReconcileTracker tenv False ns n) ?w1 = (Inr \<lparr>crRequeue = True, crRequeueAfter = 0\<rparr>, ?w2)"
    using assms(3,5,7) c by (simp add: ReconcileTracker_def finishPromotion_def IsFenced_def fence_fields duo_defs)
  have look: "run_state (kcGetTracker (racing_client tenv ns n (duo_client cl)) True '''' ?name) ?w1 = (Inl (NewNotFound ''trackers'' ?name), ?w2)"
    using unfenced assms(7) by (simp add: racing_client_def duo_client_def duo_get_def)
  have made: "run_state (kcCreateTracker (duo_client cl) (successorFor ?name key)) ?w2
      = (Inr (successorFor ?name key), ?w2\<lparr>duNew := Some (successorFor ?name key)\<rparr>)"
    using assms(7) by (simp add: duo_defs successorFor_def)
  have adopt: "run_state (retryOnConflict DefaultBackoff (adoptOnce env ?old ?name) ()) (?w2\<lparr>duNew := Some (successorFor ?name key)\<rparr>)
      = ((None, ()), ?w2\<lparr>duNew := Some ?new\<rparr>)"
    by (rule retry_done)
      (use assms(2) in \<open>simp_all add: adoptOnce_def keep duo_defs asAttempt_def successorFor_def\<close>)
  have 2: "run_state (createSuccessor env ?old ?name key) ?w1 = (Inr (), ?w2\<lparr>duNew := Some ?new\<rparr>)"
    using look[folded assms(1)] made[folded keep] adopt by (simp add: createSuccessor_def fence_fields fromAttempt_def)
  have 3: "run_state (retryOnConflict DefaultBackoff (markOnce env (kyNamespace key) ?name) ()) (?w2\<lparr>duNew := Some ?new\<rparr>)
      = ((None, ()), ?w2\<lparr>duNew := Some ?new\<rparr>)"
    by (rule retry_done) (use assms(2) in \<open>simp_all add: markOnce_def duo_client_def duo_get_def\<close>)
  have "run_state (promoteIfNeeded env key) w = (Inr (), ?w2\<lparr>duNew := Some ?new\<rparr>)"
    using 1 2 3 assms(2) by (simp add: promoteIfNeeded_def Let_def duo_client_def duo_get_def fromAttempt_def)
  then show ?thesis
    by (intro exI[of _ "?w2\<lparr>duNew := Some ?new\<rparr>"] exI[of _ ?u] exI[of _ ?new])
      (simp add: IsFenced_def adoptStatus_def setTrackerCond_def Let_def)
qed

text \<open>C36 for one tracker and one unlucky moment.\<close>

theorem promotion_race_two_writers_witness:
  "\<exists>w' old new. run_state (promoteIfNeeded (duo_contributor_env (racing_client duo_tracker_env ''team-a'' ''t'' (duo_client undefined))) sample_key)
       \<lparr>duOld = Some (sample_tracker no_status), duNew = None\<rparr> = (Inr (), w') \<and>
    duOld w' = Some old \<and> \<not> IsFenced (tkStatus old) \<and> duNew w' = Some new \<and> \<not> IsFenced (tkStatus new)"
proof -
  let ?cl = "racing_client duo_tracker_env ''team-a'' ''t'' (duo_client undefined)"
  let ?env = "duo_contributor_env ?cl" and ?w = "\<lparr>duOld = Some (sample_tracker no_status), duNew = None\<rparr>"
  have "ceClient ?env = ?cl" "reader ?env = duo_client undefined" "teClient duo_tracker_env = duo_client undefined" "duo_ok ?w"
    "duOld ?w = Some (sample_tracker no_status)" "ssPromotedTo (tkStatus (sample_tracker no_status)) = None" "duNew ?w = None"
    by (simp_all add: duo_contributor_env_def duo_tracker_env_def reader_def duo_ok_def sample_tracker_def no_status_def)
  from promotion_race_two_writers[OF this] show ?thesis .
qed

end
