(* ===== verification/Contributor.thy ===== *)
theory Contributor
  imports Promotion
begin

text \<open>
  The contributor reconciler (\<^verbatim>\<open>internal/controller/contributor_controller.go\<close>): it resolves the targets
  of one contributor, ensures that each has a tracker, mirrors the trackers' verdicts onto the
  contributor's status, re-checks its authorization, and holds its finalizer until the trackers have let
  it go. It never writes to a target.
\<close>

section \<open>Targets\<close>

text \<open>The namespaces a selector ranges over; the empty one stands for all of them.\<close>

definition selectorNamespaces :: "'w ContributorEnv \<Rightarrow> Contributor \<Rightarrow> ('w, string list) io" where
  "selectorNamespaces env c =
     (if \<not> coCluster c then State_Monad.return (Inr [coNamespace c])
      else
        (case trNamespaceSelector (coTarget c) of
           None \<Rightarrow> State_Monad.return (Inr [''''])
         | Some sel \<Rightarrow>
             (case ceParseSelector env sel of
                Inl e \<Rightarrow> State_Monad.return (Inl (Errorw ''parsing namespaceSelector: %w'' [] e))
              | Inr _ \<Rightarrow>
                  do {
                    r \<leftarrow> ceListNamespaces env sel;
                    State_Monad.return
                      (case r of Inl e \<Rightarrow> Inl (Errorw ''listing namespaces: %w'' [] e) | Inr nss \<Rightarrow> Inr nss)
                  })))"

definition maxTargets :: "Contributor \<Rightarrow> int" where
  "maxTargets c = (if trMaxTargets (coTarget c) \<le> 0 then 100 else trMaxTargets (coTarget c))"

text \<open>The objects of one listing, appended one by one; one too many is an error.\<close>

fun addItems :: "Contributor \<Rightarrow> (string \<times> string) list \<Rightarrow> TargetKey list \<Rightarrow> (goerror, TargetKey list) result" where
  "addItems c [] keys = Inr keys"
| "addItems c (item # items) keys =
     (let keys' = keys @ [\<lparr>kyAPIVersion = trAPIVersion (coTarget c), kyKind = trKind (coTarget c),
            kyNamespace = fst item, kyName = snd item\<rparr>]
      in if int (length keys') > maxTargets c then
           Inl (Errorf ''selector matched more than maxTargets=%d objects; narrow the selector or raise the cap'' [Itoa (maxTargets c)])
         else addItems c items keys')"

fun listNamespaces ::
  "'w ContributorEnv \<Rightarrow> Contributor \<Rightarrow> string \<times> string \<Rightarrow> string list \<Rightarrow> TargetKey list \<Rightarrow> ('w, TargetKey list) io" where
  "listNamespaces env c gv [] keys = State_Monad.return (Inr keys)"
| "listNamespaces env c gv (ns # nss) keys =
     do {
       r \<leftarrow> ceListTargets env gv (trKind (coTarget c) @ ''List'') (trSelector (coTarget c)) (if ns = '''' then None else Some ns);
       case r of
         Inl e \<Rightarrow> State_Monad.return (Inl (Errorw ''listing targets: %w'' [] e))
       | Inr items \<Rightarrow>
           (case addItems c items keys of
              Inl e \<Rightarrow> State_Monad.return (Inl e)
            | Inr keys' \<Rightarrow> listNamespaces env c gv nss keys')
     }"

definition resolveSelector :: "'w ContributorEnv \<Rightarrow> Contributor \<Rightarrow> ('w, TargetKey list) io" where
  "resolveSelector env c =
     (case ceParseGroupVersion env (trAPIVersion (coTarget c)) of
        Inl e \<Rightarrow> State_Monad.return (Inl (Errorw ''parsing target apiVersion: %w'' [] e))
      | Inr gv \<Rightarrow>
          (case (case trSelector (coTarget c) of None \<Rightarrow> Inr () | Some sel \<Rightarrow> ceParseSelector env sel) of
             Inl e \<Rightarrow> State_Monad.return (Inl (Errorw ''parsing target selector: %w'' [] e))
           | Inr _ \<Rightarrow>
               do {
                 r \<leftarrow> selectorNamespaces env c;
                 case r of
                   Inl e \<Rightarrow> State_Monad.return (Inl e)
                 | Inr nss \<Rightarrow> listNamespaces env c gv nss []
               }))"

definition resolveTargets :: "'w ContributorEnv \<Rightarrow> Contributor \<Rightarrow> ('w, TargetKey list) io" where
  "resolveTargets env c =
     (if targetMode (coSpec c) = TargetModeSingle then State_Monad.return (Inr [TargetKeyFor c])
      else resolveSelector env c)"

section \<open>Trackers\<close>

definition createTracker :: "'w ContributorEnv \<Rightarrow> TrackerRef \<Rightarrow> TargetKey \<Rightarrow> ('w, TrackerRef) io" where
  "createTracker env ref key =
     (case newTracker (tkKind ref) (tkName ref) (tkNamespace ref) key of
        Inl e \<Rightarrow> State_Monad.return (Inl e)
      | Inr t \<Rightarrow>
          do {
            r \<leftarrow> kcCreateTracker (ceClient env) (t\<lparr>tkMeta := AddFinalizer TrackerFinalizer (tkMeta t)\<rparr>);
            State_Monad.return
              (case r of
                 Inl e \<Rightarrow> if IsAlreadyExists e then Inr ref else Inl e
               | Inr _ \<Rightarrow> Inr ref)
          })"

text \<open>Where a contributor registers when the tracker of its kind is there: a fenced one points on.\<close>

definition followFence :: "TrackerRef \<Rightarrow> Tracker \<Rightarrow> TrackerRef" where
  "followFence ref t =
     (case ssPromotedTo (tkStatus t) of
        Some p \<Rightarrow> \<lparr>tkKind = KindClusterSharedResource, tkName = prName p, tkNamespace = ''''\<rparr>
      | None \<Rightarrow> ref)"

definition joinTracker :: "'w ContributorEnv \<Rightarrow> TrackerRef \<Rightarrow> TargetKey \<Rightarrow> ('w, TrackerRef) io" where
  "joinTracker env ref key =
     do {
       g \<leftarrow> getTracker (ceClient env) ref;
       case g of
         Inr t \<Rightarrow> State_Monad.return (Inr (followFence ref t))
       | Inl e \<Rightarrow>
           if \<not> IsNotFound e then State_Monad.return (Inl e)
           else createTracker env ref key
     }"

definition ensureTracker :: "'w ContributorEnv \<Rightarrow> Contributor \<Rightarrow> TargetKey \<Rightarrow> ('w, TrackerRef) io" where
  "ensureTracker env c key =
     (let name = TrackerName (ceSha env) key;
          clusterRef = \<lparr>tkKind = KindClusterSharedResource, tkName = name, tkNamespace = ''''\<rparr>;
          kind = TrackerKindFor key (coCluster c);
          ref = \<lparr>tkKind = kind, tkName = name, tkNamespace = TrackerNamespace kind key\<rparr>
      in if coCluster c \<and> \<not> IsClusterScopedTarget key then
           do {
             p \<leftarrow> promoteIfNeeded env key;
             case p of
               Inl e \<Rightarrow> State_Monad.return (Inl e)
             | Inr _ \<Rightarrow> joinTracker env ref key
           }
         else if \<not> coCluster c \<and> \<not> IsClusterScopedTarget key then
           do {
             g \<leftarrow> kcGetTracker (reader env) True '''' name;
             case g of
               Inr _ \<Rightarrow> State_Monad.return (Inr clusterRef)
             | Inl e \<Rightarrow>
                 if \<not> IsNotFound e then State_Monad.return (Inl e)
                 else joinTracker env ref key
           }
         else joinTracker env ref key)"

fun ensureTrackers :: "'w ContributorEnv \<Rightarrow> Contributor \<Rightarrow> TargetKey list \<Rightarrow> ('w, TrackerRef list) io" where
  "ensureTrackers env c [] = State_Monad.return (Inr [])"
| "ensureTrackers env c (key # keys) =
     do {
       r \<leftarrow> ensureTracker env c key;
       case r of
         Inl e \<Rightarrow> State_Monad.return (Inl e)
       | Inr ref \<Rightarrow>
           do {
             rs \<leftarrow> ensureTrackers env c keys;
             State_Monad.return (case rs of Inl e \<Rightarrow> Inl e | Inr refs \<Rightarrow> Inr (ref # refs))
           }
     }"

section \<open>Status\<close>

record Tally =
  tlObserved :: "TargetStatus list"
  tlApplied :: nat
  tlConflicted :: nat
  tlSuperseded :: nat
  tlWaiting :: nat

definition no_tally :: Tally where
  "no_tally = \<lparr>tlObserved = [], tlApplied = 0, tlConflicted = 0, tlSuperseded = 0, tlWaiting = 0\<rparr>"

definition unobserved :: "TargetKey \<Rightarrow> TargetStatus" where
  "unobserved key =
     \<lparr>tsAPIVersion = kyAPIVersion key, tsKind = kyKind key, tsName = kyName key, tsNamespace = kyNamespace key,
      tsUID = '''', tsState = ContributorStateOther ''''\<rparr>"

definition seeTarget :: "TargetStatus \<Rightarrow> Tally \<Rightarrow> Tally" where
  "seeTarget ts tally = tally\<lparr>tlObserved := tlObserved tally @ [ts]\<rparr>"

definition seeState :: "ContributorState \<Rightarrow> Tally \<Rightarrow> Tally" where
  "seeState s tally =
     (case s of
        ContributorStateApplied \<Rightarrow> tally\<lparr>tlApplied := Suc (tlApplied tally)\<rparr>
      | ContributorStateConflicted \<Rightarrow> tally\<lparr>tlConflicted := Suc (tlConflicted tally)\<rparr>
      | ContributorStateSuperseded \<Rightarrow> tally\<lparr>tlSuperseded := Suc (tlSuperseded tally)\<rparr>
      | _ \<Rightarrow> tally\<lparr>tlWaiting := Suc (tlWaiting tally)\<rparr>)"

text \<open>What a tracker says of one target and one contributor.\<close>

definition observeTracker :: "ContributorRef \<Rightarrow> TargetKey \<Rightarrow> Tracker \<Rightarrow> Tally \<Rightarrow> Tally" where
  "observeTracker ref key t tally =
     (let st = tkStatus t; ts = (unobserved key)\<lparr>tsUID := ssObservedTargetUID st\<rparr>
      in case FindContributor st ref of
           Some rec \<Rightarrow> seeTarget (ts\<lparr>tsState := csState rec\<rparr>) (seeState (csState rec) tally)
         | None \<Rightarrow> seeTarget ts (tally\<lparr>tlWaiting := Suc (tlWaiting tally)\<rparr>))"

fun observeTargets ::
  "'w ContributorEnv \<Rightarrow> ContributorRef \<Rightarrow> TargetKey list \<Rightarrow> TrackerRef list \<Rightarrow> Tally \<Rightarrow> ('w, Tally) io" where
  "observeTargets env ref [] trackers tally = State_Monad.return (Inr tally)"
| "observeTargets env ref (key # keys) [] tally = observeTargets env ref keys [] (seeTarget (unobserved key) tally)"
| "observeTargets env ref (key # keys) (tr # trackers) tally =
     do {
       g \<leftarrow> getTracker (ceClient env) tr;
       case g of
         Inr t \<Rightarrow> observeTargets env ref keys trackers (observeTracker ref key t tally)
       | Inl e \<Rightarrow>
           if \<not> IsNotFound e then State_Monad.return (Inl e)
           else observeTargets env ref keys trackers (seeTarget (unobserved key) (tally\<lparr>tlWaiting := Suc (tlWaiting tally)\<rparr>))
     }"

definition readiness :: "Time \<Rightarrow> int \<Rightarrow> nat \<Rightarrow> Tally \<Rightarrow> ResourcePatchStatus \<Rightarrow> ResourcePatchStatus" where
  "readiness now generation targets tally st =
     (let n = Itoa (int targets)
      in if targets = 0 then setCond now ''Ready'' ConditionFalse ''WaitingForTarget'' ''no targets resolved'' st
         else if tlConflicted tally > 0 then
           setCond now ''Ready'' ConditionFalse ''Conflict''
             (Sprintf ''%d of %d targets have an unresolved field conflict'' [Itoa (int (tlConflicted tally)), n]) st
         else if tlSuperseded tally > 0 then
           setCond now ''Ready'' ConditionFalse ''Superseded''
             (Sprintf ''a higher-priority contributor holds contested fields on %d of %d targets; this contribution is not present''
               [Itoa (int (tlSuperseded tally)), n]) st
         else if tlWaiting tally > 0 then
           setCond now ''Ready'' ConditionFalse ''WaitingForTarget''
             (Sprintf ''%d of %d targets not yet applied'' [Itoa (int (tlWaiting tally)), n]) st
         else
           (setCond now ''Ready'' ConditionTrue ''Applied'' (Sprintf ''applied to %d target(s)'' [Itoa (int (tlApplied tally))]) st)
             \<lparr>psAppliedGeneration := generation\<rparr>)"

definition syncedStatus :: "Time \<Rightarrow> int \<Rightarrow> TrackerRef list \<Rightarrow> nat \<Rightarrow> Tally \<Rightarrow> ResourcePatchStatus \<Rightarrow> ResourcePatchStatus" where
  "syncedStatus now generation trackers targets tally st =
     setCond now ''Synced'' ConditionTrue ''ReconcileSuccess'' ''''
       (setCond now ''Conflict'' (boolCondition (tlConflicted tally > 0)) ''Conflict'' ''''
         (readiness now generation targets tally (st\<lparr>psObservedTargets := tlObserved tally, psSharedResourceRefs := trackers\<rparr>)))"

definition updateStatus ::
  "'w ContributorEnv \<Rightarrow> (ResourcePatchStatus \<Rightarrow> ResourcePatchStatus) \<Rightarrow> Contributor \<Rightarrow> ('w, Contributor) io" where
  "updateStatus env f c = kcUpdatePatchStatus (ceClient env) (c\<lparr>coStatus := f (coStatus c)\<rparr>)"

definition syncStatus ::
  "'w ContributorEnv \<Rightarrow> Contributor \<Rightarrow> TargetKey list \<Rightarrow> TrackerRef list \<Rightarrow> ('w, Contributor) io" where
  "syncStatus env c keys trackers =
     do {
       r \<leftarrow> observeTargets env (ContributorRefOf c) keys trackers no_tally;
       case r of
         Inl e \<Rightarrow> State_Monad.return (Inl e)
       | Inr tally \<Rightarrow>
           updateStatus env (syncedStatus (ceNow env) (omGeneration (coMeta c)) trackers (length keys) tally) c
     }"

definition statusError :: "Time \<Rightarrow> string \<Rightarrow> string \<Rightarrow> ResourcePatchStatus \<Rightarrow> ResourcePatchStatus" where
  "statusError now reason msg st =
     setCond now ''Synced'' ConditionFalse reason msg (setCond now ''Ready'' ConditionFalse reason msg st)"

definition setStatusError :: "'w ContributorEnv \<Rightarrow> Contributor \<Rightarrow> string \<Rightarrow> string \<Rightarrow> ('w, Contributor) io" where
  "setStatusError env c reason msg = updateStatus env (statusError (ceNow env) reason msg) c"

definition setInvalid :: "'w ContributorEnv \<Rightarrow> Contributor \<Rightarrow> string \<Rightarrow> ('w, Contributor) io" where
  "setInvalid env c msg = setStatusError env c ''InvalidSpec'' msg"

section \<open>Authorization\<close>

definition reauthorized :: "Time \<Rightarrow> string \<Rightarrow> bool \<times> string \<Rightarrow> ResourcePatchStatus \<Rightarrow> ResourcePatchStatus" where
  "reauthorized now username answer st =
     (let st1 = st\<lparr>psAuthorizedAs := username\<rparr>
      in if fst answer then
           setCond now ''Authorized'' ConditionTrue ''Authorized'' '''' (st1\<lparr>psLastAuthorizedTime := Some now\<rparr>)
         else setCond now ''Authorized'' ConditionFalse ''Unauthorized'' (snd answer) st1)"

definition recheck ::
  "'w ContributorEnv \<Rightarrow> (UserInfo \<Rightarrow> Contributor \<Rightarrow> ('w, bool \<times> string) io) \<Rightarrow> UserInfo \<Rightarrow> Contributor
    \<Rightarrow> ('w, int \<times> Contributor) io" where
  "recheck env authorize user c =
     do {
       v \<leftarrow> authorize user c;
       case v of
         Inl e \<Rightarrow> State_Monad.return (Inl e)
       | Inr answer \<Rightarrow>
           do {
             u \<leftarrow> updateStatus env (reauthorized (ceNow env) (uiUsername user) answer) c;
             State_Monad.return (case u of Inl e \<Rightarrow> Inl e | Inr c' \<Rightarrow> Inr (ceReauthorizeAfter env, c'))
           }
     }"

text \<open>The delay until the next check, with the contributor as the status update left it.\<close>

definition reauthorize :: "'w ContributorEnv \<Rightarrow> Contributor \<Rightarrow> ('w, int \<times> Contributor) io" where
  "reauthorize env c =
     (case ceAuthorizer env of
        None \<Rightarrow> State_Monad.return (Inr (0, c))
      | Some authorize \<Rightarrow>
          if ceReauthorizeAfter env \<le> 0 then State_Monad.return (Inr (0, c))
          else
            (case IdentityFromAnnotations (ceUnmarshalIdentity env) (coMeta c) of
               None \<Rightarrow> State_Monad.return (Inr (ceReauthorizeAfter env, c))
             | Some user \<Rightarrow>
                 (case psLastAuthorizedTime (coStatus c) of
                    Some t \<Rightarrow>
                      if ceNow env - t < ceReauthorizeAfter env
                      then State_Monad.return (Inr (ceReauthorizeAfter env - (ceNow env - t), c))
                      else recheck env authorize user c
                  | None \<Rightarrow> recheck env authorize user c)))"

section \<open>Reconciling\<close>

definition isNamespacedKind :: "'w ContributorEnv \<Rightarrow> kind_lookup" where
  "isNamespacedKind env apiVersion kind =
     (case ceParseGroupVersion env apiVersion of
        Inl e \<Rightarrow> Inl e
      | Inr gv \<Rightarrow> (case ceRESTMapping env gv kind of Inl e \<Rightarrow> Inl e | Inr m \<Rightarrow> Inr (snd m)))"

fun anyRegistered :: "'w ContributorEnv \<Rightarrow> ContributorRef \<Rightarrow> TrackerRef list \<Rightarrow> ('w, bool) io" where
  "anyRegistered env ref [] = State_Monad.return (Inr False)"
| "anyRegistered env ref (tr # trs) =
     do {
       g \<leftarrow> getTracker (ceClient env) tr;
       case g of
         Inl e \<Rightarrow> if IsNotFound e then anyRegistered env ref trs else State_Monad.return (Inl e)
       | Inr t \<Rightarrow>
           do {
             r \<leftarrow> anyRegistered env ref trs;
             State_Monad.return
               (case r of Inl e \<Rightarrow> Inl e | Inr b \<Rightarrow> Inr (FindContributor (tkStatus t) ref \<noteq> None \<or> b))
           }
     }"

definition requeueAfter :: "int \<Rightarrow> CtrlResult" where
  "requeueAfter d = \<lparr>crRequeue = False, crRequeueAfter = d\<rparr>"

definition reconcileDelete :: "'w ContributorEnv \<Rightarrow> Contributor \<Rightarrow> 'w reconcile" where
  "reconcileDelete env c =
     (if \<not> ContainsFinalizer (coMeta c) ContributorFinalizer then State_Monad.return (Inr done_result)
      else do {
        r \<leftarrow> anyRegistered env (ContributorRefOf c) (psSharedResourceRefs (coStatus c));
        case r of
          Inl e \<Rightarrow> State_Monad.return (Inl e)
        | Inr stillRegistered \<Rightarrow>
            if stillRegistered then State_Monad.return (Inr (requeueAfter 2000))
            else do {
              u \<leftarrow> kcUpdatePatch (ceClient env) (c\<lparr>coMeta := RemoveFinalizer ContributorFinalizer (coMeta c)\<rparr>);
              State_Monad.return
                (case u of
                   Inr _ \<Rightarrow> Inr done_result
                 | Inl e \<Rightarrow> (case IgnoreNotFound e of None \<Rightarrow> Inr done_result | Some e' \<Rightarrow> Inl e'))
            }
      })"

text \<open>The end of a call whose object is not used any more.\<close>

definition finish :: "CtrlResult \<Rightarrow> (goerror, 'a) result \<Rightarrow> (goerror, CtrlResult) result" where
  "finish res r = (case r of Inl e \<Rightarrow> Inl e | Inr _ \<Rightarrow> Inr res)"

definition register :: "'w ContributorEnv \<Rightarrow> Contributor \<Rightarrow> int \<Rightarrow> 'w reconcile" where
  "register env c requeue =
     do {
       k \<leftarrow> resolveTargets env c;
       case k of
         Inl e \<Rightarrow>
           do {
             u \<leftarrow> setStatusError env c ''InvalidSpec'' (ErrorText e);
             State_Monad.return (finish done_result u)
           }
       | Inr keys \<Rightarrow>
           do {
             ts \<leftarrow> ensureTrackers env c keys;
             case ts of
               Inl e \<Rightarrow> State_Monad.return (Inl e)
             | Inr trackers \<Rightarrow>
                 do {
                   s \<leftarrow> syncStatus env c keys trackers;
                   State_Monad.return (finish (requeueAfter requeue) s)
                 }
           }
     }"

definition ReconcileContributor :: "'w ContributorEnv \<Rightarrow> bool \<Rightarrow> string \<Rightarrow> string \<Rightarrow> 'w reconcile" where
  "ReconcileContributor env cluster namespace name =
     do {
       g \<leftarrow> kcGetPatch (ceClient env) cluster namespace name;
       case g of
         Inl e \<Rightarrow> State_Monad.return (case IgnoreNotFound e of None \<Rightarrow> Inr done_result | Some e' \<Rightarrow> Inl e')
       | Inr c \<Rightarrow>
           if omDeletionTimestamp (coMeta c) \<noteq> None then reconcileDelete env c
           else if Validate c (Some (isNamespacedKind env)) \<noteq> [] then
             do {
               u \<leftarrow> setInvalid env c (ceAggregate env (Validate c (Some (isNamespacedKind env))));
               State_Monad.return (finish done_result u)
             }
           else if \<not> ContainsFinalizer (coMeta c) ContributorFinalizer then
             do {
               u \<leftarrow> kcUpdatePatch (ceClient env) (c\<lparr>coMeta := AddFinalizer ContributorFinalizer (coMeta c)\<rparr>);
               State_Monad.return (finish \<lparr>crRequeue = True, crRequeueAfter = 0\<rparr> u)
             }
           else do {
             a \<leftarrow> reauthorize env c;
             case a of
               Inl e \<Rightarrow> State_Monad.return (Inl e)
             | Inr (requeue, c') \<Rightarrow> register env c' requeue
           }
     }"

text \<open>The requests a tracker event makes for the reconciler of one contributor kind.\<close>

definition contributorsOfTracker :: "bool \<Rightarrow> Tracker \<Rightarrow> (string \<times> string) list" where
  "contributorsOfTracker cluster t =
     map (\<lambda>c. (crNamespace (csPatchRef c), crName (csPatchRef c)))
       (filter (\<lambda>c. crKind (csPatchRef c) = (if cluster then KindClusterResourcePatch else KindResourcePatch))
         (ssContributors (tkStatus t)))"

end
