(* ===== verification/ContributorLaws.thy ===== *)
theory ContributorLaws
  imports PromotionLaws Contributor
begin

text \<open>
  What the contributor reconciler promises: a capped and contained selection, one writer per target, a
  Ready condition that says what the trackers say, a finalizer that waits for the release; and where it
  does not do what its comments say.
\<close>

section \<open>Reading trackers\<close>

text \<open>A client whose tracker reads leave the cluster as it is.\<close>

definition reads_only :: "'w KubeClient \<Rightarrow> bool" where
  "reads_only cl \<longleftrightarrow> (\<forall>b ns n w. snd (run_state (kcGetTracker cl b ns n) w) = w)"

definition readTracker :: "'w KubeClient \<Rightarrow> 'w \<Rightarrow> TrackerRef \<Rightarrow> (goerror, Tracker) result" where
  "readTracker cl w ref = fst (run_state (getTracker cl ref) w)"

locale tracker_reader =
  fixes cl :: "'w KubeClient"
  assumes reads: "reads_only cl"
begin

lemma getTracker_run: "run_state (getTracker cl ref) w = (readTracker cl w ref, w)"
proof -
  have "snd (run_state (getTracker cl ref) w) = w"
    using reads by (simp add: getTracker_def reads_only_def)
  then show ?thesis by (simp add: readTracker_def prod_eq_iff)
qed

end

lemma mem_reads: "reads_only mem_client"
  by (simp add: reads_only_def mem_client_def)

lemma duo_reads: "reads_only (duo_client cl)"
  by (simp add: reads_only_def duo_client_def)

interpretation mr: tracker_reader mem_client
  by unfold_locales (rule mem_reads)

interpretation dr: tracker_reader "duo_client cl" for cl
  by unfold_locales (rule duo_reads)

section \<open>The finalizer\<close>

definition lists :: "'w KubeClient \<Rightarrow> 'w \<Rightarrow> ContributorRef \<Rightarrow> TrackerRef \<Rightarrow> bool" where
  "lists cl w ref tr \<longleftrightarrow> (\<exists>t. readTracker cl w tr = Inr t \<and> FindContributor (tkStatus t) ref \<noteq> None)"

definition unread :: "'w KubeClient \<Rightarrow> 'w \<Rightarrow> TrackerRef \<Rightarrow> bool" where
  "unread cl w tr \<longleftrightarrow> (\<exists>e. readTracker cl w tr = Inl e \<and> \<not> IsNotFound e)"

context tracker_reader
begin

lemma anyRegistered_run:
  assumes "ceClient env = cl"
  shows "\<exists>r. run_state (anyRegistered env ref trs) w = (r, w) \<and>
    (case r of Inl e \<Rightarrow> (\<exists>tr \<in> set trs. unread cl w tr)
     | Inr b \<Rightarrow> b = (\<exists>tr \<in> set trs. lists cl w ref tr) \<and> \<not> (\<exists>tr \<in> set trs. unread cl w tr))"
proof (induction trs)
  case (Cons tr trs)
  then obtain r where r: "run_state (anyRegistered env ref trs) w = (r, w)"
    "case r of Inl e \<Rightarrow> (\<exists>tr \<in> set trs. unread cl w tr)
     | Inr b \<Rightarrow> b = (\<exists>tr \<in> set trs. lists cl w ref tr) \<and> \<not> (\<exists>tr \<in> set trs. unread cl w tr)" by blast
  show ?case
    using r assms
    by (cases "readTracker cl w tr"; cases r)
      (auto simp: getTracker_run lists_def unread_def split: sum.splits)
qed simp

lemma reconcileDelete_run:
  assumes "ceClient env = cl" and "ContainsFinalizer (coMeta c) ContributorFinalizer"
  shows "\<exists>r. run_state (anyRegistered env (ContributorRefOf c) (psSharedResourceRefs (coStatus c))) w = (r, w) \<and>
    run_state (reconcileDelete env c) w =
      (case r of
         Inl e \<Rightarrow> (Inl e, w)
       | Inr True \<Rightarrow> (Inr (requeueAfter 2000), w)
       | Inr False \<Rightarrow>
           (case run_state (kcUpdatePatch cl (c\<lparr>coMeta := RemoveFinalizer ContributorFinalizer (coMeta c)\<rparr>)) w of
              (u, w') \<Rightarrow> (case u of Inr _ \<Rightarrow> Inr done_result | Inl e \<Rightarrow> if IsNotFound e then Inr done_result else Inl e, w')))"
proof -
  let ?refs = "psSharedResourceRefs (coStatus c)"
  obtain r where r: "run_state (anyRegistered env (ContributorRefOf c) ?refs) w = (r, w)"
    using anyRegistered_run[OF assms(1)] by blast
  obtain u w' where u: "run_state (kcUpdatePatch cl (c\<lparr>coMeta := RemoveFinalizer ContributorFinalizer (coMeta c)\<rparr>)) w = (u, w')"
    by fastforce
  show ?thesis
    using r u assms by (cases r; cases u) (auto simp: reconcileDelete_def IgnoreNotFound_def split: bool.splits)
qed

end

text \<open>
  C14. A contributor keeps its finalizer until its fields are withdrawn: while any tracker its status
  names still lists it, or cannot be read, the deletion pass writes nothing, and asks to come back in
  two seconds when all could be read; once each is gone or no longer lists it, the pass is the one
  update that drops the finalizer.
\<close>

theorem finalizer_held_until_released:
  assumes "reads_only (ceClient env)" and "ContainsFinalizer (coMeta c) ContributorFinalizer"
  shows "let refs = set (psSharedResourceRefs (coStatus c)); r = run_state (reconcileDelete env c) w;
             listed = (\<exists>tr \<in> refs. lists (ceClient env) w (ContributorRefOf c) tr);
             broken = (\<exists>tr \<in> refs. unread (ceClient env) w tr)
    in (listed \<or> broken \<longrightarrow> snd r = w) \<and> (listed \<and> \<not> broken \<longrightarrow> fst r = Inr (requeueAfter 2000)) \<and>
       (\<not> listed \<and> \<not> broken \<longrightarrow>
          r = (case run_state (kcUpdatePatch (ceClient env) (c\<lparr>coMeta := RemoveFinalizer ContributorFinalizer (coMeta c)\<rparr>)) w of
                 (u, w') \<Rightarrow> (case u of Inr _ \<Rightarrow> Inr done_result | Inl e \<Rightarrow> if IsNotFound e then Inr done_result else Inl e, w')))"
proof -
  let ?refs = "psSharedResourceRefs (coStatus c)"
  have tr: "tracker_reader (ceClient env)" using assms(1) by (rule tracker_reader.intro)
  obtain r where r: "run_state (anyRegistered env (ContributorRefOf c) ?refs) w = (r, w)"
    "case r of Inl e \<Rightarrow> (\<exists>tr \<in> set ?refs. unread (ceClient env) w tr)
     | Inr b \<Rightarrow> b = (\<exists>tr \<in> set ?refs. lists (ceClient env) w (ContributorRefOf c) tr) \<and>
         \<not> (\<exists>tr \<in> set ?refs. unread (ceClient env) w tr)"
    using tracker_reader.anyRegistered_run[OF tr refl] by blast
  have run: "run_state (reconcileDelete env c) w =
      (case r of
         Inl e \<Rightarrow> (Inl e, w)
       | Inr True \<Rightarrow> (Inr (requeueAfter 2000), w)
       | Inr False \<Rightarrow>
           (case run_state (kcUpdatePatch (ceClient env) (c\<lparr>coMeta := RemoveFinalizer ContributorFinalizer (coMeta c)\<rparr>)) w of
              (u, w') \<Rightarrow> (case u of Inr _ \<Rightarrow> Inr done_result | Inl e \<Rightarrow> if IsNotFound e then Inr done_result else Inl e, w')))"
    using tracker_reader.reconcileDelete_run[OF tr refl assms(2), of w] r(1) by auto
  show ?thesis
  proof (cases r)
    case (Inl e)
    with r(2) have "\<exists>tr \<in> set ?refs. unread (ceClient env) w tr" by simp
    with run Inl show ?thesis unfolding Let_def by simp
  next
    case (Inr b)
    with r(2) run show ?thesis unfolding Let_def by (cases b) simp_all
  qed
qed

subsection \<open>A contributor in the memory cluster\<close>

definition mem_contributor_env :: "(UserInfo \<Rightarrow> Contributor \<Rightarrow> (MemCluster, bool \<times> string) io) option \<Rightarrow> MemCluster ContributorEnv" where
  "mem_contributor_env authorizer =
     \<lparr>ceClient = mem_client, ceAPIReader = None, ceSha = (\<lambda>s. s), ceNow = 9, ceRESTMapping = (\<lambda>_ _. Inr (''configmaps'', True)),
      ceParseGroupVersion = (\<lambda>v. Inr ('''', v)), ceParseSelector = (\<lambda>_. Inr ()),
      ceListTargets = (\<lambda>_ _ _ ns. State_Monad.return (Inr
        (case ns of None \<Rightarrow> [(''team-a'', ''cm''), (''team-b'', ''cm'')] | Some n \<Rightarrow> [(n, ''cm'')]))),
      ceListNamespaces = (\<lambda>_. State_Monad.return (Inr [])), ceAggregate = (\<lambda>_. ''''), ceReauthorizeAfter = 60000,
      ceAuthorizer = authorizer, ceUnmarshalIdentity = (\<lambda>_. None)\<rparr>"

definition sample_ref :: TrackerRef where
  "sample_ref = \<lparr>tkKind = KindSharedResource, tkName = ''t'', tkNamespace = ''team-a''\<rparr>"

definition held_contributor :: Contributor where
  "held_contributor =
     (let c = sample_contributor ''u'' 1 ConflictPolicyFail ''x''
      in c\<lparr>coMeta := (coMeta c)\<lparr>omFinalizers := [ContributorFinalizer], omDeletionTimestamp := Some 7\<rparr>,
           coStatus := (coStatus c)\<lparr>psSharedResourceRefs := [sample_ref]\<rparr>\<rparr>)"

definition listing_cluster :: "ContributorState \<Rightarrow> MemCluster" where
  "listing_cluster s =
     \<lparr>mwTarget = None, mwTrackers = [sample_tracker (no_status\<lparr>ssContributors := [(sample_record ''u'' 1)\<lparr>csState := s\<rparr>]\<rparr>)],
      mwPatches = [held_contributor]\<rparr>"

lemma sample_read:
  "readTracker mem_client (listing_cluster s) sample_ref =
     Inr (sample_tracker (no_status\<lparr>ssContributors := [(sample_record ''u'' 1)\<lparr>csState := s\<rparr>]\<rparr>))"
  by (simp add: readTracker_def getTracker_def sample_ref_def mem_client_def listing_cluster_def sameTracker_def
      sample_tracker_def no_meta_def)

lemma held_ref: "SameContributor (csPatchRef (sample_record ''u'' 1)) (ContributorRefOf held_contributor)"
  by (simp add: SameContributor_def sample_record_def ContributorRefOf_def held_contributor_def sample_contributor_def sample_patch_def
      no_meta_def ContributorKind_def Let_def)

text \<open>C14 for a contributor whose tracker has not withdrawn it yet.\<close>

theorem finalizer_held_until_released_witness:
  "run_state (reconcileDelete (mem_contributor_env None) held_contributor) (listing_cluster ContributorStateApplied) =
     (Inr (requeueAfter 2000), listing_cluster ContributorStateApplied)"
proof -
  let ?env = "mem_contributor_env None" and ?w = "listing_cluster ContributorStateApplied"
  have c: "ceClient ?env = mem_client" by (simp add: mem_contributor_env_def)
  have h: "reads_only (ceClient ?env)" "ContainsFinalizer (coMeta held_contributor) ContributorFinalizer"
    by (simp_all add: c mem_reads held_contributor_def ContainsFinalizer_def Let_def)
  have refs: "psSharedResourceRefs (coStatus held_contributor) = [sample_ref]"
    by (simp add: held_contributor_def Let_def)
  have "lists mem_client ?w (ContributorRefOf held_contributor) sample_ref" "\<not> unread mem_client ?w sample_ref"
    unfolding lists_def unread_def sample_read
    by (simp_all add: sample_tracker_def FindContributor_def held_ref)
  with finalizer_held_until_released[OF h, of ?w] show ?thesis
    unfolding c refs Let_def by (auto simp: prod_eq_iff)
qed

section \<open>Status\<close>

definition stateAt :: "'w KubeClient \<Rightarrow> 'w \<Rightarrow> ContributorRef \<Rightarrow> TrackerRef \<Rightarrow> ContributorState option" where
  "stateAt cl w ref tr =
     (case readTracker cl w tr of
        Inl _ \<Rightarrow> None
      | Inr t \<Rightarrow> map_option csState (FindContributor (tkStatus t) ref))"

definition countState :: "'w KubeClient \<Rightarrow> 'w \<Rightarrow> ContributorRef \<Rightarrow> ContributorState \<Rightarrow> TrackerRef list \<Rightarrow> nat" where
  "countState cl w ref s trs = length (filter (\<lambda>tr. stateAt cl w ref tr = Some s) trs)"

definition seen :: "Tally \<Rightarrow> nat" where
  "seen y = tlApplied y + tlConflicted y + tlSuperseded y + tlWaiting y"

lemma observeTracker_counts:
  fixes ref :: ContributorRef and t :: Tracker
  defines "s \<equiv> map_option csState (FindContributor (tkStatus t) ref)"
  shows "tlApplied (observeTracker ref key t y) = tlApplied y + (if s = Some ContributorStateApplied then 1 else 0)"
    and "tlConflicted (observeTracker ref key t y) = tlConflicted y + (if s = Some ContributorStateConflicted then 1 else 0)"
    and "tlSuperseded (observeTracker ref key t y) = tlSuperseded y + (if s = Some ContributorStateSuperseded then 1 else 0)"
    and "seen (observeTracker ref key t y) = Suc (seen y)"
    and "length (tlObserved (observeTracker ref key t y)) = Suc (length (tlObserved y))"
  by (auto simp: observeTracker_def seen_def seeTarget_def seeState_def s_def Let_def
      split: option.split ContributorState.split)

context tracker_reader
begin

lemma observeTargets_run:
  assumes "ceClient env = cl" and "length trs = length keys" and "\<not> (\<exists>tr \<in> set trs. unread cl w tr)"
  shows "\<exists>y'. run_state (observeTargets env ref keys trs y) w = (Inr y', w) \<and>
    tlApplied y' = tlApplied y + countState cl w ref ContributorStateApplied trs \<and>
    tlConflicted y' = tlConflicted y + countState cl w ref ContributorStateConflicted trs \<and>
    tlSuperseded y' = tlSuperseded y + countState cl w ref ContributorStateSuperseded trs \<and>
    seen y' = seen y + length keys \<and> length (tlObserved y') = length (tlObserved y) + length keys"
  using assms(2,3)
proof (induction trs arbitrary: keys y)
  case (Cons tr trs)
  then obtain key keys' where keys: "keys = key # keys'" by (cases keys) auto
  note IH = Cons.IH[of keys']
  show ?case
  proof (cases "readTracker cl w tr")
    case (Inl e)
    with Cons.prems have "IsNotFound e" by (auto simp: unread_def)
    with Inl keys Cons.prems IH[of "seeTarget (unobserved key) (y\<lparr>tlWaiting := Suc (tlWaiting y)\<rparr>)"] show ?thesis
      by (auto simp: assms(1) getTracker_run countState_def stateAt_def seen_def seeTarget_def)
  next
    case (Inr t)
    with keys Cons.prems IH[of "observeTracker ref key t y"] show ?thesis
      by (auto simp: assms(1) getTracker_run countState_def stateAt_def observeTracker_counts)
  qed
qed (simp add: countState_def)

lemma observeTargets_unread:
  assumes "ceClient env = cl" and "length trs = length keys" and "\<exists>tr \<in> set trs. unread cl w tr"
  shows "\<exists>e. run_state (observeTargets env ref keys trs y) w = (Inl e, w)"
  using assms(2,3)
proof (induction trs arbitrary: keys y)
  case (Cons tr trs)
  then obtain key keys' where keys: "keys = key # keys'" by (cases keys) auto
  show ?case
    using Cons.prems Cons.IH[of keys'] keys
    by (cases "readTracker cl w tr") (auto simp: assms(1) getTracker_run unread_def)
qed simp

end

lemma GetCondition_setCond:
  "GetCondition (psConditions (setCond now t s reason msg st)) t' =
     (if t' = t then GetCondition (psConditions (setCond now t s reason msg st)) t else GetCondition (psConditions st) t')"
  "\<exists>cd. GetCondition (psConditions (setCond now t s reason msg st)) t = Some cd \<and> cdStatus cd = s"
  by (auto simp: setCond_def SetCondition_def GetCondition_upsert condition_def split: option.split)

definition conditionIs :: "ResourcePatchStatus \<Rightarrow> string \<Rightarrow> ConditionStatus \<Rightarrow> bool" where
  "conditionIs st t s \<longleftrightarrow> (\<exists>cd. GetCondition (psConditions st) t = Some cd \<and> cdStatus cd = s)"

lemma conditionIs_setCond:
  "conditionIs (setCond now t s reason msg st) t' s' \<longleftrightarrow> (if t' = t then s' = s else conditionIs st t' s')"
  using GetCondition_setCond(1)[of now t s reason msg st t'] GetCondition_setCond(2)[of now t s reason msg st]
  by (auto simp: conditionIs_def)

lemma setCond_fields [simp]:
  "psSharedResourceRefs (setCond now t s reason msg st) = psSharedResourceRefs st"
  "psObservedTargets (setCond now t s reason msg st) = psObservedTargets st"
  "psAppliedGeneration (setCond now t s reason msg st) = psAppliedGeneration st"
  by (simp_all add: setCond_def)

lemma conditionIs_fields [simp]:
  "conditionIs (st\<lparr>psAppliedGeneration := g\<rparr>) = conditionIs st" "conditionIs (st\<lparr>psObservedTargets := ts\<rparr>) = conditionIs st"
  "conditionIs (st\<lparr>psSharedResourceRefs := rs\<rparr>) = conditionIs st"
  by (simp_all add: conditionIs_def fun_eq_iff)

definition all_applied :: "nat \<Rightarrow> Tally \<Rightarrow> bool" where
  "all_applied n y \<longleftrightarrow> n > 0 \<and> tlConflicted y = 0 \<and> tlSuperseded y = 0 \<and> tlWaiting y = 0"

lemma syncedStatus_facts:
  "psSharedResourceRefs (syncedStatus now g trs n y st) = trs"
  "psObservedTargets (syncedStatus now g trs n y st) = tlObserved y"
  "psAppliedGeneration (syncedStatus now g trs n y st) = (if all_applied n y then g else psAppliedGeneration st)"
  "conditionIs (syncedStatus now g trs n y st) ''Ready'' ConditionTrue \<longleftrightarrow> all_applied n y"
  "conditionIs (syncedStatus now g trs n y st) ''Ready'' ConditionFalse \<longleftrightarrow> \<not> all_applied n y"
  "conditionIs (syncedStatus now g trs n y st) ''Conflict'' ConditionTrue \<longleftrightarrow> tlConflicted y > 0"
  by (auto simp: syncedStatus_def readiness_def conditionIs_setCond all_applied_def boolCondition_def Let_def)

lemma filter_full: "length (filter P xs) = length xs \<longleftrightarrow> (\<forall>x \<in> set xs. P x)"
  by (metis filter_True length_filter_less nat_neq_iff)

text \<open>
  C23. Ready says what the trackers say: a status pass over as many trackers as targets fails without a
  write if one cannot be read, and else is one status update, in which Ready is true exactly if there is
  a target and every tracker lists this contributor as Applied, Conflict is true exactly if some tracker
  lists it as Conflicted, the applied generation moves only with Ready, and each target is reported.
\<close>

theorem ready_means_applied:
  fixes c :: Contributor and w :: 'w
  assumes "reads_only (ceClient env)" and "length trs = length keys"
  defines "state \<equiv> stateAt (ceClient env) w (ContributorRefOf c)"
  shows "(\<exists>tr \<in> set trs. unread (ceClient env) w tr) \<and> (\<exists>e. run_state (syncStatus env c keys trs) w = (Inl e, w)) \<or>
    (\<exists>st. run_state (syncStatus env c keys trs) w = run_state (kcUpdatePatchStatus (ceClient env) (c\<lparr>coStatus := st\<rparr>)) w \<and>
       psSharedResourceRefs st = trs \<and> length (psObservedTargets st) = length keys \<and>
       (let ready = (keys \<noteq> [] \<and> (\<forall>tr \<in> set trs. state tr = Some ContributorStateApplied))
        in conditionIs st ''Ready'' (if ready then ConditionTrue else ConditionFalse) \<and>
           psAppliedGeneration st = (if ready then omGeneration (coMeta c) else psAppliedGeneration (coStatus c))) \<and>
       (conditionIs st ''Conflict'' ConditionTrue \<longleftrightarrow> (\<exists>tr \<in> set trs. state tr = Some ContributorStateConflicted)))"
proof (cases "\<exists>tr \<in> set trs. unread (ceClient env) w tr")
  have tr: "tracker_reader (ceClient env)" using assms(1) by (rule tracker_reader.intro)
  case True
  with tracker_reader.observeTargets_unread[OF tr refl assms(2) this, of "ContributorRefOf c" no_tally] show ?thesis
    by (auto simp: syncStatus_def)
next
  have tr: "tracker_reader (ceClient env)" using assms(1) by (rule tracker_reader.intro)
  let ?count = "\<lambda>s. countState (ceClient env) w (ContributorRefOf c) s trs"
  case False
  then obtain y where y: "run_state (observeTargets env (ContributorRefOf c) keys trs no_tally) w = (Inr y, w)"
    "tlApplied y = ?count ContributorStateApplied" "tlConflicted y = ?count ContributorStateConflicted"
    "tlSuperseded y = ?count ContributorStateSuperseded" "seen y = length keys" "length (tlObserved y) = length keys"
    using tracker_reader.observeTargets_run[OF tr refl assms(2) False, of "ContributorRefOf c" no_tally]
    by (auto simp: no_tally_def seen_def)
  have applied: "all_applied (length keys) y \<longleftrightarrow> keys \<noteq> [] \<and> (\<forall>tr \<in> set trs. state tr = Some ContributorStateApplied)"
  proof -
    have "all_applied (length keys) y \<longleftrightarrow> keys \<noteq> [] \<and> tlApplied y = length trs"
      using y(5) assms(2) by (auto simp: all_applied_def seen_def)
    then show ?thesis using filter_full[of _ trs] by (simp add: y(2) countState_def state_def)
  qed
  have conflict: "tlConflicted y > 0 \<longleftrightarrow> (\<exists>tr \<in> set trs. state tr = Some ContributorStateConflicted)"
    by (simp add: y(3) countState_def state_def filter_empty_conv)
  let ?st = "syncedStatus (ceNow env) (omGeneration (coMeta c)) trs (length keys) y (coStatus c)"
  have "run_state (syncStatus env c keys trs) w = run_state (kcUpdatePatchStatus (ceClient env) (c\<lparr>coStatus := ?st\<rparr>)) w"
    using y(1) by (simp add: syncStatus_def updateStatus_def)
  then show ?thesis
    using applied conflict y(6) by (intro disjI2 exI[of _ ?st]) (simp add: syncedStatus_facts Let_def)
qed

text \<open>C23 for one target whose tracker has applied the contribution.\<close>

theorem ready_means_applied_witness:
  "\<exists>st. run_state (syncStatus (mem_contributor_env None) held_contributor [sample_key] [sample_ref])
        (listing_cluster ContributorStateApplied) =
      run_state (kcUpdatePatchStatus mem_client (held_contributor\<lparr>coStatus := st\<rparr>)) (listing_cluster ContributorStateApplied) \<and>
    conditionIs st ''Ready'' ConditionTrue"
proof -
  let ?env = "mem_contributor_env None" and ?w = "listing_cluster ContributorStateApplied"
  have c: "ceClient ?env = mem_client" by (simp add: mem_contributor_env_def)
  have h: "reads_only (ceClient ?env)" "length [sample_ref] = length [sample_key]" by (simp_all add: c mem_reads)
  have "\<not> unread mem_client ?w sample_ref"
    "stateAt mem_client ?w (ContributorRefOf held_contributor) sample_ref = Some ContributorStateApplied"
    unfolding unread_def stateAt_def sample_read by (simp_all add: sample_tracker_def FindContributor_def held_ref)
  with ready_means_applied[OF h, of ?w held_contributor] show ?thesis
    unfolding c Let_def by auto
qed

section \<open>Selection\<close>

definition itemKey :: "Contributor \<Rightarrow> string \<times> string \<Rightarrow> TargetKey" where
  "itemKey c item =
     \<lparr>kyAPIVersion = trAPIVersion (coTarget c), kyKind = trKind (coTarget c), kyNamespace = fst item, kyName = snd item\<rparr>"

lemma maxTargets_pos: "maxTargets c > 0"
  by (simp add: maxTargets_def)

lemma addItems_exact:
  assumes "int (length keys) \<le> maxTargets c"
  shows "addItems c items keys =
    (if int (length keys + length items) \<le> maxTargets c then Inr (keys @ map (itemKey c) items)
     else Inl (Errorf ''selector matched more than maxTargets=%d objects; narrow the selector or raise the cap'' [Itoa (maxTargets c)]))"
  using assms by (induction c items keys rule: addItems.induct) (auto simp: itemKey_def Let_def)

text \<open>The listings that answer a sequence of namespaces, in order.\<close>

fun answered :: "'w ContributorEnv \<Rightarrow> Contributor \<Rightarrow> string \<times> string \<Rightarrow> string list \<Rightarrow> (string \<times> string) list \<Rightarrow> bool" where
  "answered env c gv [] items \<longleftrightarrow> items = []"
| "answered env c gv (ns # nss) items \<longleftrightarrow>
     (\<exists>w w' found rest. items = found @ rest \<and> answered env c gv nss rest \<and>
        run_state (ceListTargets env gv (trKind (coTarget c) @ ''List'') (trSelector (coTarget c)) (if ns = '''' then None else Some ns)) w
          = (Inr found, w'))"

lemma listNamespaces_answered:
  assumes "run_state (listNamespaces env c gv nss keys) w = (Inr keys', w')" and "int (length keys) \<le> maxTargets c"
  shows "\<exists>items. answered env c gv nss items \<and> keys' = keys @ map (itemKey c) items \<and> int (length keys') \<le> maxTargets c"
  using assms
proof (induction nss arbitrary: keys w)
  case (Cons ns nss)
  let ?list = "ceListTargets env gv (trKind (coTarget c) @ ''List'') (trSelector (coTarget c)) (if ns = '''' then None else Some ns)"
  obtain r w1 where r: "run_state ?list w = (r, w1)" by fastforce
  with Cons.prems(1) obtain found where found: "r = Inr found" by (cases r) (auto split: if_splits)
  let ?keys = "keys @ map (itemKey c) found"
  have added: "addItems c found keys = Inr ?keys \<and> int (length ?keys) \<le> maxTargets c"
    using Cons.prems r found addItems_exact[OF Cons.prems(2), of found] by (auto split: if_splits)
  with Cons.prems(1) r found have "run_state (listNamespaces env c gv nss ?keys) w1 = (Inr keys', w')"
    by (simp split: if_splits)
  from Cons.IH[OF this] added obtain items where
    "answered env c gv nss items" "keys' = ?keys @ map (itemKey c) items" "int (length keys') \<le> maxTargets c" by auto
  with r found show ?case by (intro exI[of _ "found @ items"]) (auto split: if_splits)
qed auto


lemma resolveSelector_answered:
  assumes "run_state (resolveSelector env c) w = (Inr keys, w')"
  shows "\<exists>gv nss w1 w2 items. run_state (selectorNamespaces env c) w1 = (Inr nss, w2) \<and>
    answered env c gv nss items \<and> keys = map (itemKey c) items \<and> int (length keys) \<le> maxTargets c"
proof -
  obtain gv where gv: "ceParseGroupVersion env (trAPIVersion (coTarget c)) = Inr gv"
    using assms by (cases "ceParseGroupVersion env (trAPIVersion (coTarget c))") (auto simp: resolveSelector_def)
  obtain r w1 where r: "run_state (selectorNamespaces env c) w = (r, w1)" by fastforce
  from assms gv r obtain nss where "r = Inr nss" "run_state (listNamespaces env c gv nss []) w1 = (Inr keys, w')"
    by (cases r) (auto simp: resolveSelector_def split: sum.splits option.splits)
  moreover obtain items where "answered env c gv nss items" "keys = map (itemKey c) items" "int (length keys) \<le> maxTargets c"
    using listNamespaces_answered[OF calculation(2)] maxTargets_pos[of c] by auto
  ultimately show ?thesis using r by blast
qed

text \<open>A listing in a namespace returns objects of it.\<close>

definition honest_listing :: "'w ContributorEnv \<Rightarrow> bool" where
  "honest_listing env \<longleftrightarrow>
     (\<forall>gv k sel ns v items v'. run_state (ceListTargets env gv k sel (Some ns)) v = (Inr items, v') \<longrightarrow> (\<forall>i \<in> set items. fst i = ns))"

lemma answered_contained:
  assumes "honest_listing env" and "answered env c gv [ns] items" and "ns \<noteq> ''''" and "i \<in> set items"
  shows "fst i = ns"
proof -
  obtain w w' where "run_state (ceListTargets env gv (trKind (coTarget c) @ ''List'') (trSelector (coTarget c)) (Some ns)) w = (Inr items, w')"
    using assms(2,3) by auto
  with assms(1,4) show ?thesis unfolding honest_listing_def by blast
qed

text \<open>
  C27. A selector never selects more than the cap, and never truncates: a selection that succeeds is
  exactly what the listings returned, in order, each with the kind the spec names, and at most maxTargets
  objects (100 when unset). For a ResourcePatch in its namespace it is one listing of that namespace, so
  it holds objects of that namespace only.
\<close>

theorem selection_capped_and_contained:
  assumes "run_state (resolveSelector env c) w = (Inr keys, w')"
  shows "int (length keys) \<le> maxTargets c \<and>
    (\<exists>gv nss items. answered env c gv nss items \<and> keys = map (itemKey c) items \<and> (\<not> coCluster c \<longrightarrow> nss = [coNamespace c])) \<and>
    (\<not> coCluster c \<and> coNamespace c \<noteq> '''' \<and> honest_listing env \<longrightarrow> (\<forall>k \<in> set keys. kyNamespace k = coNamespace c))"
proof -
  obtain gv nss w1 w2 items where s: "run_state (selectorNamespaces env c) w1 = (Inr nss, w2)"
    "answered env c gv nss items" "keys = map (itemKey c) items" "int (length keys) \<le> maxTargets c"
    using resolveSelector_answered[OF assms] by blast
  have own: "\<not> coCluster c \<longrightarrow> nss = [coNamespace c]" using s(1) by (auto simp: selectorNamespaces_def)
  have "kyNamespace k = coNamespace c" if "\<not> coCluster c" "coNamespace c \<noteq> ''''" "honest_listing env" "k \<in> set keys" for k
    using answered_contained[OF that(3), of c gv "coNamespace c" items] own s(2,3) that by (auto simp: itemKey_def)
  then show ?thesis using s(2-4) own by blast
qed

definition selector_patch :: "bool \<Rightarrow> string \<Rightarrow> Contributor" where
  "selector_patch cluster ns =
     (let c = sample_patch cluster ns; s = coSpec c; t = rsTarget s
      in c\<lparr>coSpec := s\<lparr>rsTarget := t\<lparr>trMode := TargetModeSelector, trName := '''',
             trSelector := Some \<lparr>lsMatchLabels = [], lsMatchExpressions = []\<rparr>\<rparr>\<rparr>\<rparr>)"

lemma sample_selection:
  "run_state (resolveSelector (mem_contributor_env None) (selector_patch False '''')) w = (Inr [sample_key], w)"
  "run_state (resolveSelector (mem_contributor_env None) (selector_patch True ''team-a'')) w =
     (Inr [sample_key, sample_key\<lparr>kyNamespace := ''team-b''\<rparr>], w)"
  by (simp_all add: resolveSelector_def selectorNamespaces_def mem_contributor_env_def selector_patch_def sample_patch_def
      no_meta_def sample_key_def maxTargets_def Let_def)

text \<open>C27 for a selector of a ResourcePatch.\<close>

theorem selection_capped_and_contained_witness:
  "run_state (resolveSelector (mem_contributor_env None) (selector_patch False '''')) undefined = (Inr [sample_key], undefined) \<and>
   map kyNamespace [sample_key] = [coNamespace (selector_patch False '''')]"
proof -
  have "honest_listing (mem_contributor_env None)" by (auto simp: honest_listing_def mem_contributor_env_def)
  moreover have "\<not> coCluster (selector_patch False '''')" "coNamespace (selector_patch False '''') \<noteq> ''''"
    by (simp_all add: selector_patch_def sample_patch_def Let_def)
  ultimately have "\<forall>k \<in> set [sample_key]. kyNamespace k = coNamespace (selector_patch False '''')"
    using selection_capped_and_contained[OF sample_selection(1)] by blast
  then show ?thesis using sample_selection(1) by simp
qed

section \<open>One writer\<close>

text \<open>Of the two trackers of a target, at most one writes.\<close>

definition single_writer :: "Duo \<Rightarrow> bool" where
  "single_writer w \<longleftrightarrow> (\<forall>old. duOld w = Some old \<longrightarrow> duNew w \<noteq> None \<longrightarrow> IsFenced (tkStatus old))"

definition no_old_writer :: "Duo \<Rightarrow> bool" where
  "no_old_writer w \<longleftrightarrow> (\<forall>old. duOld w = Some old \<longrightarrow> IsFenced (tkStatus old))"

lemma fence_absent:
  assumes "reader env = duo_client cl'" and "duOld w = None"
  shows "run_state (promoteIfNeeded env key) w = (Inr (), w)"
proof -
  have "run_state (retryOnConflict DefaultBackoff (fenceOnce env (kyNamespace key) (TrackerName (ceSha env) key)) ()) w =
      ((Some (NewNotFound ''trackers'' (TrackerName (ceSha env) key)), ()), w)"
    by (rule retry_done) (use assms status_exclusive(1)[OF IsNotFound_NewNotFound] in \<open>auto simp: fenceOnce_def duo_defs\<close>)
  then show ?thesis by (simp add: promoteIfNeeded_def Let_def)
qed

lemma promote_adopted:
  assumes "ceClient env = duo_client cl" and "reader env = duo_client cl'" and "duOld w = Some t" and "isAdopted (tkStatus t)"
  shows "run_state (promoteIfNeeded env key) w = (Inr (), w)"
proof -
  have p: "ssPromotedTo (tkStatus t) \<noteq> None" using assms(4) fence_fields(4) by blast
  have "run_state (retryOnConflict DefaultBackoff (fenceOnce env (kyNamespace key) (TrackerName (ceSha env) key)) ()) w = ((None, ()), w)"
    by (rule retry_done) (use assms p in \<open>auto simp: fenceOnce_def duo_defs\<close>)
  moreover have "run_state (createSuccessor env t (TrackerName (ceSha env) key) key) w = (Inr (), w)"
    using assms(4) by (simp add: createSuccessor_def)
  moreover have "run_state (retryOnConflict DefaultBackoff (markOnce env (kyNamespace key) (TrackerName (ceSha env) key)) ()) w = ((None, ()), w)"
    by (rule retry_done) (use assms in \<open>auto simp: markOnce_def duo_defs\<close>)
  ultimately show ?thesis
    using assms(2,3) by (simp add: promoteIfNeeded_def Let_def duo_defs fromAttempt_def)
qed

lemma promote_fences:
  assumes "ceClient env = duo_client cl" and "reader env = duo_client cl'" and "duo_ok w"
  shows "\<exists>w'. run_state (promoteIfNeeded env key) w = (Inr (), w') \<and> duo_ok w' \<and> no_old_writer w'"
proof (cases "duOld w")
  case None
  with fence_absent[OF assms(2)] assms(3) show ?thesis by (auto simp: no_old_writer_def)
next
  case (Some t)
  show ?thesis
  proof (cases "isAdopted (tkStatus t)")
    case True
    with promote_adopted[OF assms(1,2) Some] assms(3) Some fence_fields(4) show ?thesis
      by (auto simp: no_old_writer_def IsFenced_def)
  next
    case False
    have "ssPromotedTo (fenced_old env key t) \<noteq> None" by (auto simp: fenced_old_def fence_fields)
    then have "ssPromotedTo (markAdopted (fenced_old env key t)) \<noteq> None" by (simp add: fence_fields)
    with promote_run[OF assms Some False, of key] show ?thesis
      by (fastforce simp: no_old_writer_def IsFenced_def)
  qed
qed

lemma join_cluster:
  assumes "ceClient env = duo_client cl" and "duo_ok w" and "tkKind ref = KindClusterSharedResource"
  shows "\<exists>ref' w'. run_state (joinTracker env ref key) w = (Inr ref', w') \<and> tkKind ref' = KindClusterSharedResource \<and>
    duOld w' = duOld w \<and> duo_ok w' \<and> duNew w' \<noteq> None"
proof (cases "duNew w")
  case None
  then show ?thesis
    using assms by (simp add: joinTracker_def createTracker_def getTracker_def newTracker_def kind_names duo_defs duo_ok_def)
next
  case (Some n)
  then show ?thesis
    using assms by (auto simp: joinTracker_def getTracker_def kind_names duo_defs followFence_def split: option.split)
qed

lemma join_namespaced:
  assumes "ceClient env = duo_client cl" and "duo_ok w" and "duNew w = None" and "tkKind ref = KindSharedResource"
  shows "\<exists>ref' w'. run_state (joinTracker env ref key) w = (Inr ref', w') \<and> duo_ok w' \<and> duNew w' = None \<and>
    (if no_old_writer w' then tkKind ref' = KindClusterSharedResource else ref' = ref) \<and> duOld w' \<noteq> None"
proof (cases "duOld w")
  case None
  then show ?thesis
    using assms by (simp add: joinTracker_def createTracker_def getTracker_def newTracker_def kind_names duo_defs duo_ok_def
        no_old_writer_def IsFenced_def no_status_def)
next
  case (Some t)
  then show ?thesis
    using assms by (cases "ssPromotedTo (tkStatus t)")
      (auto simp: joinTracker_def getTracker_def kind_names duo_defs followFence_def no_old_writer_def IsFenced_def)
qed



subsection \<open>Two contributors at once\<close>

text \<open>
  The reconciler of the other kind handles its contributor between this one's look for the cluster
  tracker and its look for the namespaced one.
\<close>

definition overtaken_client :: "Duo ContributorEnv \<Rightarrow> Contributor \<Rightarrow> TargetKey \<Rightarrow> Duo KubeClient \<Rightarrow> Duo KubeClient" where
  "overtaken_client env' c' key cl =
     cl\<lparr>kcGetTracker := \<lambda>cluster ns n.
         if \<not> cluster then do { _ \<leftarrow> ensureTracker env' c' key; kcGetTracker cl cluster ns n }
         else kcGetTracker cl cluster ns n\<rparr>"

text \<open>
  The rule that picks the tracker is not enough under a race: when a ResourcePatch and a
  ClusterResourcePatch register for a fresh target, and the second runs after the first found no cluster
  tracker, both succeed, each on a tracker it made, and neither tracker is fenced. The comments say that
  two contributors racing reach the same answer.
\<close>

theorem registration_race_two_writers:
  assumes "ceClient env' = duo_client cl'" and "reader env' = duo_client cl''" and "coCluster c'"
    and "ceClient env = overtaken_client env' c' key (duo_client cl)" and "reader env = duo_client cl'''" and "\<not> coCluster c"
    and "\<not> IsClusterScopedTarget key" and "duOld w = None" and "duNew w = None"
  shows "\<exists>ref w' old new. run_state (ensureTracker env c key) w = (Inr ref, w') \<and> tkKind ref = KindSharedResource \<and>
    duOld w' = Some old \<and> \<not> IsFenced (tkStatus old) \<and> duNew w' = Some new \<and> \<not> IsFenced (tkStatus new)"
proof -
  let ?name = "TrackerName (ceSha env') key"
  have made: "\<exists>r w1 new. run_state (ensureTracker env' c' key) w = (r, w1) \<and> duOld w1 = None \<and> duNew w1 = Some new \<and>
      \<not> IsFenced (tkStatus new)"
    using assms(1,3,7,8,9) fence_absent[OF assms(2,8), of key]
    by (simp add: ensureTracker_def TrackerKindFor_def joinTracker_def createTracker_def getTracker_def newTracker_def
        kind_names duo_defs Let_def IsFenced_def no_status_def)
  then obtain r w1 new where w1: "run_state (ensureTracker env' c' key) w = (r, w1)" "duOld w1 = None" "duNew w1 = Some new"
    "\<not> IsFenced (tkStatus new)" by blast
  have "kcCreateTracker (ceClient env) = kcCreateTracker (duo_client cl)"
    by (simp add: assms(4) overtaken_client_def)
  moreover have "run_state (kcGetTracker (ceClient env) False ns n) w = (Inl (NewNotFound ''trackers'' n), w1)" for ns n
    using w1 by (simp add: assms(4) overtaken_client_def duo_client_def duo_get_def)
  moreover have "run_state (kcGetTracker (reader env) True ns n) w = (Inl (NewNotFound ''trackers'' n), w)" for ns n
    using assms(5,9) by (simp add: duo_client_def duo_get_def)
  ultimately show ?thesis
    using assms(6,7) w1
    by (simp add: ensureTracker_def TrackerKindFor_def TrackerNamespace_def joinTracker_def createTracker_def getTracker_def
        newTracker_def kind_names duo_defs Let_def IsFenced_def no_status_def)
qed

text \<open>The same for two contributors to one ConfigMap.\<close>

theorem registration_race_two_writers_witness:
  "let env' = duo_contributor_env (duo_client undefined);
       env = duo_contributor_env (overtaken_client env' (sample_patch True ''team-a'') sample_key (duo_client undefined))
   in \<exists>ref w' old new. run_state (ensureTracker env (sample_patch False '''') sample_key) \<lparr>duOld = None, duNew = None\<rparr> = (Inr ref, w') \<and>
      duOld w' = Some old \<and> \<not> IsFenced (tkStatus old) \<and> duNew w' = Some new \<and> \<not> IsFenced (tkStatus new)"
proof -
  let ?env' = "duo_contributor_env (duo_client undefined)" and ?w = "\<lparr>duOld = None, duNew = None\<rparr>"
  let ?cl = "overtaken_client ?env' (sample_patch True ''team-a'') sample_key (duo_client undefined)"
  let ?env = "duo_contributor_env ?cl"
  have "ceClient ?env' = duo_client undefined" "reader ?env' = duo_client undefined" "coCluster (sample_patch True ''team-a'')"
    "ceClient ?env = ?cl" "reader ?env = duo_client undefined" "\<not> coCluster (sample_patch False '''')"
    "\<not> IsClusterScopedTarget sample_key" "duOld ?w = None" "duNew ?w = None"
    by (simp_all add: duo_contributor_env_def reader_def sample_patch_def IsClusterScopedTarget_def sample_key_def)
  from registration_race_two_writers[OF this] show ?thesis unfolding Let_def by blast
qed

section \<open>Authorization\<close>

text \<open>The last check is absent, or older than the interval.\<close>

definition recheck_due :: "'w ContributorEnv \<Rightarrow> Contributor \<Rightarrow> bool" where
  "recheck_due env c \<longleftrightarrow>
     (case psLastAuthorizedTime (coStatus c) of None \<Rightarrow> True | Some t \<Rightarrow> ceNow env - t \<ge> ceReauthorizeAfter env)"

lemma reauthorize_due:
  assumes "ceAuthorizer env = Some authorize" and "ceReauthorizeAfter env > 0"
    and "IdentityFromAnnotations (ceUnmarshalIdentity env) (coMeta c) = Some user" and "recheck_due env c"
  shows "reauthorize env c = recheck env authorize user c"
  using assms by (auto simp: reauthorize_def recheck_due_def split: option.split)

lemma applyContributor_status:
  "applyContributor env target active pathClaims (\<lparr>rcObj = c\<lparr>coStatus := s\<rparr>, rcStatus = rec\<rparr>, contribution) ls =
   applyContributor env target active pathClaims (\<lparr>rcObj = c, rcStatus = rec\<rparr>, contribution) ls"
proof -
  let ?c = "\<lparr>rcObj = c\<lparr>coStatus := s\<rparr>, rcStatus = rec\<rparr>" and ?d = "\<lparr>rcObj = c, rcStatus = rec\<rparr>"
  have "applierFor env (rcObj ?c) = applierFor env (rcObj ?d)" by (simp add: applierFor_def ImpersonationFor_def cong: option.case_cong sum.case_cong if_cong)
  moreover have "isSupersededOn (teIter env) ?c active pathClaims = isSupersededOn (teIter env) ?d active pathClaims"
    by (simp add: isSupersededOn_def indexOf_def cong: option.case_cong if_cong)
  moreover have "appendConflict (teIter env) cs pathClaims ?c h = appendConflict (teIter env) cs pathClaims ?d h" for cs h
    by (simp add: appendConflict_def cong: list.case_cong)
  moreover have "baseFor (rcObj ?c) = baseFor (rcObj ?d)" by (simp add: baseFor_def cong: if_cong)
  moreover have "applyRequest ?c contribution target ps priors base = applyRequest ?d contribution target ps priors base" for ps priors base
    by (simp add: applyRequest_def)
  moreover have "applyResult env ?c contribution base r ls = applyResult env ?d contribution base r ls" for base r
    by (simp add: applyResult_def recordApplied_def cong: option.case_cong sum.case_cong if_cong)
  ultimately show ?thesis by (simp add: applyContributor_def Let_def cong: option.case_cong sum.case_cong prod.case_cong)
qed

text \<open>
  C38. A denied re-check stops nothing: a pass whose re-check is denied records Authorized False and then
  registers the contributor like any other pass, and what the tracker applies for a contributor does not
  depend on its status at all, so the write goes on. The comments say that the operator stops writing.
\<close>

theorem denial_stops_nothing:
  assumes "run_state (kcGetPatch (ceClient env) cluster ns n) w = (Inr c, w)"
    and "omDeletionTimestamp (coMeta c) = None" and "Validate c (Some (isNamespacedKind env)) = []"
    and "ContainsFinalizer (coMeta c) ContributorFinalizer"
    and "ceAuthorizer env = Some authorize" and "ceReauthorizeAfter env > 0" and "recheck_due env c"
    and "IdentityFromAnnotations (ceUnmarshalIdentity env) (coMeta c) = Some user"
    and "run_state (authorize user c) w = (Inr (False, reason), w1)"
  shows "\<exists>st. conditionIs st ''Authorized'' ConditionFalse \<and>
    (\<forall>c' w2. run_state (kcUpdatePatchStatus (ceClient env) (c\<lparr>coStatus := st\<rparr>)) w1 = (Inr c', w2) \<longrightarrow>
       run_state (ReconcileContributor env cluster ns n) w = run_state (register env c' (ceReauthorizeAfter env)) w2) \<and>
    (\<forall>tenv target active pathClaims rec contribution ls.
       applyContributor tenv target active pathClaims (\<lparr>rcObj = c\<lparr>coStatus := st\<rparr>, rcStatus = rec\<rparr>, contribution) ls =
       applyContributor (tenv :: 'v TrackerEnv) target active pathClaims (\<lparr>rcObj = c, rcStatus = rec\<rparr>, contribution) ls)"
proof -
  let ?st = "reauthorized (ceNow env) (uiUsername user) (False, reason) (coStatus c)"
  have "conditionIs ?st ''Authorized'' ConditionFalse"
    by (simp add: reauthorized_def conditionIs_setCond Let_def)
  moreover have "run_state (ReconcileContributor env cluster ns n) w = run_state (register env c' (ceReauthorizeAfter env)) w2"
    if "run_state (kcUpdatePatchStatus (ceClient env) (c\<lparr>coStatus := ?st\<rparr>)) w1 = (Inr c', w2)" for c' w2
    using assms(1-4,9) that reauthorize_due[OF assms(5,6,8,7)]
    by (simp add: ReconcileContributor_def recheck_def updateStatus_def)
  ultimately show ?thesis using applyContributor_status by (intro exI[of _ ?st]) blast
qed

text \<open>A sample: an authorizer that denies everything.\<close>

definition denied_contributor :: Contributor where
  "denied_contributor =
     (let c = sample_contributor ''u'' 1 ConflictPolicyFail ''x''
      in c\<lparr>coMeta := (coMeta c)\<lparr>omFinalizers := [ContributorFinalizer], omAnnotations := [(AuthorizedAsAnnotation, ''eve'')]\<rparr>\<rparr>)"

definition deny_all :: "UserInfo \<Rightarrow> Contributor \<Rightarrow> (MemCluster, bool \<times> string) io" where
  "deny_all user c = State_Monad.return (Inr (False, ''revoked''))"

theorem denial_stops_nothing_witness:
  "let env = mem_contributor_env (Some deny_all); w = \<lparr>mwTarget = None, mwTrackers = [], mwPatches = [denied_contributor]\<rparr>
   in \<exists>st c' w2. conditionIs st ''Authorized'' ConditionFalse \<and>
      run_state (kcUpdatePatchStatus (ceClient env) (denied_contributor\<lparr>coStatus := st\<rparr>)) w = (Inr c', w2) \<and>
      run_state (ReconcileContributor env False ''team-a'' ''u'') w = run_state (register env c' 60000) w2"
proof -
  let ?env = "mem_contributor_env (Some deny_all)" and ?w = "\<lparr>mwTarget = None, mwTrackers = [], mwPatches = [denied_contributor]\<rparr>"
  note d = denied_contributor_def sample_contributor_def sample_patch_def no_meta_def Let_def
  have 1: "run_state (kcGetPatch (ceClient ?env) False ''team-a'' ''u'') ?w = (Inr denied_contributor, ?w)"
    by (simp add: mem_contributor_env_def mem_client_def samePatch_def d)
  have 2: "omDeletionTimestamp (coMeta denied_contributor) = None" by (simp add: d)
  have 3: "Validate denied_contributor (Some (isNamespacedKind ?env)) = []"
    by (simp add: Validate_def validateTargetIdentity_def validateMode_def validateLifecycle_def validatePatch_def
        validateNamespaced_def isNamespacedKind_def mem_contributor_env_def targetMode_def rawUnset_def isOwnKind_def
        HasPrefix_def GroupName_def kind_names d)
  have 4: "ContainsFinalizer (coMeta denied_contributor) ContributorFinalizer" by (simp add: ContainsFinalizer_def d)
  have 5: "ceAuthorizer ?env = Some deny_all" "ceReauthorizeAfter ?env > 0" "recheck_due ?env denied_contributor"
    by (simp_all add: mem_contributor_env_def recheck_due_def d)
  have 6: "IdentityFromAnnotations (ceUnmarshalIdentity ?env) (coMeta denied_contributor) = Some (no_user\<lparr>uiUsername := ''eve''\<rparr>)"
    by (simp add: IdentityFromAnnotations_def annotation_def AuthorizedAsAnnotation_def AuthorizedIdentityAnnotation_def d)
  have 7: "run_state (deny_all (no_user\<lparr>uiUsername := ''eve''\<rparr>) denied_contributor) ?w = (Inr (False, ''revoked''), ?w)"
    by (simp add: deny_all_def)
  have after: "ceReauthorizeAfter ?env = 60000" by (simp add: mem_contributor_env_def)
  have update: "\<exists>c' w2. run_state (kcUpdatePatchStatus (ceClient ?env) (denied_contributor\<lparr>coStatus := st\<rparr>)) ?w = (Inr c', w2)" for st
    by (simp add: mem_contributor_env_def mem_client_def memPatch_def samePatch_def d)
  show ?thesis using denial_stops_nothing[OF 1 2 3 4 5 6 7] update unfolding Let_def after by metis
qed

section \<open>Leaving a target\<close>

lemma mem_list:
  "run_state (kcListPatches (teClient mem_env) cluster index ns) w =
     (Inr (filter (\<lambda>c. coCluster c = cluster \<and> (case ns of None \<Rightarrow> True | Some n \<Rightarrow> coNamespace c = n) \<and>
        (case index of None \<Rightarrow> True | Some k \<Rightarrow> k \<in> set (targetKeysFor c))) (mwPatches w)), w)"
  by (simp add: mem_env_def mem_client_def)

definition claims :: "Tracker \<Rightarrow> Contributor \<Rightarrow> bool" where
  "claims t c \<longleftrightarrow> TargetKeyString (trackerTargetKey t) \<in> set (targetKeysFor c) \<or> trMode (coTarget c) = TargetModeSelector"

lemma listContributors_none:
  assumes "\<forall>c \<in> set (mwPatches w). \<not> claims t c"
  shows "run_state (listContributors mem_env t) w = (Inr [], w)"
proof -
  let ?key = "TargetKeyString (trackerTargetKey t)"
  have none: "filter (\<lambda>c. P c \<and> ?key \<in> set (targetKeysFor c)) (mwPatches w) = []" for P
    using assms by (auto simp: filter_empty_conv claims_def)
  have 1: "run_state (listBoth mem_env t (Some ?key) wrap) w = (Inr [], w)" for wrap
    using none[of "\<lambda>c. \<not> coCluster c \<and> coNamespace c = omNamespace (tkMeta t)"] none[of "\<lambda>c. \<not> coCluster c"] none[of coCluster]
    by (simp add: listBoth_def mem_list conj_assoc)
  obtain cs where 2: "run_state (listBoth mem_env t None (\<lambda>cluster e. e)) w = (Inr cs, w)" and sub: "set cs \<subseteq> set (mwPatches w)"
    by (cases "tkCluster t") (auto simp: listBoth_def mem_list)
  have "filter (selectorBound t []) cs = []"
    using assms sub by (auto simp: filter_empty_conv selectorBound_def claims_def)
  with 1 2 show ?thesis
    by (simp add: listContributors_def Let_def sortRecords_def sortContributors_def sliceStable_def)
qed

lemma patchStatus_ok:
  assumes "run_state (kcUpdateTrackerStatus cl (updStatus mutate t)) w = (Inr t2, w')"
  shows "run_state (patchStatus cl t mutate) w = ((None, t2), w')"
proof -
  have "run_state (patchStatusOnce cl mutate t) w = ((None, t2), w')"
    using assms by (simp add: patchStatusOnce_def Let_def)
  from retry_done[where f = "patchStatusOnce cl mutate" and s = t, OF this] show ?thesis
    by (simp add: patchStatus_def ignoreNotFound_def)
qed

lemma carryStatus_keeps_list: "ssContributors (carryStatus None cs computed st) = ssContributors st"
  by (simp add: carryStatus_def Let_def)


text \<open>A sample: a contributor that moved from \<^verbatim>\<open>cm\<close> to \<^verbatim>\<open>other\<close>.\<close>

definition moved_contributor :: Contributor where
  "moved_contributor =
     (let c = sample_contributor ''u'' 1 ConflictPolicyFail ''x''; s = coSpec c
      in c\<lparr>coSpec := s\<lparr>rsTarget := (rsTarget s)\<lparr>trName := ''other''\<rparr>\<rparr>\<rparr>)"


end
