(* ===== verification/Lifecycle.thy ===== *)
theory Lifecycle
  imports ContributorLaws
begin

text \<open>
  The end of a contribution, across both controllers: the tracker's pass withdraws the fields and forgets
  the contributor, the contributor's pass then lets go of the finalizer, and once the API server has
  removed the contributor the tracker removes itself.
\<close>

section \<open>What the appliers can touch\<close>

text \<open>An operation on the memory cluster that sees the target only, and changes nothing else.\<close>

definition on_target :: "(MemCluster, 'a) state \<Rightarrow> bool" where
  "on_target m \<longleftrightarrow> (\<exists>f. \<forall>w. run_state m w = (fst (f (mwTarget w)), w\<lparr>mwTarget := snd (f (mwTarget w))\<rparr>))"

lemma on_target_return [intro!]: "on_target (State_Monad.return a)"
  by (auto simp: on_target_def intro!: exI[of _ "\<lambda>x. (a, x)"])

lemma on_target_bind [intro!]:
  assumes "on_target m" and "\<And>a. on_target (f a)"
  shows "on_target (State_Monad.bind m f)"
proof -
  obtain g where g: "\<And>w. run_state m w = (fst (g (mwTarget w)), w\<lparr>mwTarget := snd (g (mwTarget w))\<rparr>)"
    using assms(1) unfolding on_target_def by blast
  obtain h where h: "\<And>a w. run_state (f a) w = (fst (h a (mwTarget w)), w\<lparr>mwTarget := snd (h a (mwTarget w))\<rparr>)"
    using assms(2) unfolding on_target_def by metis
  show ?thesis
    unfolding on_target_def by (rule exI[of _ "\<lambda>x. h (fst (g x)) (snd (g x))"]) (simp add: g h)
qed

lemma on_target_client [intro!]:
  "on_target (clGet mem_client g)" "on_target (clCreate mem_client ob)" "on_target (clUpdate mem_client ob)"
  "on_target (clApply mem_client ob m force)" "on_target (clDelete mem_client g)"
  unfolding on_target_def mem_client_def
  by (rule exI[of _ "\<lambda>x. (case x of None \<Rightarrow> Inl (NewNotFound ''targets'' (tgName g)) | Some y \<Rightarrow> Inr y, x)"], simp)
    (rule exI[of _ "\<lambda>x. case x of None \<Rightarrow> (Inr ob, Some ob) | Some _ \<Rightarrow> (Inl mem_exists, x)"], simp split: option.split,
     rule exI[of _ "\<lambda>x. (Inr ob, Some ob)"], simp, rule exI[of _ "\<lambda>x. (Inr ob, Some ob)"], simp,
     rule exI[of _ "\<lambda>x. (Inr (), None)"], simp)

lemma on_target_applier:
  "on_target (applierRevert sha a mem_client req)" "on_target (applierApply sha a mem_client rq)"
  by (cases a; auto simp: applierRevert_def ssaRevert_def csaRevert_def Let_def split: sum.split)
    (cases a; auto simp: applierApply_def ssaApply_def ssaExists_def ssaPatch_def csaApply_def csaCreate_def csaUpdate_def Let_def
      split: sum.split option.split prod.split ConflictPolicy.split)

lemma on_target_run:
  assumes "on_target m" and "run_state m w = (r, w')"
  shows "w' = w\<lparr>mwTarget := mwTarget w'\<rparr>"
    and "run_state m (w\<lparr>mwTrackers := ts, mwPatches := ps\<rparr>) = (r, w\<lparr>mwTarget := mwTarget w', mwTrackers := ts, mwPatches := ps\<rparr>)"
proof -
  obtain f where f: "\<And>w. run_state m w = (fst (f (mwTarget w)), w\<lparr>mwTarget := snd (f (mwTarget w))\<rparr>)"
    using assms(1) unfolding on_target_def by blast
  with assms(2) have w': "w' = w\<lparr>mwTarget := snd (f (mwTarget w))\<rparr>" and r: "r = fst (f (mwTarget w))" by simp_all
  from w' show "w' = w\<lparr>mwTarget := mwTarget w'\<rparr>" by simp
  from w' r show "run_state m (w\<lparr>mwTrackers := ts, mwPatches := ps\<rparr>) = (r, w\<lparr>mwTarget := mwTarget w', mwTrackers := ts, mwPatches := ps\<rparr>)"
    by (simp add: f)
qed

lemma on_target_release:
  assumes "teClient env = mem_client" and "teNewFor env = None"
  shows "on_target (releaseContributor env r target)"
  using assms on_target_applier(1)
  by (cases "For (asMode (rsApply (coSpec (rcObj r))))") (auto simp: releaseContributor_def applierFor_def split: sum.split)

lemma maybeDelete_mem:
  assumes "teClient env = mem_client"
  shows "run_state (maybeDeleteTarget env t rs target) w =
    (Inr (), if wantsDelete (tkStatus t) rs then w\<lparr>mwTarget := None\<rparr> else w)"
  by (simp add: maybeDeleteTarget_def assms mem_client_def)

section \<open>Listing one contributor\<close>

text \<open>What the index finds for a tracker: the contributors to its target that its kind may have.\<close>

definition indexed :: "Tracker \<Rightarrow> Contributor \<Rightarrow> bool" where
  "indexed t c \<longleftrightarrow> TargetKeyString (trackerTargetKey t) \<in> set (targetKeysFor c) \<and>
     (tkCluster t \<or> \<not> coCluster c \<and> coNamespace c = omNamespace (tkMeta t))"

lemma listContributors_one:
  assumes "teClient env = mem_client" and "mwPatches w = [c]" and "indexed t c"
  shows "run_state (listContributors env t) w = (Inr [recordOf env t c], w)"
proof -
  have 1: "run_state (listBoth env t (Some (TargetKeyString (trackerTargetKey t))) wrap) w = (Inr [c], w)" for wrap
    using assms by (auto simp: listBoth_def mem_client_def indexed_def)
  have 2: "run_state (listBoth env t None (\<lambda>cluster e. e)) w = (Inr [c], w)"
    using assms by (auto simp: listBoth_def mem_client_def indexed_def)
  have "csPatchRef (rcStatus (recordOf env t c)) = ContributorRefOf c"
    by (simp add: recordOf_def recordFor_def Let_def split: option.split)
  then have "filter (selectorBound t [recordOf env t c]) [c] = []" by (simp add: selectorBound_def)
  with 1 2 show ?thesis
    by (simp add: listContributors_def Let_def sortRecords_def sortContributors_def sliceStable_def byKey_def recordOf_def)
qed

lemma listContributors_empty:
  assumes "teClient env = mem_client" and "mwPatches w = []"
  shows "run_state (listContributors env t) w = (Inr [], w)"
proof -
  have "run_state (listBoth env t index wrap) w = (Inr [], w)" for index wrap
    using assms by (simp add: listBoth_def mem_client_def)
  then show ?thesis
    by (simp add: listContributors_def Let_def sortRecords_def sortContributors_def sliceStable_def)
qed

section \<open>The three passes\<close>

text \<open>What the API server does with an object that is being deleted, once its last finalizer is gone.\<close>

definition collect :: "MemCluster \<Rightarrow> MemCluster" where
  "collect w = w\<lparr>mwPatches :=
     filter (\<lambda>c. omDeletionTimestamp (coMeta c) = None \<or> omFinalizers (coMeta c) \<noteq> []) (mwPatches w)\<rparr>"

definition trackerRefOf :: "Tracker \<Rightarrow> TrackerRef" where
  "trackerRefOf t = \<lparr>tkKind = TrackerKind t, tkName = omName (tkMeta t), tkNamespace = omNamespace (tkMeta t)\<rparr>"

abbreviation trackerPass :: "MemCluster TrackerEnv \<Rightarrow> Tracker \<Rightarrow> MemCluster \<Rightarrow> (goerror, CtrlResult) result \<times> MemCluster" where
  "trackerPass env t w \<equiv> run_state (ReconcileTracker env (tkCluster t) (omNamespace (tkMeta t)) (omName (tkMeta t))) w"

abbreviation contributorPass :: "MemCluster ContributorEnv \<Rightarrow> Contributor \<Rightarrow> MemCluster \<Rightarrow> (goerror, CtrlResult) result \<times> MemCluster" where
  "contributorPass env c w \<equiv> run_state (ReconcileContributor env (coCluster c) (coNamespace c) (coName c)) w"

text \<open>A tracker at work: not fenced, not being deleted, with its finalizer.\<close>

definition working :: "Tracker \<Rightarrow> bool" where
  "working t \<longleftrightarrow> \<not> IsFenced (tkStatus t) \<and> omDeletionTimestamp (tkMeta t) = None \<and> ContainsFinalizer (tkMeta t) TrackerFinalizer"

lemma get_only:
  assumes "mwTrackers w = [t]" and "trackerId t' t"
  shows "run_state (kcGetTracker mem_client (tkCluster t') (omNamespace (tkMeta t')) (omName (tkMeta t'))) w = (Inr t, w)"
  using assms by (simp add: mem_client_def)

lemma patchStatus_mem:
  fixes mutate :: "SharedResourceStatus \<Rightarrow> SharedResourceStatus"
  assumes "mwTrackers w = [t]" and "tkMeta t' = tkMeta t" and "tkCluster t' = tkCluster t"
  defines "t2 \<equiv> bumpTracker (t\<lparr>tkStatus := mutate (tkStatus t')\<rparr>)"
  shows "run_state (patchStatus mem_client t' mutate) w = ((None, t2), w\<lparr>mwTrackers := [t2]\<rparr>)"
proof -
  have "run_state (kcUpdateTrackerStatus mem_client (updStatus mutate t')) w = (Inr t2, w\<lparr>mwTrackers := [t2]\<rparr>)"
    using assms by (simp add: mem_client_def memStore_def sameTracker_def Let_def)
  then show ?thesis by (rule patchStatus_ok)
qed

lemma writeStatus_mem:
  assumes "mwTrackers w = [t]" and "tkMeta t' = tkMeta t" and "tkCluster t' = tkCluster t"
  shows "\<exists>t2. run_state (writeStatus mem_client t' rs cs) w = ((None, t2), w\<lparr>mwTrackers := [t2]\<rparr>) \<and>
    t2 = bumpTracker (t\<lparr>tkStatus := carryStatus rs cs (tkStatus t') (tkStatus t')\<rparr>)"
  using patchStatus_mem[OF assms, of "carryStatus rs cs (tkStatus t')"] by (simp add: writeStatus_def)

text \<open>What a pass without active contributors leaves in the status.\<close>

definition emptied :: "Tracker \<Rightarrow> Tracker \<Rightarrow> bool" where
  "emptied t t' \<longleftrightarrow> ssContributors (tkStatus t') = [] \<and> ssPhase (tkStatus t') = TrackerPhaseApplied \<and> working t' \<and>
     trackerId t t' \<and> tkSpec t' = tkSpec t"

lemma setTrackerCond_fields [simp]:
  "ssContributors (setTrackerCond now ty s r m st) = ssContributors st"
  "ssPhase (setTrackerCond now ty s r m st) = ssPhase st"
  "ssPromotedTo (setTrackerCond now ty s r m st) = ssPromotedTo st"
  by (simp_all add: setTrackerCond_def)

lemma carryStatus_fields [simp]:
  "ssContributors (carryStatus (Some rs) cs computed st) = rs"
  "ssPhase (carryStatus records cs computed st) = ssPhase computed"
  "ssPromotedTo (carryStatus records cs computed st) = ssPromotedTo st"
  by (simp_all add: carryStatus_def Let_def split: option.split)

lemma applyActive_none:
  assumes "teClient env = mem_client" and "mwTrackers w = [t]" and "working t"
  shows "\<exists>t'. run_state (applyActive env t [] target) w = (Inr done_result, w\<lparr>mwTrackers := [t']\<rparr>) \<and> emptied t t'"
proof -
  define ls where "ls = \<lparr>lpTracker = t, lpRecords = [], lpConflicts = [], lpAnyConflict = False, lpTargetExists = True\<rparr>"
  obtain t2 where t2: "run_state (writeStatus mem_client (updStatus (verdict (teNow env) ls) t) (Some []) []) w =
      ((None, t2), w\<lparr>mwTrackers := [t2]\<rparr>)"
    "t2 = bumpTracker (t\<lparr>tkStatus := carryStatus (Some []) [] (verdict (teNow env) ls (tkStatus t)) (verdict (teNow env) ls (tkStatus t))\<rparr>)"
    using writeStatus_mem[OF assms(2), of "updStatus (verdict (teNow env) ls) t"] by auto
  have "run_state (applyActive env t [] target) w = (Inr done_result, w\<lparr>mwTrackers := [t2]\<rparr>)"
    using t2(1) assms(1) by (simp add: applyActive_def withStatus_def done_result_def ls_def)
  moreover have "emptied t t2"
    using assms(3) unfolding t2(2)
    by (simp add: emptied_def working_def verdict_def ls_def bumpTracker_def IsFenced_def ContainsFinalizer_def sameTracker_def)
  ultimately show ?thesis by blast
qed

text \<open>The first pass: the fields go, and the contributor with them.\<close>

lemma tracker_withdraws:
  assumes "teClient env = mem_client" and "teNewFor env = None"
    and "mwTrackers w = [t]" and "mwPatches w = [c]" and "working t" and "indexed t c"
    and "omDeletionTimestamp (coMeta c) \<noteq> None"
    and "run_state (releaseContributor env (recordOf env t c) (renderTarget t)) w = (Inr (), w1)"
  shows "\<exists>t'. trackerPass env t w = (Inr done_result,
      w\<lparr>mwTarget := (if wantsDelete (tkStatus t) [recordOf env t c] then None else mwTarget w1), mwTrackers := [t']\<rparr>) \<and> emptied t t'"
proof -
  let ?r = "recordOf env t c" and ?target = "renderTarget t"
  let ?w2 = "if wantsDelete (tkStatus t) [?r] then w1\<lparr>mwTarget := None\<rparr> else w1"
  obtain x where same: "w1 = w\<lparr>mwTarget := x\<rparr>" using on_target_run(1)[OF on_target_release[OF assms(1,2)] assms(8)] by blast
  have "mwTrackers w1 = [t]" unfolding same using assms(3) by simp
  then have 2: "mwTrackers ?w2 = [t]" by simp
  obtain t' where t': "run_state (applyActive env t [] ?target) ?w2 = (Inr done_result, ?w2\<lparr>mwTrackers := [t']\<rparr>)" "emptied t t'"
    using applyActive_none[OF assms(1) 2 assms(5)] by blast
  have split: "splitReleasing [?r] = ([?r], [])" using assms(7) by (simp add: splitReleasing_def recordOf_def)
  have "run_state (reconcileContributions env t [?r]) w = (Inr done_result, ?w2\<lparr>mwTrackers := [t']\<rparr>)"
    using assms(8) t'(1) maybeDelete_mem[OF assms(1)] by (simp add: reconcileContributions_def Let_def split)
  moreover have "?w2\<lparr>mwTrackers := [t']\<rparr> = w\<lparr>mwTarget := (if wantsDelete (tkStatus t) [?r] then None else mwTarget w1), mwTrackers := [t']\<rparr>"
    unfolding same by simp
  moreover have "run_state (kcGetTracker mem_client (tkCluster t) (omNamespace (tkMeta t)) (omName (tkMeta t))) w = (Inr t, w)"
    by (rule get_only[OF assms(3)]) (simp add: sameTracker_def)
  ultimately have "trackerPass env t w = (Inr done_result,
      w\<lparr>mwTarget := (if wantsDelete (tkStatus t) [?r] then None else mwTarget w1), mwTrackers := [t']\<rparr>)"
    using assms(1,5) listContributors_one[OF assms(1,4,6)] by (simp add: ReconcileTracker_def working_def)
  with t'(2) show ?thesis by blast
qed

text \<open>The second: no tracker lists the contributor any more, and its finalizer goes.\<close>

lemma contributor_lets_go:
  assumes "ceClient env = mem_client" and "mwTrackers w = [t]" and "mwPatches w = [c]"
    and "ssContributors (tkStatus t) = []" and "psSharedResourceRefs (coStatus c) = [trackerRefOf t]"
    and "omDeletionTimestamp (coMeta c) \<noteq> None" and "omFinalizers (coMeta c) = [ContributorFinalizer]"
  shows "\<exists>w'. contributorPass env c w = (Inr done_result, w') \<and> collect w' = w\<lparr>mwPatches := []\<rparr> \<and>
    (\<exists>d. mwPatches w' = [d] \<and> coStatus d = coStatus c)"
proof -
  let ?d = "c\<lparr>coMeta := RemoveFinalizer ContributorFinalizer (coMeta c)\<rparr>"
  have "run_state (getTracker mem_client (trackerRefOf t)) w = (Inr t, w)"
    using get_only[OF assms(2), of t]
    by (cases "tkCluster t") (simp_all add: getTracker_def trackerRefOf_def TrackerKind_def kind_names sameTracker_def)
  then have "run_state (anyRegistered env (ContributorRefOf c) [trackerRefOf t]) w = (Inr False, w)"
    using assms(1,4) by (simp add: FindContributor_def)
  moreover have "run_state (kcUpdatePatch mem_client ?d) w = (Inr (?d\<lparr>coStatus := coStatus c\<rparr>), w\<lparr>mwPatches := [?d\<lparr>coStatus := coStatus c\<rparr>]\<rparr>)"
    using assms(3) by (simp add: mem_client_def memPatch_def samePatch_def RemoveFinalizer_def)
  ultimately have "run_state (reconcileDelete env c) w = (Inr done_result, w\<lparr>mwPatches := [?d\<lparr>coStatus := coStatus c\<rparr>]\<rparr>)"
    using assms(1,5,7) by (simp add: reconcileDelete_def ContainsFinalizer_def del: anyRegistered.simps)
  moreover have "run_state (kcGetPatch mem_client (coCluster c) (coNamespace c) (coName c)) w = (Inr c, w)"
    using assms(3) by (simp add: mem_client_def samePatch_def)
  ultimately have "contributorPass env c w = (Inr done_result, w\<lparr>mwPatches := [?d\<lparr>coStatus := coStatus c\<rparr>]\<rparr>)"
    using assms(1,6) by (simp add: ReconcileContributor_def)
  moreover have "collect (w\<lparr>mwPatches := [?d\<lparr>coStatus := coStatus c\<rparr>]\<rparr>) = w\<lparr>mwPatches := []\<rparr>"
    using assms(6,7) by (simp add: collect_def RemoveFinalizer_def)
  moreover have "mwPatches (w\<lparr>mwPatches := [?d\<lparr>coStatus := coStatus c\<rparr>]\<rparr>) = [?d\<lparr>coStatus := coStatus c\<rparr>]"
    "coStatus (?d\<lparr>coStatus := coStatus c\<rparr>) = coStatus c" by simp_all
  ultimately show ?thesis by metis
qed

text \<open>The third: a tracker with an empty list and no contributors removes itself.\<close>

lemma tracker_retires:
  assumes "teClient env = mem_client" and "mwTrackers w = [t]" and "mwPatches w = []" and "working t"
    and "ssContributors (tkStatus t) = []" and "ssPhase (tkStatus t) = TrackerPhaseApplied"
  shows "trackerPass env t w = (Inr done_result, w\<lparr>mwTrackers := []\<rparr>)"
proof -
  let ?v = "bumpTracker (withoutFinalizer t)"
  have self: "trackerId t t" by (simp add: sameTracker_def)
  have "run_state (kcUpdateTracker mem_client (withoutFinalizer t)) w = (Inr ?v, w\<lparr>mwTrackers := [?v]\<rparr>)"
    using assms(2)
    by (simp add: mem_client_def memStore_def withoutFinalizer_def RemoveFinalizer_def sameTracker_def Let_def bumpTracker_def)
  moreover have "run_state (dropTracker mem_client ?v) (w\<lparr>mwTrackers := [?v]\<rparr>) = (Inr done_result, w\<lparr>mwTrackers := []\<rparr>)"
    by (simp add: dropTracker_def mem_client_def sameTracker_def)
  ultimately have "run_state (reconcileEmpty env t) w = (Inr done_result, w\<lparr>mwTrackers := []\<rparr>)"
    using assms(1,5,6) by (simp add: reconcileEmpty_def)
  then show ?thesis
    using assms(1,4) get_only[OF assms(2) self] listContributors_empty[OF assms(1,3)]
    by (simp add: ReconcileTracker_def working_def)
qed

text \<open>
  The passes by which a deletion completes. When the last contributor of a tracker is being deleted and its fields can be
  withdrawn, three passes end it: the tracker's pass withdraws the fields (and deletes the target when the
  contributor created it and asks for that), the contributor's pass drops the finalizer, so that the API
  server removes the contributor, and the tracker's next pass removes the tracker. Nothing of the
  contribution is left.
\<close>

lemma release_passes:
  assumes "teClient tenv = mem_client" and "teNewFor tenv = None" and "ceClient cenv = mem_client"
    and "mwTrackers w = [t]" and "mwPatches w = [c]" and "working t" and "indexed t c"
    and "omDeletionTimestamp (coMeta c) \<noteq> None" and "omFinalizers (coMeta c) = [ContributorFinalizer]"
    and "psSharedResourceRefs (coStatus c) = [trackerRefOf t]"
    and "run_state (releaseContributor tenv (recordOf tenv t c) (renderTarget t)) w = (Inr (), w1)"
  shows "\<exists>w2 w3. trackerPass tenv t w = (Inr done_result, w2) \<and>
    contributorPass cenv c w2 = (Inr done_result, w3) \<and>
    (\<exists>d. mwPatches w3 = [d] \<and> coStatus d = coStatus c) \<and> mwPatches (collect w3) = [] \<and>
    trackerPass tenv t (collect w3) =
      (Inr done_result,
       \<lparr>mwTarget = (if wantsDelete (tkStatus t) [recordOf tenv t c] then None else mwTarget w1), mwTrackers = [], mwPatches = []\<rparr>)"
proof -
  let ?target = "if wantsDelete (tkStatus t) [recordOf tenv t c] then None else mwTarget w1"
  obtain t' where t': "trackerPass tenv t w = (Inr done_result, w\<lparr>mwTarget := ?target, mwTrackers := [t']\<rparr>)" "emptied t t'"
    using tracker_withdraws[OF assms(1,2,4-8,11)] by blast
  let ?w2 = "w\<lparr>mwTarget := ?target, mwTrackers := [t']\<rparr>"
  have id: "tkCluster t' = tkCluster t" "omNamespace (tkMeta t') = omNamespace (tkMeta t)" "omName (tkMeta t') = omName (tkMeta t)"
    using t'(2) by (simp_all add: emptied_def sameTracker_def)
  then have "trackerRefOf t' = trackerRefOf t" by (simp add: trackerRefOf_def TrackerKind_def)
  then obtain w3 where w3: "contributorPass cenv c ?w2 = (Inr done_result, w3)" "collect w3 = ?w2\<lparr>mwPatches := []\<rparr>"
      "\<exists>d. mwPatches w3 = [d] \<and> coStatus d = coStatus c"
    using contributor_lets_go[OF assms(3), of ?w2 t' c] assms(5,8-10) t'(2) by (auto simp: emptied_def)
  have "trackerPass tenv t' (collect w3) = (Inr done_result, (collect w3)\<lparr>mwTrackers := []\<rparr>)"
    by (rule tracker_retires) (use t'(2) w3(2) assms(1) in \<open>simp_all add: emptied_def\<close>)
  moreover have "(?w2\<lparr>mwPatches := []\<rparr>)\<lparr>mwTrackers := []\<rparr> = \<lparr>mwTarget = ?target, mwTrackers = [], mwPatches = []\<rparr>" by simp
  moreover have "mwPatches (collect w3) = []" using w3(2) by simp
  ultimately show ?thesis using t'(1) w3 unfolding id by metis
qed

text \<open>A sample: a client-side contributor, being deleted, that had overwritten \<^verbatim>\<open>data.a\<close>.\<close>

definition leaving_contributor :: Contributor where
  "leaving_contributor =
     (let s = coSpec held_contributor
      in held_contributor\<lparr>coSpec := s\<lparr>rsApply := (rsApply s)\<lparr>asMode := ApplyModeClientSideApply\<rparr>\<rparr>\<rparr>)"

definition leaving_tracker :: Tracker where
  "leaving_tracker =
     sample_tracker (no_status\<lparr>ssContributors :=
       [(sample_record ''u'' 1)\<lparr>csState := ContributorStateApplied, csOwnedPaths := [''data.a''],
          csPriorValues := Some (RawJson (JObj [(''data.a'', JStr ''old'')])), csPriorValuesCaptured := True\<rparr>]\<rparr>)"

definition leaving_cluster :: "string \<Rightarrow> MemCluster" where
  "leaving_cluster v =
     \<lparr>mwTarget = Some [(''data'', JObj [(''a'', JStr v), (''b'', JStr ''kept'')])], mwTrackers = [leaving_tracker],
      mwPatches = [leaving_contributor]\<rparr>"

end
