(* ===== verification/Arrival.thy ===== *)
theory Arrival
  imports Lifecycle
begin

text \<open>
  The beginning of a contribution, across both controllers: from a contributor nobody has seen to a target
  that has its fields and a status that says so.
\<close>

section \<open>Registering in an empty cluster\<close>

text \<open>The tracker a contributor's pass makes for its target.\<close>

definition madeTracker :: "(string \<Rightarrow> string) \<Rightarrow> Contributor \<Rightarrow> Tracker" where
  "madeTracker sha c =
     (let key = TargetKeyFor c; kind = TrackerKindFor key (coCluster c)
      in \<lparr>tkCluster = (kind = KindClusterSharedResource),
          tkMeta = AddFinalizer TrackerFinalizer (no_meta\<lparr>omName := TrackerName sha key, omNamespace := TrackerNamespace kind key\<rparr>),
          tkSpec = \<lparr>srTargetRef = \<lparr>ttAPIVersion = kyAPIVersion key, ttKind = kyKind key, ttName = kyName key,
            ttNamespace = kyNamespace key\<rparr>\<rparr>,
          tkStatus = no_status\<rparr>)"

text \<open>The settings under which a contributor reconciler works on the memory cluster, without re-checks.\<close>

definition plain :: "MemCluster ContributorEnv \<Rightarrow> bool" where
  "plain env \<longleftrightarrow> ceClient env = mem_client \<and> reader env = mem_client \<and> ceAuthorizer env = None"

lemma no_promotion:
  assumes "plain env" and "\<forall>t \<in> set (mwTrackers w). tkCluster t"
  shows "run_state (promoteIfNeeded env key) w = (Inr (), w)"
proof -
  let ?n = "TrackerName (ceSha env) key"
  have "find (sameTracker False (kyNamespace key) ?n) (mwTrackers w) = None"
    using assms(2) by (auto simp: find_None_iff sameTracker_def)
  then have "run_state (fenceOnce env (kyNamespace key) ?n ()) w = ((Some (NewNotFound ''trackers'' ?n), ()), w)"
    using assms(1) by (simp add: fenceOnce_def plain_def mem_client_def)
  then have "run_state (retryOnConflict DefaultBackoff (fenceOnce env (kyNamespace key) ?n) ()) w =
      ((Some (NewNotFound ''trackers'' ?n), ()), w)"
    by (rule retry_done) (use status_exclusive(1)[OF IsNotFound_NewNotFound] in auto)
  then show ?thesis by (simp add: promoteIfNeeded_def Let_def)
qed

lemma madeTracker_fields [simp]:
  "tkStatus (madeTracker sha c) = no_status" "omDeletionTimestamp (tkMeta (madeTracker sha c)) = None"
  "ContainsFinalizer (tkMeta (madeTracker sha c)) TrackerFinalizer"
  "trackerTargetKey (madeTracker sha c) = TargetKeyFor c"
  by (simp_all add: madeTracker_def Let_def AddFinalizer_def no_meta_def ContainsFinalizer_def trackerTargetKey_def)

lemma madeTracker_id:
  "tkCluster (madeTracker sha c) \<longleftrightarrow> TrackerKindFor (TargetKeyFor c) (coCluster c) = KindClusterSharedResource"
  "omName (tkMeta (madeTracker sha c)) = TrackerName sha (TargetKeyFor c)"
  "omNamespace (tkMeta (madeTracker sha c)) = TrackerNamespace (TrackerKindFor (TargetKeyFor c) (coCluster c)) (TargetKeyFor c)"
  by (simp_all add: madeTracker_def Let_def AddFinalizer_def no_meta_def)

lemma madeTracker_ref:
  "trackerRefOf (madeTracker sha c) =
     (let key = TargetKeyFor c; kind = TrackerKindFor key (coCluster c)
      in \<lparr>tkKind = kind, tkName = TrackerName sha key, tkNamespace = TrackerNamespace kind key\<rparr>)"
  by (simp add: trackerRefOf_def TrackerKind_def madeTracker_id Let_def TrackerKindFor_def kind_names)

lemma read_ref:
  assumes "mwTrackers w = [t]" and "trackerId m t"
  shows "run_state (getTracker mem_client (trackerRefOf m)) w = (Inr t, w)"
  using get_only[OF assms] by (cases "tkCluster m") (simp_all add: getTracker_def trackerRefOf_def TrackerKind_def kind_names)

lemma new_made:
  "\<exists>t. newTracker (tkKind (trackerRefOf (madeTracker sha c))) (tkName (trackerRefOf (madeTracker sha c)))
     (tkNamespace (trackerRefOf (madeTracker sha c))) (TargetKeyFor c) = Inr t \<and>
   t\<lparr>tkMeta := AddFinalizer TrackerFinalizer (tkMeta t)\<rparr> = madeTracker sha c"
  by (simp add: trackerRefOf_def TrackerKind_def madeTracker_def Let_def newTracker_def TrackerKindFor_def kind_names TrackerNamespace_def AddFinalizer_def
      no_meta_def)

lemma join_makes:
  assumes "plain env" and "mwTrackers w = []"
  shows "run_state (joinTracker env (trackerRefOf (madeTracker (ceSha env) c)) (TargetKeyFor c)) w =
    (Inr (trackerRefOf (madeTracker (ceSha env) c)), w\<lparr>mwTrackers := [bumpTracker (madeTracker (ceSha env) c)]\<rparr>)"
proof -
  let ?m = "madeTracker (ceSha env) c"
  have get: "run_state (getTracker mem_client (trackerRefOf ?m)) w = (Inl (NewNotFound ''trackers'' (tkName (trackerRefOf ?m))), w)"
    using assms(2) by (simp add: getTracker_def mem_client_def trackerRefOf_def TrackerKind_def kind_names)
  obtain t where t: "newTracker (tkKind (trackerRefOf ?m)) (tkName (trackerRefOf ?m)) (tkNamespace (trackerRefOf ?m)) (TargetKeyFor c) = Inr t"
    "t\<lparr>tkMeta := AddFinalizer TrackerFinalizer (tkMeta t)\<rparr> = ?m"
    using new_made by blast
  have "run_state (kcCreateTracker mem_client ?m) w = (Inr (bumpTracker ?m), w\<lparr>mwTrackers := [bumpTracker ?m]\<rparr>)"
    using assms(2) by (simp add: mem_client_def)
  with assms(1) get t show ?thesis by (simp add: joinTracker_def createTracker_def plain_def)
qed

lemma join_finds:
  assumes "plain env" and "mwTrackers w = [t]" and "trackerId m t" and "\<not> IsFenced (tkStatus t)"
  shows "run_state (joinTracker env (trackerRefOf m) key) w = (Inr (trackerRefOf m), w)"
  using assms read_ref[OF assms(2,3)] by (simp add: joinTracker_def plain_def followFence_def IsFenced_def split: option.split)

text \<open>Whichever branch registration takes, it comes to joining the tracker of the contributor's kind.\<close>

lemma ensure_joins:
  assumes "plain env" and "\<forall>t \<in> set (mwTrackers w). tkCluster t = tkCluster (madeTracker (ceSha env) c)"
  shows "run_state (ensureTracker env c (TargetKeyFor c)) w =
    run_state (joinTracker env (trackerRefOf (madeTracker (ceSha env) c)) (TargetKeyFor c)) w"
proof (cases "IsClusterScopedTarget (TargetKeyFor c)")
  case False
  note local = False
  show ?thesis
  proof (cases "coCluster c")
    case True
    then have "\<forall>t \<in> set (mwTrackers w). tkCluster t" using assms(2) by (simp add: madeTracker_id TrackerKindFor_def)
    with no_promotion[OF assms(1)] True local show ?thesis by (simp add: ensureTracker_def Let_def madeTracker_ref)
  next
    case False
    with local assms(2) have "\<forall>t \<in> set (mwTrackers w). \<not> tkCluster t" by (simp add: madeTracker_id TrackerKindFor_def kind_names)
    then have "find (sameTracker True '''' (TrackerName (ceSha env) (TargetKeyFor c))) (mwTrackers w) = None"
      by (auto simp: find_None_iff sameTracker_def)
    with False local assms(1) show ?thesis
      by (simp add: ensureTracker_def Let_def madeTracker_ref plain_def mem_client_def)
  qed
qed (simp add: ensureTracker_def Let_def madeTracker_ref)

section \<open>The passes\<close>

text \<open>The same contributor, up to its finalizers and its status.\<close>

definition same_contribution :: "Contributor \<Rightarrow> Contributor \<Rightarrow> bool" where
  "same_contribution c c' \<longleftrightarrow> coCluster c' = coCluster c \<and> coSpec c' = coSpec c \<and>
     (\<exists>fs. coMeta c' = (coMeta c)\<lparr>omFinalizers := fs\<rparr>)"

lemma same_contribution_facts:
  assumes "same_contribution c c'"
  shows "Validate c' lookup = Validate c lookup" and "TargetKeyFor c' = TargetKeyFor c" and "targetKeysFor c' = targetKeysFor c"
    and "madeTracker sha c' = madeTracker sha c" and "ContributorRefOf c' = ContributorRefOf c"
    and "rcStatus (recordOf env t c') = rcStatus (recordOf env t c)" and "coSpec (rcObj (recordOf env t c')) = coSpec (rcObj (recordOf env t c))"
    and "coName c' = coName c" and "coNamespace c' = coNamespace c" and "coCluster c' = coCluster c"
    and "omDeletionTimestamp (coMeta c') = omDeletionTimestamp (coMeta c)" and "omGeneration (coMeta c') = omGeneration (coMeta c)"
proof -
  obtain fs where c': "coCluster c' = coCluster c" "coSpec c' = coSpec c" "coMeta c' = (coMeta c)\<lparr>omFinalizers := fs\<rparr>"
    using assms unfolding same_contribution_def by blast
  show "TargetKeyFor c' = TargetKeyFor c" by (simp add: TargetKeyFor_def ResolveTargetNamespace_def c')
  then show "targetKeysFor c' = targetKeysFor c" "madeTracker sha c' = madeTracker sha c"
    by (simp_all add: targetKeysFor_def madeTracker_def c')
  show ref: "ContributorRefOf c' = ContributorRefOf c" by (simp add: ContributorRefOf_def ContributorKind_def c')
  show "Validate c' lookup = Validate c lookup"
  proof -
    have "validateNamespaced spec c' lookup = validateNamespaced spec c lookup" for spec by (simp add: validateNamespaced_def c')
    then show ?thesis unfolding Validate_def c' by (simp only:)
  qed
  show "rcStatus (recordOf env t c') = rcStatus (recordOf env t c)"
    unfolding recordOf_def recordFor_def ref by (simp add: ContributorKind_def c' Let_def)
qed (use assms in \<open>auto simp: same_contribution_def recordOf_def\<close>)

lemma get_patch:
  assumes "mwPatches w = [c]"
  shows "run_state (kcGetPatch mem_client (coCluster c) (coNamespace c) (coName c)) w = (Inr c, w)"
  using assms by (simp add: mem_client_def samePatch_def)

text \<open>The first pass puts the finalizer on.\<close>

lemma contributor_begins:
  assumes "plain env" and "mwPatches w = [c]" and "omDeletionTimestamp (coMeta c) = None"
    and "Validate c (Some (isNamespacedKind env)) = []" and "\<not> ContainsFinalizer (coMeta c) ContributorFinalizer"
  shows "contributorPass env c w =
    (Inr \<lparr>crRequeue = True, crRequeueAfter = 0\<rparr>, w\<lparr>mwPatches := [c\<lparr>coMeta := AddFinalizer ContributorFinalizer (coMeta c)\<rparr>]\<rparr>)"
proof -
  let ?d = "c\<lparr>coMeta := AddFinalizer ContributorFinalizer (coMeta c)\<rparr>"
  have "run_state (kcUpdatePatch mem_client ?d) w = (Inr ?d, w\<lparr>mwPatches := [?d]\<rparr>)"
    using assms(2) by (simp add: mem_client_def memPatch_def samePatch_def AddFinalizer_def)
  with assms get_patch[OF assms(2)] show ?thesis by (simp add: ReconcileContributor_def plain_def finish_def)
qed

text \<open>A later one registers and reports what the tracker says.\<close>

definition reported :: "MemCluster ContributorEnv \<Rightarrow> Tracker \<Rightarrow> Contributor \<Rightarrow> ResourcePatchStatus" where
  "reported env t c =
     syncedStatus (ceNow env) (omGeneration (coMeta c)) [trackerRefOf (madeTracker (ceSha env) c)] 1
       (observeTracker (ContributorRefOf c) (TargetKeyFor c) t no_tally) (coStatus c)"

abbreviation onPatch :: "Contributor \<Rightarrow> Contributor \<Rightarrow> bool" where
  "onPatch c \<equiv> samePatch (coCluster c) (coNamespace c) (coName c)"

definition withStatusOf :: "Contributor \<Rightarrow> ResourcePatchStatus \<Rightarrow> Contributor list \<Rightarrow> Contributor list" where
  "withStatusOf c st ps = map (\<lambda>p. if onPatch c p then p\<lparr>coStatus := st\<rparr> else p) ps"

lemma contributor_reports:
  assumes "plain env" and "find (onPatch c) (mwPatches w) = Some c" and "omDeletionTimestamp (coMeta c) = None"
    and "Validate c (Some (isNamespacedKind env)) = []" and "ContainsFinalizer (coMeta c) ContributorFinalizer"
    and "targetMode (coSpec c) = TargetModeSingle"
    and "if mwTrackers w = [] then t = bumpTracker (madeTracker (ceSha env) c)
         else mwTrackers w = [t] \<and> trackerId (madeTracker (ceSha env) c) t \<and> \<not> IsFenced (tkStatus t)"
  shows "contributorPass env c w =
    (Inr (requeueAfter 0), w\<lparr>mwTrackers := [t], mwPatches := withStatusOf c (reported env t c) (mwPatches w)\<rparr>)"
proof -
  let ?m = "madeTracker (ceSha env) c" and ?key = "TargetKeyFor c" and ?w1 = "w\<lparr>mwTrackers := [t]\<rparr>"
  let ?w2 = "w\<lparr>mwTrackers := [t], mwPatches := withStatusOf c (reported env t c) (mwPatches w)\<rparr>"
  have cl: "ceClient env = mem_client" using assms(1) by (simp add: plain_def)
  have id: "trackerId ?m t" using assms(7) by (auto simp: bumpTracker_def sameTracker_def split: if_splits)
  have kind: "\<forall>t \<in> set (mwTrackers w). tkCluster t = tkCluster ?m" using assms(7) by (auto simp: sameTracker_def split: if_splits)
  have "run_state (joinTracker env (trackerRefOf ?m) ?key) w = (Inr (trackerRefOf ?m), ?w1)"
    using assms(7) join_makes[OF assms(1)] join_finds[OF assms(1) _ id] by (auto split: if_splits)
  then have ensure: "run_state (ensureTrackers env c [?key]) w = (Inr [trackerRefOf ?m], ?w1)"
    using ensure_joins[OF assms(1) kind] by simp
  have "run_state (observeTargets env (ContributorRefOf c) [?key] [trackerRefOf ?m] no_tally) ?w1 =
      (Inr (observeTracker (ContributorRefOf c) ?key t no_tally), ?w1)"
    using read_ref[of ?w1 t ?m] id cl by simp
  moreover have "run_state (kcUpdatePatchStatus mem_client (c\<lparr>coStatus := st\<rparr>)) ?w1 =
      (Inr (c\<lparr>coStatus := st\<rparr>), ?w1\<lparr>mwPatches := withStatusOf c st (mwPatches w)\<rparr>)" for st
    using assms(2) by (simp add: mem_client_def memPatch_def withStatusOf_def)
  ultimately have "run_state (syncStatus env c [?key] [trackerRefOf ?m]) ?w1 = (Inr (c\<lparr>coStatus := reported env t c\<rparr>), ?w2)"
    by (simp add: syncStatus_def updateStatus_def cl reported_def del: observeTargets.simps)
  then have "run_state (register env c 0) w = (Inr (requeueAfter 0), ?w2)"
    using ensure assms(6) by (simp add: register_def resolveTargets_def finish_def del: ensureTrackers.simps)
  moreover have "reauthorize env c = State_Monad.return (Inr (0, c))" using assms(1) by (simp add: reauthorize_def plain_def)
  moreover have "run_state (kcGetPatch mem_client (coCluster c) (coNamespace c) (coName c)) w = (Inr c, w)"
    using assms(2) by (simp add: mem_client_def)
  ultimately show ?thesis using assms(3-5) by (simp add: ReconcileContributor_def cl)
qed

lemma contributor_registers:
  assumes "plain env" and "mwPatches w = [c]" and "omDeletionTimestamp (coMeta c) = None"
    and "Validate c (Some (isNamespacedKind env)) = []" and "ContainsFinalizer (coMeta c) ContributorFinalizer"
    and "targetMode (coSpec c) = TargetModeSingle"
    and "if mwTrackers w = [] then t = bumpTracker (madeTracker (ceSha env) c)
         else mwTrackers w = [t] \<and> trackerId (madeTracker (ceSha env) c) t \<and> \<not> IsFenced (tkStatus t)"
  shows "contributorPass env c w =
    (Inr (requeueAfter 0), w\<lparr>mwTrackers := [t], mwPatches := [c\<lparr>coStatus := reported env t c\<rparr>]\<rparr>)"
  using contributor_reports[OF assms(1) _ assms(3-7)] assms(2) by (simp add: withStatusOf_def samePatch_def)

section \<open>The first apply\<close>

lemma alone_not_superseded: "isSupersededOn iter r [r] pathClaims = None"
proof -
  have "beatenBy [r] prio 0 cl = []" for prio cl
    by (auto simp: beatenBy_def filter_empty_conv)
  then have none: "concat (map (\<lambda>(path, cl). beatenBy [r] prio 0 cl) xs) = []" for prio and xs :: "(string \<times> nat list) list"
    by (induction xs) auto
  have "indexOf [r] r = Some 0" by (simp add: indexOf_def)
  then show ?thesis by (simp add: isSupersededOn_def none del: concat_eq_Nil_conv)
qed

lemma observeLive_fields [simp]:
  "ssPromotedTo (observeLive live st) = ssPromotedTo st"
  "ssPromotedTo (provenance creator baseHash st) = ssPromotedTo st"
  by (simp_all add: observeLive_def provenance_def Let_def split: option.split)

text \<open>What a tracker's own writes leave as it was.\<close>

definition kept :: "Tracker \<Rightarrow> Tracker \<Rightarrow> bool" where
  "kept t t' \<longleftrightarrow> trackerId t t' \<and> tkSpec t' = tkSpec t \<and> omDeletionTimestamp (tkMeta t') = omDeletionTimestamp (tkMeta t) \<and>
     omFinalizers (tkMeta t') = omFinalizers (tkMeta t)"

lemma kept_refl [simp]: "kept t t"
  by (simp add: kept_def sameTracker_def)

lemma kept_trans: "kept t t' \<Longrightarrow> kept t' t'' \<Longrightarrow> kept t t''"
  by (simp add: kept_def sameTracker_def)

lemma kept_write: "kept t (bumpTracker (t\<lparr>tkStatus := st\<rparr>))"
  by (simp add: kept_def sameTracker_def bumpTracker_def)

lemma kept_id: "kept t t' \<Longrightarrow> trackerId t t'"
  by (simp add: kept_def)

lemma kept_working: "kept t t' \<Longrightarrow> working t \<Longrightarrow> \<not> IsFenced (tkStatus t') \<Longrightarrow> working t'"
  by (simp add: kept_def working_def ContainsFinalizer_def)

lemma recordApplied_mem:
  assumes "teClient env = mem_client" and "mwTrackers w = [t]" and "lpTracker ls = t"
  shows "\<exists>t1 t2. run_state (recordApplied env r contribution base result ls) w =
      (Next (addRecord (appliedRecord (rcStatus r) contribution result) (ls\<lparr>lpTracker := t2\<rparr>)), w\<lparr>mwTrackers := [t1]\<rparr>) \<and>
    tkMeta t2 = tkMeta t1 \<and> tkCluster t2 = tkCluster t1 \<and> kept t t1 \<and>
    ssPromotedTo (tkStatus t2) = ssPromotedTo (tkStatus t)"
proof (cases "reCreated result \<and> ssCreatorPatchRef (tkStatus (lpTracker ls)) = None")
  case True
  define hash where "hash = (case base of None \<Rightarrow> '''' | Some b \<Rightarrow> HashObject (teSha env) (JObj b))"
  define t1 where "t1 = bumpTracker (t\<lparr>tkStatus := provenance (csPatchRef (rcStatus r)) hash (tkStatus t)\<rparr>)"
  have "run_state (recordProvenance mem_client t (csPatchRef (rcStatus r)) hash) w = ((None, t1), w\<lparr>mwTrackers := [t1]\<rparr>)"
    using patchStatus_mem[OF assms(2) refl refl] by (simp add: recordProvenance_def t1_def)
  then have "run_state (recordApplied env r contribution base result ls) w =
      (Next (addRecord (appliedRecord (rcStatus r) contribution result) (ls\<lparr>lpTracker := updStatus (observeLive (reLive result)) t1\<rparr>)),
       w\<lparr>mwTrackers := [t1]\<rparr>)"
    using True assms(1,3) by (simp add: recordApplied_def hash_def)
  moreover have "kept t t1" unfolding t1_def by (rule kept_write)
  moreover have "ssPromotedTo (tkStatus t1) = ssPromotedTo (tkStatus t)" by (simp add: t1_def bumpTracker_def)
  ultimately show ?thesis by (intro exI[of _ t1] exI[of _ "updStatus (observeLive (reLive result)) t1"]) simp
next
  case False
  have same: "w\<lparr>mwTrackers := [t]\<rparr> = w" using assms(2) by (cases w) simp
  from False have "run_state (recordApplied env r contribution base result ls) w =
      (Next (addRecord (appliedRecord (rcStatus r) contribution result) (ls\<lparr>lpTracker := updStatus (observeLive (reLive result)) t\<rparr>)),
       w\<lparr>mwTrackers := [t]\<rparr>)"
    using assms(3) same by (auto simp: recordApplied_def Let_def)
  then show ?thesis by (intro exI[of _ t] exI[of _ "updStatus (observeLive (reLive result)) t"]) simp
qed

lemma applyActive_one:
  assumes "teClient env = mem_client" and "teNewFor env = None" and "mwTrackers w = [t]" and "\<not> IsFenced (tkStatus t)"
    and "Render (teSha env) (teJsonpatch env) (rsPatch (coSpec (rcObj r))) target = Inr contribution"
    and "For (asMode (rsApply (coSpec (rcObj r)))) = Inr a" and "baseFor (rcObj r) = Inr base"
    and "(case ParsePaths (csOwnedPaths (rcStatus r)) of Inl _ \<Rightarrow> [] | Inr ps \<Rightarrow> ps) = previous"
    and "decodePriorValues (csPriorValues (rcStatus r)) = Inr priors"
    and "run_state (applierApply (teSha env) a mem_client (applyRequest r contribution target previous priors base)) w = (Inr result, w1)"
    and "reConflict result = None"
  shows "\<exists>t'. run_state (applyActive env t [r] target) w = (Inr done_result, w\<lparr>mwTarget := mwTarget w1, mwTrackers := [t']\<rparr>) \<and>
    kept t t' \<and> \<not> IsFenced (tkStatus t') \<and>
    ssContributors (tkStatus t') = [appliedRecord (rcStatus r) contribution result]"
proof -
  let ?ls = "\<lparr>lpTracker = t, lpRecords = [], lpConflicts = [], lpAnyConflict = False, lpTargetExists = True\<rparr>"
  let ?claims = "detectPathConflicts (teSha env) [contribution]"
  obtain x where w1: "w1 = w\<lparr>mwTarget := x\<rparr>" using on_target_run(1)[OF on_target_applier(2) assms(10)] by blast
  then have "mwTrackers w1 = [t]" using assms(3) by simp
  then obtain t1 t2 where rec: "run_state (recordApplied env r contribution base result ?ls) w1 =
      (Next (addRecord (appliedRecord (rcStatus r) contribution result) (?ls\<lparr>lpTracker := t2\<rparr>)), w1\<lparr>mwTrackers := [t1]\<rparr>)"
    "tkMeta t2 = tkMeta t1" "tkCluster t2 = tkCluster t1" "kept t t1" "ssPromotedTo (tkStatus t2) = ssPromotedTo (tkStatus t)"
    using recordApplied_mem[OF assms(1), of w1 t ?ls r contribution base result] by auto
  define ls where "ls = addRecord (appliedRecord (rcStatus r) contribution result) (?ls\<lparr>lpTracker := t2\<rparr>)"
  have "run_state (applyContributor env target [r] ?claims (r, contribution) ?ls) w = (Next ls, w1\<lparr>mwTrackers := [t1]\<rparr>)"
    using assms(1,2,6-11) rec(1)
    by (simp add: applyContributor_def Let_def applierFor_def alone_not_superseded applyResult_def ls_def)
  then have loop: "run_state (applyLoop env target [r] ?claims [(r, contribution)] ?ls) w = (Next ls, w1\<lparr>mwTrackers := [t1]\<rparr>)"
    by simp
  let ?t2 = "updStatus (verdict (teNow env) ls) (lpTracker ls)"
  have "tkMeta ?t2 = tkMeta t1" "tkCluster ?t2 = tkCluster t1" using rec(2,3) by (simp_all add: ls_def addRecord_def)
  then obtain t' where t': "run_state (writeStatus mem_client ?t2 (Some (lpRecords ls)) (lpConflicts ls)) (w1\<lparr>mwTrackers := [t1]\<rparr>) =
      ((None, t'), w1\<lparr>mwTrackers := [t']\<rparr>)"
    "t' = bumpTracker (t1\<lparr>tkStatus := carryStatus (Some (lpRecords ls)) (lpConflicts ls) (tkStatus ?t2) (tkStatus ?t2)\<rparr>)"
    using writeStatus_mem[of "w1\<lparr>mwTrackers := [t1]\<rparr>" t1 ?t2] by auto
  have "run_state (applyActive env t [r] target) w = (Inr done_result, w1\<lparr>mwTrackers := [t']\<rparr>)"
    using assms(1,5) loop t'(1)
    by (simp add: applyActive_def withStatus_def done_result_def ls_def addRecord_def del: applyLoop.simps)
  moreover have "w1\<lparr>mwTrackers := [t']\<rparr> = w\<lparr>mwTarget := mwTarget w1, mwTrackers := [t']\<rparr>" by (simp add: w1)
  moreover have "kept t t'" unfolding t'(2) by (rule kept_trans[OF rec(4) kept_write])
  moreover have "\<not> IsFenced (tkStatus t')" "ssContributors (tkStatus t') = [appliedRecord (rcStatus r) contribution result]"
    using rec(5) assms(4) unfolding t'(2)
    by (auto simp: bumpTracker_def IsFenced_def verdict_def ls_def addRecord_def)
  ultimately show ?thesis by auto
qed

section \<open>From nothing to Ready\<close>

lemma madeTracker_indexed:
  assumes "Validate c lookup = []" and "targetMode (coSpec c) = TargetModeSingle"
    and "trackerTargetKey t = TargetKeyFor c" and "trackerId (madeTracker sha c) t"
  shows "indexed t c"
proof -
  have "trName (coTarget c) \<noteq> ''''"
    using assms(1,2) by (auto simp: Validate_def validateMode_def Let_def split: if_splits)
  then have "TargetKeyString (trackerTargetKey t) \<in> set (targetKeysFor c)" using assms(2,3) by (simp add: targetKeysFor_def)
  moreover have "tkCluster t \<or> \<not> coCluster c \<and> coNamespace c = omNamespace (tkMeta t)"
    using assms(4) by (auto simp: sameTracker_def madeTracker_id TrackerKindFor_def TrackerNamespace_def kind_names TargetKeyFor_def
        ResolveTargetNamespace_def split: if_splits)
  ultimately show ?thesis by (simp add: indexed_def)
qed

lemma tracker_applies:
  assumes "teClient env = mem_client" and "teNewFor env = None" and "mwTrackers w = [t]" and "mwPatches w = [c]"
    and "working t" and "indexed t c" and "omDeletionTimestamp (coMeta c) = None"
    and "(case ParsePaths (csOwnedPaths (rcStatus (recordOf env t c))) of Inl _ \<Rightarrow> [] | Inr ps \<Rightarrow> ps) = previous"
    and "decodePriorValues (csPriorValues (rcStatus (recordOf env t c))) = Inr priors"
    and "Render (teSha env) (teJsonpatch env) (rsPatch (coSpec c)) (renderTarget t) = Inr contribution"
    and "For (asMode (rsApply (coSpec c))) = Inr a" and "baseFor c = Inr base"
    and "run_state (applierApply (teSha env) a mem_client (applyRequest (recordOf env t c) contribution (renderTarget t) previous priors base)) w =
      (Inr result, w1)"
    and "reConflict result = None"
  shows "\<exists>t'. trackerPass env t w = (Inr done_result, w\<lparr>mwTarget := mwTarget w1, mwTrackers := [t']\<rparr>) \<and>
    kept t t' \<and> \<not> IsFenced (tkStatus t') \<and>
    ssContributors (tkStatus t') = [appliedRecord (rcStatus (recordOf env t c)) contribution result]"
proof -
  let ?r = "recordOf env t c"
  have obj: "rcObj ?r = c" by (simp add: recordOf_def)
  have unfenced: "\<not> IsFenced (tkStatus t)" using assms(5) by (simp add: working_def)
  obtain t' where t': "run_state (applyActive env t [?r] (renderTarget t)) w = (Inr done_result, w\<lparr>mwTarget := mwTarget w1, mwTrackers := [t']\<rparr>)"
    "kept t t'" "\<not> IsFenced (tkStatus t')" "ssContributors (tkStatus t') = [appliedRecord (rcStatus ?r) contribution result]"
    using applyActive_one[OF assms(1-3) unfenced, of ?r "renderTarget t" contribution a base previous priors result w1] assms(8-14)
    unfolding obj by blast
  have "splitReleasing [?r] = ([], [?r])" using assms(7) by (simp add: splitReleasing_def obj)
  then have "run_state (reconcileContributions env t [?r]) w = (Inr done_result, w\<lparr>mwTarget := mwTarget w1, mwTrackers := [t']\<rparr>)"
    using t'(1) by (simp add: reconcileContributions_def Let_def)
  moreover have "run_state (kcGetTracker mem_client (tkCluster t) (omNamespace (tkMeta t)) (omName (tkMeta t))) w = (Inr t, w)"
    by (rule get_only[OF assms(3)]) (simp add: sameTracker_def)
  ultimately have "trackerPass env t w = (Inr done_result, w\<lparr>mwTarget := mwTarget w1, mwTrackers := [t']\<rparr>)"
    using assms(1,5) listContributors_one[OF assms(1,4,6)] by (simp add: ReconcileTracker_def working_def)
  with t'(2-4) show ?thesis by blast
qed

lemma reported_applied:
  assumes "FindContributor (tkStatus t) (ContributorRefOf c) = Some rec" and "csState rec = ContributorStateApplied"
  shows "conditionIs (reported env t c) ''Ready'' ConditionTrue" and "psAppliedGeneration (reported env t c) = omGeneration (coMeta c)"
proof -
  have "all_applied 1 (observeTracker (ContributorRefOf c) (TargetKeyFor c) t no_tally)"
    using assms observeTracker_counts[of "ContributorRefOf c" "TargetKeyFor c" t no_tally] by (simp add: all_applied_def no_tally_def seen_def)
  then show "conditionIs (reported env t c) ''Ready'' ConditionTrue" "psAppliedGeneration (reported env t c) = omGeneration (coMeta c)"
    by (simp_all add: reported_def syncedStatus_facts)
qed

lemma reported_ready:
  assumes "ssContributors (tkStatus t) = [rec]" and "csPatchRef rec = ContributorRefOf c" and "csState rec = ContributorStateApplied"
  shows "conditionIs (reported env t c) ''Ready'' ConditionTrue" and "psAppliedGeneration (reported env t c) = omGeneration (coMeta c)"
  using reported_applied[of t c rec env] assms by (simp_all add: FindContributor_def)

lemma reported_waiting:
  assumes "ssContributors (tkStatus t) = []"
  shows "conditionIs (reported env t c) ''Ready'' ConditionFalse"
proof -
  have "\<not> all_applied 1 (observeTracker (ContributorRefOf c) (TargetKeyFor c) t no_tally)"
    using assms by (simp add: all_applied_def observeTracker_def FindContributor_def seeTarget_def Let_def)
  then show ?thesis by (simp add: reported_def syncedStatus_facts)
qed

text \<open>
  The contribution renders, and applied on its own to the target as it is, it goes in without a conflict.
\<close>

definition applies_alone ::
  "MemCluster TrackerEnv \<Rightarrow> Tracker \<Rightarrow> Contributor \<Rightarrow> MemCluster \<Rightarrow> Contribution \<Rightarrow> Result \<Rightarrow> MemCluster \<Rightarrow> bool" where
  "applies_alone env t c w contribution result w1 \<longleftrightarrow>
     Render (teSha env) (teJsonpatch env) (rsPatch (coSpec c)) (renderTarget t) = Inr contribution \<and> reConflict result = None \<and>
     (case (For (asMode (rsApply (coSpec c))), baseFor c) of
        (Inr a, Inr base) \<Rightarrow>
          run_state (applierApply (teSha env) a mem_client (applyRequest (recordOf env t c) contribution (renderTarget t) [] [] base)) w =
            (Inr result, w1)
      | _ \<Rightarrow> False)"

lemma applies_alone_later:
  assumes "applies_alone env m c w contribution result w1" and "same_contribution c c'"
    and "tkSpec t = tkSpec m" and "ssContributors (tkStatus t) = ssContributors (tkStatus m)"
  shows "applies_alone env t c' (w\<lparr>mwTrackers := ts, mwPatches := ps\<rparr>) contribution result
    (w\<lparr>mwTarget := mwTarget w1, mwTrackers := ts, mwPatches := ps\<rparr>)"
proof -
  have spec: "coSpec c' = coSpec c" using assms(2) by (simp add: same_contribution_def)
  have target: "renderTarget t = renderTarget m" by (simp add: renderTarget_def assms(3))
  have "rcStatus (recordOf env t c') = rcStatus (recordOf env m c)"
    using same_contribution_facts(6)[OF assms(2), of env t] assms(4)
    by (simp add: recordOf_def recordFor_def FindContributor_def Let_def)
  then have req: "applyRequest (recordOf env t c') contribution (renderTarget m) [] [] base =
      applyRequest (recordOf env m c) contribution (renderTarget m) [] [] base" for base
    by (simp add: applyRequest_def recordOf_def spec)
  have base: "baseFor c' = baseFor c" by (simp add: baseFor_def spec)
  show ?thesis
    using assms(1) on_target_run(2)[OF on_target_applier(2)]
    by (auto simp: applies_alone_def spec target req base split: sum.splits)
qed

text \<open>The second half: the tracker applies, the contributor reports.\<close>

lemma apply_and_report:
  assumes "teClient tenv = mem_client" and "teNewFor tenv = None" and "plain cenv"
    and "mwTrackers w = [t]" and "mwPatches w = [c]" and "omDeletionTimestamp (coMeta c) = None"
    and "Validate c (Some (isNamespacedKind cenv)) = []" and "ContainsFinalizer (coMeta c) ContributorFinalizer"
    and "targetMode (coSpec c) = TargetModeSingle"
    and "working t" and "ssContributors (tkStatus t) = []" and "trackerTargetKey t = TargetKeyFor c"
    and "trackerId (madeTracker (ceSha cenv) c) t" and "applies_alone tenv t c w contribution result w1"
  shows "\<exists>w' t' st. trackerPass tenv t w = (Inr done_result, w') \<and> mwTrackers w' = [t'] \<and> kept t t' \<and> \<not> IsFenced (tkStatus t') \<and>
    contributorPass cenv c w' =
      (Inr (requeueAfter 0), \<lparr>mwTarget = mwTarget w1, mwTrackers = [t'], mwPatches = [c\<lparr>coStatus := st\<rparr>]\<rparr>) \<and>
    ssContributors (tkStatus t') = [appliedRecord (rcStatus (recordOf tenv t c)) contribution result] \<and>
    conditionIs st ''Ready'' ConditionTrue \<and> psAppliedGeneration st = omGeneration (coMeta c)"
proof -
  let ?rec = "rcStatus (recordOf tenv t c)"
  obtain a base where ap: "Render (teSha tenv) (teJsonpatch tenv) (rsPatch (coSpec c)) (renderTarget t) = Inr contribution"
    "For (asMode (rsApply (coSpec c))) = Inr a" "baseFor c = Inr base"
    "run_state (applierApply (teSha tenv) a mem_client (applyRequest (recordOf tenv t c) contribution (renderTarget t) [] [] base)) w =
      (Inr result, w1)" "reConflict result = None"
    using assms(14) by (auto simp: applies_alone_def split: sum.splits)
  have fresh: "(case ParsePaths (csOwnedPaths ?rec) of Inl _ \<Rightarrow> [] | Inr ps \<Rightarrow> ps) = []" "decodePriorValues (csPriorValues ?rec) = Inr []"
    using assms(11) by (simp_all add: recordOf_def recordFor_def FindContributor_def decodePriorValues_def Let_def)
  obtain t' where t': "trackerPass tenv t w = (Inr done_result, w\<lparr>mwTarget := mwTarget w1, mwTrackers := [t']\<rparr>)" "kept t t'"
    "\<not> IsFenced (tkStatus t')" "ssContributors (tkStatus t') = [appliedRecord ?rec contribution result]"
    using tracker_applies[OF assms(1,2,4,5,10) madeTracker_indexed[OF assms(7,9,12,13)] assms(6) fresh ap] by blast
  let ?w' = "w\<lparr>mwTarget := mwTarget w1, mwTrackers := [t']\<rparr>"
  have id: "trackerId (madeTracker (ceSha cenv) c) t'" using assms(13) t'(2) by (simp add: kept_def sameTracker_def)
  have "contributorPass cenv c ?w' = (Inr (requeueAfter 0), ?w'\<lparr>mwTrackers := [t'], mwPatches := [c\<lparr>coStatus := reported cenv t' c\<rparr>]\<rparr>)"
    by (rule contributor_registers) (use assms id t'(3) in simp_all)
  moreover have "?w'\<lparr>mwTrackers := [t'], mwPatches := ps\<rparr> = \<lparr>mwTarget = mwTarget w1, mwTrackers = [t'], mwPatches = ps\<rparr>" for ps
    by (cases w) simp
  moreover have "csPatchRef (appliedRecord ?rec contribution result) = ContributorRefOf c"
    "csState (appliedRecord ?rec contribution result) = ContributorStateApplied"
    by (simp_all add: appliedRecord_def recordOf_def recordFor_def Let_def split: option.split)
  note reported_ready[OF t'(4) this, of cenv]
  moreover have "mwTrackers ?w' = [t']" by simp
  ultimately show ?thesis using t'(1-4) by metis
qed

text \<open>
  The passes by which a contribution lands. A valid contributor to one target that nobody has contributed to, whose fields
  can be applied, reaches the target in four passes: its finalizer is put on, its tracker is made (and it
  is reported not ready, since the tracker does not list it yet), the tracker applies the fields and
  records it as the one contributor, and the next pass of the contributor reports Ready for its
  generation.
\<close>

lemma landing_passes:
  assumes "teClient tenv = mem_client" and "teNewFor tenv = None" and "plain cenv"
    and "mwTrackers w = []" and "mwPatches w = [c]" and "omDeletionTimestamp (coMeta c) = None" and "omFinalizers (coMeta c) = []"
    and "Validate c (Some (isNamespacedKind cenv)) = []" and "targetMode (coSpec c) = TargetModeSingle"
    and "applies_alone tenv (madeTracker (ceSha cenv) c) c w contribution result w1"
  shows "\<exists>w2 w3 w4 c3 t3 t c'.
    contributorPass cenv c w = (Inr \<lparr>crRequeue = True, crRequeueAfter = 0\<rparr>, w2) \<and>
    contributorPass cenv c w2 = (Inr (requeueAfter 0), w3) \<and>
    mwTrackers w2 = [] \<and> mwTarget w3 = mwTarget w \<and> mwTrackers w3 = [t3] \<and> trackerId (madeTracker (ceSha cenv) c) t3 \<and>
    ssContributors (tkStatus t3) = [] \<and> mwPatches w3 = [c3] \<and> conditionIs (coStatus c3) ''Ready'' ConditionFalse \<and>
    trackerPass tenv (madeTracker (ceSha cenv) c) w3 = (Inr done_result, w4) \<and>
    mwTrackers w4 = [t] \<and> kept (madeTracker (ceSha cenv) c) t \<and> \<not> IsFenced (tkStatus t) \<and>
    contributorPass cenv c w4 = (Inr (requeueAfter 0), \<lparr>mwTarget = mwTarget w1, mwTrackers = [t], mwPatches = [c']\<rparr>) \<and>
    ssContributors (tkStatus t) = [appliedRecord (rcStatus (recordOf tenv (madeTracker (ceSha cenv) c) c)) contribution result] \<and>
    same_contribution c c' \<and> ContainsFinalizer (coMeta c') ContributorFinalizer \<and>
    conditionIs (coStatus c') ''Ready'' ConditionTrue \<and> psAppliedGeneration (coStatus c') = omGeneration (coMeta c)"
proof -
  define m where "m = madeTracker (ceSha cenv) c"
  define c2 where "c2 = c\<lparr>coMeta := AddFinalizer ContributorFinalizer (coMeta c)\<rparr>"
  define t3 where "t3 = bumpTracker m"
  define c3 where "c3 = c2\<lparr>coStatus := reported cenv t3 c2\<rparr>"
  let ?w2 = "w\<lparr>mwPatches := [c2]\<rparr>" and ?w3 = "w\<lparr>mwTrackers := [t3], mwPatches := [c3]\<rparr>"
  have sc2: "same_contribution c c2" using assms(7) by (auto simp: same_contribution_def c2_def AddFinalizer_def)
  then have sc3: "same_contribution c c3" by (auto simp: same_contribution_def c3_def)
  note f2 = same_contribution_facts[OF sc2] and f3 = same_contribution_facts[OF sc3]
  have fin: "ContainsFinalizer (coMeta c2) ContributorFinalizer" "ContainsFinalizer (coMeta c3) ContributorFinalizer"
    by (simp_all add: c2_def c3_def AddFinalizer_def ContainsFinalizer_def)
  have mode: "targetMode (coSpec c2) = TargetModeSingle" "targetMode (coSpec c3) = TargetModeSingle"
    using assms(9) by (simp_all add: c2_def c3_def)
  have 1: "contributorPass cenv c w = (Inr \<lparr>crRequeue = True, crRequeueAfter = 0\<rparr>, ?w2)"
    unfolding c2_def by (rule contributor_begins) (use assms in \<open>simp_all add: ContainsFinalizer_def\<close>)
  have "contributorPass cenv c2 ?w2 = (Inr (requeueAfter 0), ?w2\<lparr>mwTrackers := [t3], mwPatches := [c2\<lparr>coStatus := reported cenv t3 c2\<rparr>]\<rparr>)"
    by (rule contributor_registers) (use assms fin mode f2 in \<open>simp_all add: t3_def m_def\<close>)
  then have 2: "contributorPass cenv c ?w2 = (Inr (requeueAfter 0), ?w3)" by (simp add: f2 c3_def)
  have t3: "trackerId m t3" "working t3" "tkStatus t3 = no_status" "tkSpec t3 = tkSpec m" "trackerTargetKey t3 = TargetKeyFor c"
    by (simp_all add: t3_def m_def bumpTracker_def sameTracker_def working_def IsFenced_def no_status_def
        trackerTargetKey_def madeTracker_def Let_def AddFinalizer_def ContainsFinalizer_def no_meta_def)
  have none: "ssContributors (tkStatus t3) = []" by (simp add: t3(3) no_status_def)
  have waiting: "conditionIs (coStatus c3) ''Ready'' ConditionFalse" using reported_waiting[OF none] by (simp add: c3_def)
  have "applies_alone tenv t3 c3 ?w3 contribution result (w\<lparr>mwTarget := mwTarget w1, mwTrackers := [t3], mwPatches := [c3]\<rparr>)"
    by (rule applies_alone_later[OF assms(10) sc3]) (use t3 in \<open>simp_all add: m_def\<close>)
  from apply_and_report[OF assms(1-3) _ _ _ _ fin(2) mode(2) t3(2) none _ _ this] assms(6,8) t3(1,5) f3
  obtain w4 t st where 3: "trackerPass tenv t3 ?w3 = (Inr done_result, w4)" "mwTrackers w4 = [t]" "kept t3 t" "\<not> IsFenced (tkStatus t)"
    "contributorPass cenv c3 w4 = (Inr (requeueAfter 0), \<lparr>mwTarget = mwTarget w1, mwTrackers = [t], mwPatches = [c3\<lparr>coStatus := st\<rparr>]\<rparr>)"
    "ssContributors (tkStatus t) = [appliedRecord (rcStatus (recordOf tenv t3 c3)) contribution result]"
    "conditionIs st ''Ready'' ConditionTrue" "psAppliedGeneration st = omGeneration (coMeta c3)"
    by (auto simp: m_def)
  have rec: "rcStatus (recordOf tenv t3 c3) = rcStatus (recordOf tenv m c)"
    unfolding f3(6) by (simp add: recordOf_def t3(3) m_def)
  let ?c' = "c3\<lparr>coStatus := st\<rparr>"
  have "kept m t3" using kept_write[of m "tkStatus m"] by (simp add: t3_def)
  then have kept: "kept m t" using kept_trans 3(3) by blast
  have same: "same_contribution c ?c'" using sc3 by (auto simp: same_contribution_def)
  show ?thesis
    unfolding m_def[symmetric]
    by (rule exI[of _ ?w2], rule exI[of _ ?w3], rule exI[of _ w4], rule exI[of _ c3], rule exI[of _ t3], rule exI[of _ t], rule exI[of _ ?c'])
      (use 1 2 3 waiting rec fin f3 t3(1) none assms(4) kept same in \<open>simp add: sameTracker_def\<close>)
qed

text \<open>A sample: a ConfigMap with a value that a ResourcePatch overwrites, and what the patch renders to.\<close>

definition landing_cluster :: "string \<Rightarrow> MemCluster" where
  "landing_cluster v =
     \<lparr>mwTarget = Some [(''data'', JObj [(''a'', JStr v), (''b'', JStr ''kept'')])], mwTrackers = [], mwPatches = [sample_patch False '''']\<rparr>"

definition landing_contribution :: Contribution where
  "landing_contribution =
     (let obj = [(''apiVersion'', JStr ''v1''), (''data'', JObj [(''a'', JStr ''1'')]), (''kind'', JStr ''ConfigMap''),
            (''metadata'', JObj [(''name'', JStr ''cm''), (''namespace'', JStr ''team-a'')])]
      in \<lparr>cnObject = obj, cnPaths = [[FieldSegment ''data'', FieldSegment ''a'']], cnHash = HashObject (teSha mem_env) (JObj obj)\<rparr>)"

definition landing_result :: Result where
  "landing_result = csaResult False True [(''data'', JObj [(''a'', JStr ''1''), (''b'', JStr ''kept'')])] landing_contribution
     [(''data.a'', JStr ''old'')]"

end
