(* ===== verification/Webhook.thy ===== *)
theory Webhook
  imports Kube
begin

text \<open>
  Admission (\<^verbatim>\<open>internal/webhook\<close>): the authorization questions an operation on a contributor implies, the
  review of them, the validating and the mutating handler, and the re-check of a recorded principal. The
  RESTMapper, the parser of group versions, the reviews of the API server, the decoder of objects and the
  encoding of identities are parameters.
\<close>

section \<open>Questions\<close>

datatype Verb = VerbGet | VerbCreate | VerbUpdate | VerbPatch | VerbDelete | VerbImpersonate

fun VerbString :: "Verb \<Rightarrow> string" where
  "VerbString VerbGet = ''get''"
| "VerbString VerbCreate = ''create''"
| "VerbString VerbUpdate = ''update''"
| "VerbString VerbPatch = ''patch''"
| "VerbString VerbDelete = ''delete''"
| "VerbString VerbImpersonate = ''impersonate''"

datatype Operation = OperationCreate | OperationUpdate | OperationDelete | OperationOther string

fun OperationString :: "Operation \<Rightarrow> string" where
  "OperationString OperationCreate = ''CREATE''"
| "OperationString OperationUpdate = ''UPDATE''"
| "OperationString OperationDelete = ''DELETE''"
| "OperationString (OperationOther s) = s"

record Check =
  ckVerb :: Verb
  ckGroup :: string
  ckResource :: string
  ckNamespace :: string
  ckName :: string

definition CheckString :: "Check \<Rightarrow> string" where
  "CheckString c =
     (let target = (if ckGroup c \<noteq> '''' then ckResource c @ ''.'' @ ckGroup c else ckResource c);
          v = VerbString (ckVerb c)
      in if ckNamespace c \<noteq> '''' \<and> ckName c \<noteq> '''' then v @ '' '' @ target @ '' '' @ ckNamespace c @ ''/'' @ ckName c
         else if ckNamespace c \<noteq> '''' then v @ '' '' @ target @ '' in namespace '' @ ckNamespace c
         else if ckName c \<noteq> '''' then v @ '' '' @ target @ '' '' @ ckName c
         else v @ '' '' @ target @ '' (cluster-wide)'')"

type_synonym gv_parser = "string \<Rightarrow> (goerror, string \<times> string) result"

type_synonym resource_lookup = "string \<Rightarrow> string \<Rightarrow> (goerror, string \<times> bool) result"

definition guessResource :: "string \<Rightarrow> string" where
  "guessResource kind =
     (let l = ToLower kind
      in if HasSuffix l ''s'' \<or> HasSuffix l ''x'' \<or> HasSuffix l ''ch'' then l @ ''es''
         else if HasSuffix l ''y'' then TrimSuffix l ''y'' @ ''ies''
         else l @ ''s'')"

definition targetCheck :: "Contributor \<Rightarrow> string \<Rightarrow> string \<times> bool \<Rightarrow> Verb \<Rightarrow> Check" where
  "targetCheck c grp res v =
     \<lparr>ckVerb = v, ckGroup = grp, ckResource = fst res,
      ckNamespace = (if snd res then ResolveTargetNamespace c else ''''),
      ckName = (if trMode (coTarget c) = TargetModeSelector then '''' else trName (coTarget c))\<rparr>"

definition resourceOf :: "resource_lookup option \<Rightarrow> Contributor \<Rightarrow> string \<times> bool" where
  "resourceOf lookup c =
     (let guess = (guessResource (trKind (coTarget c)), True)
      in case lookup of
           None \<Rightarrow> guess
         | Some f \<Rightarrow> (case f (trAPIVersion (coTarget c)) (trKind (coTarget c)) of Inl e \<Rightarrow> guess | Inr r \<Rightarrow> r))"

definition targetChecks ::
  "gv_parser \<Rightarrow> Contributor \<Rightarrow> resource_lookup option \<Rightarrow> Verb list \<Rightarrow> (goerror, Check list) result" where
  "targetChecks parse c lookup verbs =
     (case parse (trAPIVersion (coTarget c)) of
        Inl e \<Rightarrow> Inl (Errorw ''parsing target apiVersion %q: %w'' [trAPIVersion (coTarget c)] e)
      | Inr gv \<Rightarrow> Inr (map (targetCheck c (fst gv) (resourceOf lookup c)) verbs))"

definition specVerbs :: "ResourcePatchSpec \<Rightarrow> Verb list" where
  "specVerbs spec =
     [VerbUpdate, VerbPatch] @
     (if lcOnMissing (rsLifecycle spec) = OnMissingCreate then [VerbCreate] else []) @
     (if lcOnRelease (rsLifecycle spec) = OnReleaseDelete then [VerbDelete] else [])"

definition impersonateChecks :: "Contributor \<Rightarrow> Check list" where
  "impersonateChecks c =
     (case rsServiceAccountRef (coSpec c) of
        None \<Rightarrow> []
      | Some ref \<Rightarrow>
          if saName ref = '''' then []
          else [\<lparr>ckVerb = VerbImpersonate, ckGroup = '''', ckResource = ''serviceaccounts'',
                 ckNamespace = (if \<not> coCluster c then coNamespace c else saNamespace ref), ckName = saName ref\<rparr>])"

definition checksForSpec :: "gv_parser \<Rightarrow> Contributor \<Rightarrow> resource_lookup option \<Rightarrow> (goerror, Check list) result" where
  "checksForSpec parse c lookup =
     (case targetChecks parse c lookup (specVerbs (coSpec c)) of
        Inl e \<Rightarrow> Inl e
      | Inr checks \<Rightarrow> Inr (checks @ impersonateChecks c))"

definition targetChanged :: "Contributor \<Rightarrow> Contributor \<Rightarrow> bool" where
  "targetChanged old new \<longleftrightarrow>
     (let a = coTarget old; b = coTarget new
      in trAPIVersion a \<noteq> trAPIVersion b \<or> trKind a \<noteq> trKind b \<or> trName a \<noteq> trName b \<or>
         trNamespace a \<noteq> trNamespace b \<or> trMode a \<noteq> trMode b)"

text \<open>
  The map of seen checks is ranged over in any order, and then sorted by distinct texts: \<open>order\<close> is what
  the range makes of it, and the result does not depend on it.
\<close>

definition dedupeOrder :: "(Check list \<Rightarrow> Check list) \<Rightarrow> Check list \<Rightarrow> Check list" where
  "dedupeOrder order cs =
     sliceStable (\<lambda>a b. CheckString a < CheckString b) (order (map snd (fold (\<lambda>c. aput (CheckString c) c) cs [])))"

definition dedupeChecks :: "Check list \<Rightarrow> Check list" where
  "dedupeChecks cs = dedupeOrder id cs"

text \<open>The checks of a create or an update, of an object that is there.\<close>

definition writeChecks ::
  "gv_parser \<Rightarrow> bool \<Rightarrow> Contributor \<Rightarrow> Contributor option \<Rightarrow> resource_lookup option \<Rightarrow> (goerror, Check list) result" where
  "writeChecks parse update c old lookup =
     (case checksForSpec parse c lookup of
        Inl e \<Rightarrow> Inl e
      | Inr checks \<Rightarrow>
          (case old of
             None \<Rightarrow> Inr (dedupeChecks checks)
           | Some o' \<Rightarrow>
               if update \<and> targetChanged o' c then
                 (case checksForSpec parse o' lookup of
                    Inl e \<Rightarrow> Inl e
                  | Inr oldChecks \<Rightarrow> Inr (dedupeChecks (checks @ oldChecks)))
               else Inr (dedupeChecks checks)))"

definition deleteChecks :: "gv_parser \<Rightarrow> Contributor \<Rightarrow> resource_lookup option \<Rightarrow> (goerror, Check list) result" where
  "deleteChecks parse subject lookup =
     (if lcOnRelease (rsLifecycle (coSpec subject)) = OnReleaseOrphan then Inr []
      else
        (case targetChecks parse subject lookup
                (if lcOnRelease (rsLifecycle (coSpec subject)) = OnReleaseDelete then [VerbDelete] else [VerbUpdate, VerbPatch]) of
           Inl e \<Rightarrow> Inl e
         | Inr checks \<Rightarrow> Inr (dedupeChecks checks)))"

text \<open>\<^const>\<open>None\<close> is the nil dereference of a create or an update that carries no object.\<close>

definition ChecksFor ::
  "gv_parser \<Rightarrow> Operation \<Rightarrow> Contributor option \<Rightarrow> Contributor option \<Rightarrow> resource_lookup option
    \<Rightarrow> (goerror, Check list) result option" where
  "ChecksFor parse op c old lookup =
     (case op of
        OperationCreate \<Rightarrow> map_option (\<lambda>c. writeChecks parse False c old lookup) c
      | OperationUpdate \<Rightarrow> map_option (\<lambda>c. writeChecks parse True c old lookup) c
      | OperationDelete \<Rightarrow>
          Some (case (case c of None \<Rightarrow> old | Some _ \<Rightarrow> c) of
                  None \<Rightarrow> Inl (Errorf ''DELETE admission carried neither object nor oldObject'' [])
                | Some subject \<Rightarrow> deleteChecks parse subject lookup)
      | OperationOther s \<Rightarrow> Some (Inl (Errorf ''unsupported operation %q'' [s])))"

section \<open>Reviews\<close>

record SubjectAccessReview =
  svUser :: string
  svGroups :: "string list"
  svUID :: string
  svExtra :: "(string \<times> string list) list"
  svAttributes :: Check

record ReviewStatus =
  rvAllowed :: bool
  rvDenied :: bool
  rvReason :: string

record 'w Authorizer =
  auReview :: "SubjectAccessReview \<Rightarrow> ('w, ReviewStatus) io"
  auMapper :: "(string \<times> string \<Rightarrow> string \<Rightarrow> (goerror, string \<times> bool) result) option"
  auParse :: gv_parser

record Denial =
  dnCheck :: Check
  dnReason :: string

definition reviewOf :: "UserInfo \<Rightarrow> Check \<Rightarrow> SubjectAccessReview" where
  "reviewOf user c =
     \<lparr>svUser = uiUsername user, svGroups = uiGroups user, svUID = uiUID user, svExtra = uiExtra user, svAttributes = c\<rparr>"

fun Authorize :: "'w Authorizer \<Rightarrow> UserInfo \<Rightarrow> Check list \<Rightarrow> ('w, Denial option) io" where
  "Authorize au user [] = State_Monad.return (Inr None)"
| "Authorize au user (c # cs) =
     do {
       r \<leftarrow> auReview au (reviewOf user c);
       case r of
         Inl e \<Rightarrow> State_Monad.return (Inl (Errorw ''creating SubjectAccessReview for %s: %w'' [CheckString c] e))
       | Inr st \<Rightarrow>
           if \<not> rvAllowed st \<or> rvDenied st then
             State_Monad.return (Inr (Some \<lparr>dnCheck = c,
               dnReason = (if rvReason st = '''' then ''not permitted by RBAC'' else rvReason st)\<rparr>))
           else Authorize au user cs
     }"

definition ResourceFor :: "'w Authorizer \<Rightarrow> resource_lookup" where
  "ResourceFor au apiVersion kind =
     (case auMapper au of
        None \<Rightarrow> Inl (Errorf ''no RESTMapper configured'' [])
      | Some mapping \<Rightarrow> (case auParse au apiVersion of Inl e \<Rightarrow> Inl e | Inr gv \<Rightarrow> mapping gv kind))"

definition IsNamespacedKind :: "'w Authorizer \<Rightarrow> kind_lookup" where
  "IsNamespacedKind au apiVersion kind = map_sum id snd (ResourceFor au apiVersion kind)"

section \<open>The re-check\<close>

definition withGroups :: "UserInfo \<Rightarrow> UserInfo" where
  "withGroups user =
     (if uiGroups user = [] \<and> HasPrefix (uiUsername user) ''system:serviceaccount:''
      then user\<lparr>uiGroups := [''system:serviceaccounts'', ''system:authenticated'']\<rparr> else user)"

text \<open>The checks of a create never dereference nil, since the contributor is there.\<close>

definition ReauthorizerAuthorize :: "'w Authorizer \<Rightarrow> UserInfo \<Rightarrow> Contributor \<Rightarrow> ('w, bool \<times> string) io" where
  "ReauthorizerAuthorize au user c =
     (case the (ChecksFor (auParse au) OperationCreate (Some c) None (Some (ResourceFor au))) of
        Inl e \<Rightarrow> State_Monad.return (Inr (False, ErrorText e))
      | Inr checks \<Rightarrow>
          do {
            r \<leftarrow> Authorize au (withGroups user) checks;
            State_Monad.return
              (case r of
                 Inl e \<Rightarrow> Inl e
               | Inr (Some denial) \<Rightarrow>
                   Inr (False, Sprintf ''%s may no longer %s: %s'' [uiUsername user, CheckString (dnCheck denial), dnReason denial])
               | Inr None \<Rightarrow> Inr (True, ''''))
          })"

section \<open>The validating handler\<close>

record AdmissionRequest =
  arOperation :: Operation
  arObject :: string
  arOldObject :: string
  arUserInfo :: UserInfo

datatype Response =
    Allowed
  | Denied string
  | Errored nat goerror
  | PatchResponseFromRaw string string

type_synonym decoder = "string \<Rightarrow> (goerror, Contributor) result"

definition decodeRaw :: "decoder \<Rightarrow> string \<Rightarrow> string \<Rightarrow> (goerror, Contributor option) result" where
  "decodeRaw dec what raw =
     (if raw = '''' then Inr None
      else (case dec raw of Inl e \<Rightarrow> Inl (Errorw (''decoding '' @ what @ '': %w'') [] e) | Inr c \<Rightarrow> Inr (Some c)))"

definition decodeRequest :: "decoder \<Rightarrow> AdmissionRequest \<Rightarrow> (goerror, Contributor option \<times> Contributor option) result" where
  "decodeRequest dec req =
     (case decodeRaw dec ''object'' (arObject req) of
        Inl e \<Rightarrow> Inl e
      | Inr obj \<Rightarrow>
          (case decodeRaw dec ''oldObject'' (arOldObject req) of
             Inl e \<Rightarrow> Inl e
           | Inr oldObj \<Rightarrow>
               if obj = None \<and> oldObj = None then Inl (Errorf ''admission request carried neither object nor oldObject'' [])
               else Inr (obj, oldObj)))"

definition specErrors :: "'w Authorizer \<Rightarrow> Operation \<Rightarrow> Contributor option \<Rightarrow> FieldError list" where
  "specErrors au op obj =
     (if op = OperationDelete then []
      else (case obj of None \<Rightarrow> [] | Some c \<Rightarrow> Validate c (Some (IsNamespacedKind au))))"

text \<open>\<open>aggregate\<close> is how a list of field errors reads as one. \<^const>\<open>None\<close> is a panic.\<close>

definition ValidatorHandle ::
  "'w Authorizer \<Rightarrow> decoder \<Rightarrow> (FieldError list \<Rightarrow> string) \<Rightarrow> AdmissionRequest \<Rightarrow> ('w, Response option) state" where
  "ValidatorHandle au dec aggregate req =
     (case decodeRequest dec req of
        Inl e \<Rightarrow> State_Monad.return (Some (Errored 400 e))
      | Inr (obj, oldObj) \<Rightarrow>
          if specErrors au (arOperation req) obj \<noteq> [] then
            State_Monad.return (Some (Denied (aggregate (specErrors au (arOperation req) obj))))
          else
            (case ChecksFor (auParse au) (arOperation req) obj oldObj (Some (ResourceFor au)) of
               None \<Rightarrow> State_Monad.return None
             | Some (Inl e) \<Rightarrow> State_Monad.return (Some (Errored 400 e))
             | Some (Inr checks) \<Rightarrow>
                 if checks = [] then State_Monad.return (Some Allowed)
                 else
                   do {
                     r \<leftarrow> Authorize au (arUserInfo req) checks;
                     State_Monad.return
                       (case r of
                          Inl e \<Rightarrow> Some (Errored 500 e)
                        | Inr (Some denial) \<Rightarrow>
                            Some (Denied (Sprintf ''%s may not %s, so it may not create a contributor that does: %s''
                              [uiUsername (arUserInfo req), CheckString (dnCheck denial), dnReason denial]))
                        | Inr None \<Rightarrow> Some Allowed)
                   }))"

definition Operations :: "Operation list" where
  "Operations = [OperationCreate, OperationUpdate, OperationDelete]"

section \<open>The mutating handler\<close>

record PrincipalRecorder =
  prDecode :: decoder
  prMarshal :: "Contributor \<Rightarrow> (goerror, string) result"
  prMarshalIdentity :: "RecordedIdentity \<Rightarrow> (goerror, string) result"
  prUnmarshalIdentity :: "string \<Rightarrow> RecordedIdentity option"
  prDeepEqual :: "ResourcePatchSpec \<Rightarrow> ResourcePatchSpec \<Rightarrow> bool"

definition shouldRecord :: "PrincipalRecorder \<Rightarrow> Operation \<Rightarrow> AdmissionRequest \<Rightarrow> Contributor \<Rightarrow> bool" where
  "shouldRecord m op req obj \<longleftrightarrow>
     (if op = OperationCreate then True
      else if IdentityFromAnnotations (prUnmarshalIdentity m) (coMeta obj) = None then True
      else if arOldObject req = '''' then True
      else (case prDecode m (arOldObject req) of
              Inl e \<Rightarrow> True
            | Inr oldObj \<Rightarrow> \<not> prDeepEqual m (coSpec oldObj) (coSpec obj)))"

definition annotated :: "UserInfo \<Rightarrow> string \<Rightarrow> Contributor \<Rightarrow> Contributor" where
  "annotated user identity obj =
     obj\<lparr>coMeta := (coMeta obj)\<lparr>omAnnotations :=
       aput AuthorizedIdentityAnnotation identity (aput AuthorizedAsAnnotation (uiUsername user) (omAnnotations (coMeta obj)))\<rparr>\<rparr>"

definition RecorderHandle :: "PrincipalRecorder \<Rightarrow> AdmissionRequest \<Rightarrow> Response" where
  "RecorderHandle m req =
     (let op = arOperation req; user = arUserInfo req
      in if op \<noteq> OperationCreate \<and> op \<noteq> OperationUpdate then Allowed
         else if arObject req = '''' then Allowed
         else (case prDecode m (arObject req) of
                 Inl e \<Rightarrow> Errored 400 (Errorw ''decoding object: %w'' [] e)
               | Inr obj \<Rightarrow>
                   if \<not> shouldRecord m op req obj then Allowed
                   else (case prMarshalIdentity m user of
                           Inl e \<Rightarrow> Errored 500 e
                         | Inr identity \<Rightarrow>
                             if annotation (coMeta obj) AuthorizedAsAnnotation = uiUsername user \<and>
                                annotation (coMeta obj) AuthorizedIdentityAnnotation = identity then Allowed
                             else (case prMarshal m (annotated user identity obj) of
                                     Inl e \<Rightarrow> Errored 500 e
                                   | Inr marshaled \<Rightarrow> PatchResponseFromRaw (arObject req) marshaled))))"

definition MutatingOperations :: "Operation list" where
  "MutatingOperations = [OperationCreate, OperationUpdate]"

end
