(* ===== verification/WebhookLaws.thy ===== *)
theory WebhookLaws
  imports Webhook
begin

text \<open>
  What admission promises: nothing is admitted that was not reviewed, the questions cover every write an
  operation implies, the re-check asks what admission asked, and a recorded principal is the requester;
  and the one case where a requester can write the record itself.
\<close>

section \<open>The list of questions\<close>

lemma SplitByte_once: "sep \<notin> set a \<Longrightarrow> SplitByte (a @ sep # b) sep = a # SplitByte b sep"
  by (induction a) auto

lemma SplitByte_none: "sep \<notin> set a \<Longrightarrow> SplitByte a sep = [a]"
  by (induction a) auto

lemma verb_no_space: "CHR '' '' \<notin> set (VerbString v)"
  by (cases v) simp_all

lemma VerbString_inj: "VerbString v = VerbString v' \<longleftrightarrow> v = v'"
  by (cases v; cases v') simp_all

text \<open>No field holds a byte that the text uses as a separator: no API name does.\<close>

definition clean :: "Check \<Rightarrow> bool" where
  "clean c \<longleftrightarrow> list_all (\<lambda>s. set s \<inter> set '' /('' = {}) [ckGroup c, ckResource c, ckNamespace c, ckName c] \<and> CHR ''.'' \<notin> set (ckResource c)"

definition targetText :: "Check \<Rightarrow> string" where
  "targetText c = (if ckGroup c \<noteq> '''' then ckResource c @ ''.'' @ ckGroup c else ckResource c)"

definition placeWords :: "Check \<Rightarrow> string list" where
  "placeWords c =
     (if ckNamespace c \<noteq> '''' \<and> ckName c \<noteq> '''' then [ckNamespace c @ ''/'' @ ckName c]
      else if ckNamespace c \<noteq> '''' then [''in'', ''namespace'', ckNamespace c]
      else if ckName c \<noteq> '''' then [ckName c]
      else [''(cluster-wide)''])"

lemma CheckString_words:
  assumes "clean c"
  shows "SplitByte (CheckString c) (CHR '' '') = VerbString (ckVerb c) # targetText c # placeWords c"
proof -
  have no: "CHR '' '' \<notin> set (targetText c)" "CHR '' '' \<notin> set (ckNamespace c)" "CHR '' '' \<notin> set (ckName c)"
    using assms by (auto simp: clean_def targetText_def)
  have split: "SplitByte (VerbString (ckVerb c) @ '' '' @ targetText c @ CHR '' '' # place) (CHR '' '') =
      VerbString (ckVerb c) # targetText c # SplitByte place (CHR '' '')" for place
    using SplitByte_once[OF verb_no_space, of "ckVerb c"] SplitByte_once[OF no(1)] by simp
  have ns: "SplitByte (''in namespace '' @ ckNamespace c) (CHR '' '') = [''in'', ''namespace'', ckNamespace c]"
    using SplitByte_none[OF no(2)] by simp
  have both: "SplitByte (ckNamespace c @ ''/'' @ ckName c) (CHR '' '') = [ckNamespace c @ ''/'' @ ckName c]"
    using no by (intro SplitByte_none) simp
  show ?thesis
    using split[of "ckNamespace c @ ''/'' @ ckName c"] split[of "''in namespace '' @ ckNamespace c"] split[of "ckName c"]
      split[of "''(cluster-wide)''"] ns both SplitByte_none[OF no(3)]
    by (simp add: CheckString_def placeWords_def targetText_def Let_def)
qed

lemma split_at_once:
  assumes "a @ sep # b = a' @ sep # b'" and "sep \<notin> set a" and "sep \<notin> set a'"
  shows "a = a' \<and> b = b'"
  using assms
proof (induction a arbitrary: a')
  case Nil
  then show ?case by (cases a') auto
next
  case (Cons x a)
  then show ?case by (cases a') auto
qed

lemma targetText_inj:
  assumes "clean c" and "clean d" and "targetText c = targetText d"
  shows "ckGroup c = ckGroup d \<and> ckResource c = ckResource d"
proof -
  have no: "CHR ''.'' \<notin> set (ckResource c)" "CHR ''.'' \<notin> set (ckResource d)" using assms by (simp_all add: clean_def)
  show ?thesis
  proof (cases "ckGroup c = '''' \<or> ckGroup d = ''''")
    case True
    have dot: "ckResource x @ CHR ''.'' # g \<noteq> ckResource y" if "CHR ''.'' \<notin> set (ckResource y)" for x y :: Check and g
      using that by (metis in_set_conv_decomp)
    show ?thesis using True assms(3) dot[OF no(1), of d "ckGroup d"] dot[OF no(2), of c "ckGroup c"]
      by (cases "ckGroup c = ''''"; cases "ckGroup d = ''''") (simp_all add: targetText_def)
  next
    case False
    then have "ckResource c @ CHR ''.'' # ckGroup c = ckResource d @ CHR ''.'' # ckGroup d"
      using assms(3) by (simp add: targetText_def)
    from split_at_once[OF this no] show ?thesis by simp
  qed
qed

lemma placeWords_inj:
  assumes "clean c" and "clean d" and "placeWords c = placeWords d"
  shows "ckNamespace c = ckNamespace d \<and> ckName c = ckName d"
proof -
  have slash: "CHR ''/'' \<notin> set (ckNamespace x)" "CHR ''/'' \<notin> set (ckName x)" "CHR ''('' \<notin> set (ckName x)" if "clean x" for x
    using that by (auto simp: clean_def)
  have wide: "CHR ''('' \<in> set ''(cluster-wide)''" by simp
  have both: "ckNamespace c @ ''/'' @ ckName c = ckNamespace d @ ''/'' @ ckName d \<Longrightarrow> ckNamespace c = ckNamespace d \<and> ckName c = ckName d"
    using split_at_once[OF _ slash(1)[OF assms(1)] slash(1)[OF assms(2)]] by simp
  have mixed: "ckNamespace x @ ''/'' @ ckName x \<noteq> ckName y" "ckNamespace x @ ''/'' @ ckName x \<noteq> ''(cluster-wide)''"
    if "clean y" for x y
  proof -
    have s: "CHR ''/'' \<in> set (ckNamespace x @ ''/'' @ ckName x)" by simp
    have "CHR ''/'' \<notin> set ''(cluster-wide)''" by simp
    with s show "ckNamespace x @ ''/'' @ ckName x \<noteq> ''(cluster-wide)''" by metis
    from s slash(2)[OF that] show "ckNamespace x @ ''/'' @ ckName x \<noteq> ckName y" by metis
  qed
  have "ckName x \<noteq> ''(cluster-wide)''" if "clean x" for x using slash(3)[OF that] wide by metis
  with both mixed(2)[OF assms(1), of c] mixed(2)[OF assms(2), of d] this[OF assms(1)] this[OF assms(2)] show ?thesis
    using assms(3)
    by (cases "ckNamespace c = ''''"; cases "ckName c = ''''"; cases "ckNamespace d = ''''"; cases "ckName d = ''''")
      (use mixed(1)[OF assms(2), of c] mixed(1)[OF assms(1), of d] in \<open>auto simp: placeWords_def split: if_splits\<close>)
qed

lemma CheckString_inj: "clean c \<Longrightarrow> clean d \<Longrightarrow> CheckString c = CheckString d \<Longrightarrow> c = d"
  using CheckString_words[of c] CheckString_words[of d] targetText_inj[of c d] placeWords_inj[of c d]
  by (intro Check.equality) (simp_all add: VerbString_inj)

definition seenChecks :: "Check list \<Rightarrow> (string \<times> Check) list" where
  "seenChecks cs = fold (\<lambda>c. aput (CheckString c) c) cs []"

lemma seenChecks_ok:
  "akeys_ok (seenChecks cs) \<and> (\<forall>p \<in> set (seenChecks cs). fst p = CheckString (snd p) \<and> snd p \<in> set cs) \<and>
   fst ` set (seenChecks cs) = CheckString ` set cs"
proof (induction cs rule: rev_induct)
  case (snoc c cs)
  have step: "seenChecks (cs @ [c]) = aput (CheckString c) c (seenChecks cs)" by (simp add: seenChecks_def)
  have "\<forall>p \<in> set (seenChecks (cs @ [c])). fst p = CheckString (snd p) \<and> snd p \<in> set (cs @ [c])"
    using snoc aput_value_cases[of _ _ "CheckString c" c "seenChecks cs"] unfolding step by fastforce
  moreover have "fst ` set (seenChecks (cs @ [c])) = CheckString ` set (cs @ [c])"
    using snoc unfolding step set_keys_aput by auto
  moreover have "akeys_ok (seenChecks (cs @ [c]))" using snoc unfolding step by (simp add: akeys_ok_aput)
  ultimately show ?case by blast
qed (simp add: seenChecks_def)

lemma dedupe_key: "dedupeOrder order cs = sort_key CheckString (order (map snd (seenChecks cs)))"
  unfolding dedupeOrder_def seenChecks_def by (rule sliceStable_key) (rule refl)

lemma seenChecks_texts: "map CheckString (map snd (seenChecks cs)) = map fst (seenChecks cs)"
  using seenChecks_ok[of cs] by (simp add: list_eq_iff_nth_eq)

lemma dedupe_values: "dedupeChecks cs = map snd (seenChecks cs)"
proof -
  have "sorted (map fst (seenChecks cs))" using seenChecks_ok[of cs] by (simp add: akeys_ok_def strict_sorted_iff)
  then have "sorted (map CheckString (map snd (seenChecks cs)))" unfolding seenChecks_texts .
  then show ?thesis unfolding dedupeChecks_def dedupe_key id_apply by (rule sort_key_id_if_sorted)
qed

lemma dedupe_texts [simp]: "CheckString ` set (dedupeChecks cs) = CheckString ` set cs"
proof -
  have "CheckString ` set (dedupeChecks cs) = set (map CheckString (map snd (seenChecks cs)))"
    unfolding dedupe_values set_map ..
  also have "\<dots> = CheckString ` set cs" unfolding seenChecks_texts set_map using seenChecks_ok[of cs] by blast
  finally show ?thesis .
qed

text \<open>
  The list of questions is canonical: it is strictly sorted by text, has the text of every question
  asked for and only questions asked for, does not depend on the order in which Go ranges over the map of
  seen checks, and holds exactly the questions asked for when their fields are API names.
\<close>

theorem dedupe_canonical:
  shows "sorted_wrt (<) (map CheckString (dedupeChecks cs)) \<and> CheckString ` set (dedupeChecks cs) = CheckString ` set cs \<and>
    set (dedupeChecks cs) \<subseteq> set cs \<and> (list_all clean cs \<longrightarrow> set (dedupeChecks cs) = set cs) \<and>
    (\<forall>order. mset (order (map snd (seenChecks cs))) = mset (map snd (seenChecks cs)) \<longrightarrow> dedupeOrder order cs = dedupeChecks cs)"
proof -
  let ?vs = "map snd (seenChecks cs)"
  note ok = seenChecks_ok[of cs]
  note texts = seenChecks_texts[of cs]
  have strict: "sorted_wrt (<) (map CheckString ?vs)" using ok unfolding texts by (simp add: akeys_ok_def)
  then have "distinct (map CheckString ?vs)" by (simp only: strict_sorted_iff)
  then have inj: "inj_on CheckString (set ?vs)" by (simp only: distinct_map)
  note d = dedupe_values[of cs]
  have sub: "set ?vs \<subseteq> set cs" using ok by auto
  have img: "CheckString ` set ?vs = CheckString ` set cs" using dedupe_texts[of cs] unfolding d .
  have "set ?vs = set cs" if "list_all clean cs"
  proof
    show "set cs \<subseteq> set ?vs"
    proof
      fix c assume c: "c \<in> set cs"
      then obtain c' where c': "c' \<in> set ?vs" "CheckString c' = CheckString c" using img by (metis (no_types, lifting) imageE imageI)
      then have "c' = c" using that c sub by (intro CheckString_inj) (auto simp: list_all_iff)
      with c' show "c \<in> set ?vs" by simp
    qed
  qed (rule sub)
  moreover have "dedupeOrder order cs = dedupeChecks cs" if "mset (order ?vs) = mset ?vs" for order
  proof -
    have "inj_on CheckString (set (order ?vs))" using inj mset_eq_setD[OF that] by simp
    moreover have "sorted (map CheckString ?vs)" using strict by (simp only: strict_sorted_iff)
    ultimately show ?thesis unfolding d dedupe_key by (rule sort_key_inj_key_eq[OF that])
  qed
  ultimately show ?thesis using strict img sub unfolding d by blast
qed

text \<open>A sample: a question asked twice.\<close>

definition sample_check :: "Verb \<Rightarrow> Check" where
  "sample_check v = \<lparr>ckVerb = v, ckGroup = '''', ckResource = ''configmaps'', ckNamespace = ''team-a'', ckName = ''cm''\<rparr>"

theorem dedupe_canonical_witness:
  "dedupeChecks [sample_check VerbUpdate, sample_check VerbPatch, sample_check VerbUpdate] =
     [sample_check VerbPatch, sample_check VerbUpdate] \<and>
   set (dedupeChecks [sample_check VerbUpdate, sample_check VerbPatch, sample_check VerbUpdate]) =
     set [sample_check VerbUpdate, sample_check VerbPatch, sample_check VerbUpdate]"
proof -
  let ?cs = "[sample_check VerbUpdate, sample_check VerbPatch, sample_check VerbUpdate]"
  have "dedupeChecks ?cs = [sample_check VerbPatch, sample_check VerbUpdate]" by code_simp
  moreover have "list_all clean ?cs" by code_simp
  ultimately show ?thesis using dedupe_canonical[of ?cs] by blast
qed

section \<open>What is asked\<close>

definition asks :: "Check list \<Rightarrow> Check \<Rightarrow> bool" where
  "asks cs c \<longleftrightarrow> CheckString c \<in> CheckString ` set cs"

lemma asks_dedupe: "asks (dedupeChecks cs) c \<longleftrightarrow> asks cs c"
  by (simp add: asks_def)

definition targetGroup :: "gv_parser \<Rightarrow> Contributor \<Rightarrow> string" where
  "targetGroup parse c = (case parse (trAPIVersion (coTarget c)) of Inr gv \<Rightarrow> fst gv | Inl _ \<Rightarrow> '''')"

definition targetAsk :: "gv_parser \<Rightarrow> resource_lookup option \<Rightarrow> Contributor \<Rightarrow> Verb \<Rightarrow> Check" where
  "targetAsk parse lookup c v = targetCheck c (targetGroup parse c) (resourceOf lookup c) v"

lemma targetChecks_asks:
  "targetChecks parse c lookup verbs = Inr cs \<Longrightarrow> cs = map (targetAsk parse lookup c) verbs"
  by (auto simp: targetChecks_def targetAsk_def targetGroup_def split: sum.splits)

lemma checksForSpec_asks:
  "checksForSpec parse c lookup = Inr cs \<Longrightarrow>
     cs = map (targetAsk parse lookup c) (specVerbs (coSpec c)) @ impersonateChecks c"
  by (auto simp: checksForSpec_def dest: targetChecks_asks split: sum.splits)

text \<open>What a spec implies: the verbs on its target, and the use of its service account.\<close>

definition implied :: "gv_parser \<Rightarrow> resource_lookup option \<Rightarrow> Contributor \<Rightarrow> Check set" where
  "implied parse lookup c =
     {targetAsk parse lookup c VerbUpdate, targetAsk parse lookup c VerbPatch} \<union>
     (if lcOnMissing (rsLifecycle (coSpec c)) = OnMissingCreate then {targetAsk parse lookup c VerbCreate} else {}) \<union>
     (if lcOnRelease (rsLifecycle (coSpec c)) = OnReleaseDelete then {targetAsk parse lookup c VerbDelete} else {}) \<union>
     (case rsServiceAccountRef (coSpec c) of
        None \<Rightarrow> {}
      | Some sa \<Rightarrow> if saName sa = '''' then {} else
          {\<lparr>ckVerb = VerbImpersonate, ckGroup = '''', ckResource = ''serviceaccounts'',
            ckNamespace = (if coCluster c then saNamespace sa else coNamespace c), ckName = saName sa\<rparr>})"

lemma checksForSpec_implied:
  assumes "checksForSpec parse c lookup = Inr cs"
  shows "set cs = implied parse lookup c"
  unfolding checksForSpec_asks[OF assms]
  by (auto simp: implied_def specVerbs_def impersonateChecks_def split: option.splits)

definition released :: "gv_parser \<Rightarrow> resource_lookup option \<Rightarrow> Contributor \<Rightarrow> Check set" where
  "released parse lookup c =
     (case lcOnRelease (rsLifecycle (coSpec c)) of
        OnReleaseOrphan \<Rightarrow> {}
      | OnReleaseDelete \<Rightarrow> {targetAsk parse lookup c VerbDelete}
      | _ \<Rightarrow> {targetAsk parse lookup c VerbUpdate, targetAsk parse lookup c VerbPatch})"

lemma deleteChecks_released:
  assumes "deleteChecks parse c lookup = Inr cs"
  shows "CheckString ` set cs = CheckString ` released parse lookup c"
proof -
  let ?verbs = "if lcOnRelease (rsLifecycle (coSpec c)) = OnReleaseDelete then [VerbDelete] else [VerbUpdate, VerbPatch]"
  show ?thesis
  proof (cases "lcOnRelease (rsLifecycle (coSpec c)) = OnReleaseOrphan")
    case False
    then have "cs = dedupeChecks (map (targetAsk parse lookup c) ?verbs)"
      using assms by (auto simp: deleteChecks_def dest!: targetChecks_asks split: sum.splits)
    then have "CheckString ` set cs = CheckString ` set (map (targetAsk parse lookup c) ?verbs)" by (simp only: dedupe_texts)
    with False show ?thesis by (cases "lcOnRelease (rsLifecycle (coSpec c))") (simp_all add: released_def)
  qed (use assms in \<open>simp add: deleteChecks_def released_def\<close>)
qed

text \<open>
  C24. The questions cover the operation, no more and no less, by text: a create asks for every verb the
  spec implies on its target and for the use of its service account; an update asks the same of the new
  spec, and of the old one too when the target moved; a deletion asks what the release policy of the
  object being removed implies, read from the old object when there is no new one, and nothing for Orphan.
\<close>

theorem checks_cover_operation:
  assumes "ChecksFor parse op obj old lookup = Some (Inr cs)"
  shows "CheckString ` set cs = CheckString `
    (case op of
       OperationCreate \<Rightarrow> implied parse lookup (the obj)
     | OperationUpdate \<Rightarrow> implied parse lookup (the obj) \<union>
         (case old of None \<Rightarrow> {} | Some o' \<Rightarrow> if targetChanged o' (the obj) then implied parse lookup o' else {})
     | OperationDelete \<Rightarrow> released parse lookup (the (case obj of None \<Rightarrow> old | Some _ \<Rightarrow> obj))
     | OperationOther s \<Rightarrow> {}) \<and>
    (op \<in> {OperationCreate, OperationUpdate} \<longrightarrow> obj \<noteq> None) \<and> op \<in> {OperationCreate, OperationUpdate, OperationDelete}"
proof -
  note dd = dedupe_texts
  have writes: "CheckString ` set cs = CheckString ` (implied parse lookup c \<union>
      (case old of None \<Rightarrow> {} | Some o' \<Rightarrow> if update \<and> targetChanged o' c then implied parse lookup o' else {}))"
    if w: "writeChecks parse update c old lookup = Inr cs" for update c
  proof -
    obtain checks where checks: "checksForSpec parse c lookup = Inr checks"
      using w by (cases "checksForSpec parse c lookup") (auto simp: writeChecks_def)
    note imp = checksForSpec_implied[OF checks]
    show ?thesis
    proof (cases "\<exists>o'. old = Some o' \<and> update \<and> targetChanged o' c")
      case True
      then obtain o' where o': "old = Some o'" "update" "targetChanged o' c" by blast
      then obtain oldChecks where oc: "checksForSpec parse o' lookup = Inr oldChecks"
        using w checks by (cases "checksForSpec parse o' lookup") (auto simp: writeChecks_def)
      with w checks o' have "cs = dedupeChecks (checks @ oldChecks)" by (simp add: writeChecks_def)
      with dd imp checksForSpec_implied[OF oc] o' show ?thesis by simp
    next
      case False
      then have "cs = dedupeChecks checks" using w checks by (auto simp: writeChecks_def split: option.splits)
      moreover have "(case old of None \<Rightarrow> {} | Some o' \<Rightarrow> if update \<and> targetChanged o' c then implied parse lookup o' else {}) = {}"
        using False by (auto split: option.split)
      ultimately show ?thesis using dd imp by simp
    qed
  qed
  show ?thesis
  proof (cases op)
    case OperationCreate
    then obtain c where "obj = Some c" "writeChecks parse False c old lookup = Inr cs" using assms by (auto simp: ChecksFor_def)
    with writes[of False c] OperationCreate show ?thesis by (simp split: option.splits)
  next
    case OperationUpdate
    then obtain c where "obj = Some c" "writeChecks parse True c old lookup = Inr cs" using assms by (auto simp: ChecksFor_def)
    with writes[of True c] OperationUpdate show ?thesis by (cases old) simp_all
  next
    case OperationDelete
    then show ?thesis using assms by (auto simp: ChecksFor_def dest: deleteChecks_released split: option.splits)
  qed (use assms in \<open>simp add: ChecksFor_def\<close>)
qed

text \<open>A sample: an update that moves a contributor to another target.\<close>

definition any_parse :: gv_parser where "any_parse v = Inr ('''', v)"

definition moved_patch :: Contributor where
  "moved_patch = (let c = sample_patch False ''''; s = coSpec c in c\<lparr>coSpec := s\<lparr>rsTarget := (rsTarget s)\<lparr>trName := ''other''\<rparr>\<rparr>\<rparr>)"

theorem checks_cover_operation_witness:
  "\<exists>cs. ChecksFor any_parse OperationUpdate (Some moved_patch) (Some (sample_patch False '''')) None = Some (Inr cs) \<and>
    asks cs (targetAsk any_parse None (sample_patch False '''') VerbPatch)"
proof -
  have moved: "targetChanged (sample_patch False '''') moved_patch" by code_simp
  obtain cs where cs: "ChecksFor any_parse OperationUpdate (Some moved_patch) (Some (sample_patch False '''')) None = Some (Inr cs)"
    using moved by (simp add: ChecksFor_def writeChecks_def checksForSpec_def targetChecks_def any_parse_def)
  have "targetAsk any_parse None (sample_patch False '''') VerbPatch \<in> implied any_parse None (sample_patch False '''')"
    by (simp add: implied_def)
  with checks_cover_operation[OF cs] moved have "asks cs (targetAsk any_parse None (sample_patch False '''') VerbPatch)"
    by (simp add: asks_def image_Un)
  with cs show ?thesis by blast
qed

section \<open>Admission\<close>

text \<open>The reviews from one state of the cluster to another, all of which allowed.\<close>

fun granted :: "'w Authorizer \<Rightarrow> UserInfo \<Rightarrow> Check list \<Rightarrow> 'w \<Rightarrow> 'w \<Rightarrow> bool" where
  "granted au user [] w w' \<longleftrightarrow> w' = w"
| "granted au user (c # cs) w w' \<longleftrightarrow>
     (\<exists>st w1. run_state (auReview au (reviewOf user c)) w = (Inr st, w1) \<and> rvAllowed st \<and> \<not> rvDenied st \<and> granted au user cs w1 w')"

lemma Authorize_granted: "run_state (Authorize au user cs) w = (Inr None, w') \<longleftrightarrow> granted au user cs w w'"
proof (induction cs arbitrary: w)
  case (Cons c cs)
  then show ?case
    by (cases "run_state (auReview au (reviewOf user c)) w") (auto split: sum.splits)
qed auto

lemma dedupe_Nil: "dedupeChecks cs = [] \<longleftrightarrow> cs = []"
  using dedupe_texts[of cs] by (metis image_is_empty set_empty)

lemma writeChecks_asks: "writeChecks parse update c old lookup = Inr [] \<Longrightarrow> False"
  by (auto simp: writeChecks_def dedupe_Nil specVerbs_def dest!: checksForSpec_asks split: sum.splits option.splits if_splits)

lemma deleteChecks_asks:
  "deleteChecks parse c lookup = Inr [] \<Longrightarrow> lcOnRelease (rsLifecycle (coSpec c)) = OnReleaseOrphan"
  by (auto simp: deleteChecks_def dedupe_Nil dest!: targetChecks_asks split: sum.splits if_splits)

text \<open>
  C13. Admission fails closed: a request is admitted only if it decodes, its spec validates (unless it is a
  deletion), its operation is a create, an update or a deletion, and every question the operation implies
  was reviewed for the requester and allowed and not denied. Only the deletion of an Orphan asks nothing.
\<close>

theorem admission_fails_closed:
  assumes "run_state (ValidatorHandle au dec aggregate req) w = (Some Allowed, w')"
  shows "\<exists>obj old cs. decodeRequest dec req = Inr (obj, old) \<and>
    (arOperation req \<noteq> OperationDelete \<longrightarrow> (\<exists>c. obj = Some c \<and> Validate c (Some (IsNamespacedKind au)) = [])) \<and>
    ChecksFor (auParse au) (arOperation req) obj old (Some (ResourceFor au)) = Some (Inr cs) \<and>
    granted au (arUserInfo req) cs w w' \<and>
    (cs = [] \<longrightarrow> arOperation req = OperationDelete \<and>
       (\<exists>c. (case obj of None \<Rightarrow> old | Some _ \<Rightarrow> obj) = Some c \<and> lcOnRelease (rsLifecycle (coSpec c)) = OnReleaseOrphan))"
proof -
  obtain obj old where d: "decodeRequest dec req = Inr (obj, old)"
    using assms by (cases "decodeRequest dec req") (auto simp: ValidatorHandle_def)
  have spec: "specErrors au (arOperation req) obj = []"
    using assms d by (auto simp: ValidatorHandle_def split: if_splits)
  obtain cs where cs: "ChecksFor (auParse au) (arOperation req) obj old (Some (ResourceFor au)) = Some (Inr cs)"
    using assms d spec by (auto simp: ValidatorHandle_def split: option.splits sum.splits)
  have g: "granted au (arUserInfo req) cs w w'"
  proof (cases "cs = []")
    case True
    with assms d spec cs show ?thesis by (simp add: ValidatorHandle_def)
  next
    case False
    obtain r w1 where r: "run_state (Authorize au (arUserInfo req) cs) w = (r, w1)" by fastforce
    with False assms d spec cs have "r = Inr None \<and> w1 = w'"
      by (auto simp: ValidatorHandle_def split: sum.splits option.splits)
    with r Authorize_granted show ?thesis by metis
  qed
  have obj: "\<exists>c. obj = Some c \<and> Validate c (Some (IsNamespacedKind au)) = []" if "arOperation req \<noteq> OperationDelete"
    using that cs spec by (cases "arOperation req") (auto simp: ChecksFor_def specErrors_def)
  have "arOperation req = OperationDelete \<and>
      (\<exists>c. (case obj of None \<Rightarrow> old | Some _ \<Rightarrow> obj) = Some c \<and> lcOnRelease (rsLifecycle (coSpec c)) = OnReleaseOrphan)" if "cs = []"
    using that cs by (cases "arOperation req")
      (auto simp: ChecksFor_def dest: writeChecks_asks deleteChecks_asks split: option.splits)
  with d cs g obj show ?thesis by blast
qed

text \<open>A sample: a requester that may do everything.\<close>

definition sample_authorizer :: "(SubjectAccessReview \<Rightarrow> bool) \<Rightarrow> unit Authorizer" where
  "sample_authorizer may =
     \<lparr>auReview = \<lambda>r. State_Monad.return (Inr \<lparr>rvAllowed = may r, rvDenied = False, rvReason = ''''\<rparr>),
      auMapper = Some (\<lambda>gv kind. Inr (''configmaps'', True)), auParse = any_parse\<rparr>"

definition create_request :: AdmissionRequest where
  "create_request =
     \<lparr>arOperation = OperationCreate, arObject = ''p'', arOldObject = '''', arUserInfo = no_user\<lparr>uiUsername := ''ann''\<rparr>\<rparr>"

definition sample_decoder :: decoder where
  "sample_decoder raw = Inr (sample_patch False '''')"

lemma sample_valid: "Validate (sample_patch False '''') (Some (IsNamespacedKind (sample_authorizer may))) = []"
  by (simp add: Validate_def validateTargetIdentity_def validateMode_def validateLifecycle_def validatePatch_def
      validateNamespaced_def IsNamespacedKind_def ResourceFor_def sample_authorizer_def any_parse_def targetMode_def
      rawUnset_def isOwnKind_def HasPrefix_def GroupName_def kind_names sample_patch_def no_meta_def Let_def)

lemma sample_decoded: "decodeRequest sample_decoder create_request = Inr (Some (sample_patch False ''''), None)"
  by (simp add: decodeRequest_def decodeRaw_def sample_decoder_def create_request_def)

lemma sample_checks:
  "\<exists>cs. ChecksFor (auParse (sample_authorizer may)) OperationCreate (Some (sample_patch False '''')) None
      (Some (ResourceFor (sample_authorizer may))) = Some (Inr cs)"
  by (simp add: ChecksFor_def writeChecks_def checksForSpec_def targetChecks_def sample_authorizer_def any_parse_def)

lemma all_granted: "granted (sample_authorizer (\<lambda>_. True)) user cs () ()"
  by (induction cs) (simp_all add: sample_authorizer_def)

theorem admission_fails_closed_witness:
  "run_state (ValidatorHandle (sample_authorizer (\<lambda>_. True)) sample_decoder (\<lambda>_. '''') create_request) () = (Some Allowed, ()) \<and>
   (\<exists>cs. cs \<noteq> [] \<and> granted (sample_authorizer (\<lambda>_. True)) (arUserInfo create_request) cs () ())"
proof -
  let ?au = "sample_authorizer (\<lambda>_. True)"
  obtain cs where cs: "ChecksFor (auParse ?au) OperationCreate (Some (sample_patch False '''')) None (Some (ResourceFor ?au)) = Some (Inr cs)"
    using sample_checks by blast
  have op: "arOperation create_request = OperationCreate" by (simp add: create_request_def)
  have run: "run_state (ValidatorHandle ?au sample_decoder (\<lambda>_. '''') create_request) () = (Some Allowed, ())"
    using cs Authorize_granted[THEN iffD2, OF all_granted]
    by (simp add: ValidatorHandle_def sample_decoded specErrors_def sample_valid op)
  from admission_fails_closed[OF run] cs op show ?thesis using run by fastforce
qed

section \<open>The re-check\<close>

text \<open>
  C28. The re-check asks what admission asked: for a create of a contributor, and a recorded principal
  that carries the requester's groups (or has none to lose), the re-check answers yes, with the same
  effect on the cluster, exactly if the handler would admit the request, given that the spec validates.
\<close>

theorem recheck_equals_admission:
  assumes "decodeRequest dec req = Inr (Some c, None)" and "arOperation req = OperationCreate"
    and "Validate c (Some (IsNamespacedKind au)) = []" and "withGroups (arUserInfo req) = arUserInfo req"
  shows "run_state (ReauthorizerAuthorize au (arUserInfo req) c) w = (Inr (True, ''''), w') \<longleftrightarrow>
    run_state (ValidatorHandle au dec aggregate req) w = (Some Allowed, w')"
proof -
  have spec: "specErrors au (arOperation req) (Some c) = []" using assms(2,3) by (simp add: specErrors_def)
  obtain r where r: "ChecksFor (auParse au) OperationCreate (Some c) None (Some (ResourceFor au)) = Some r"
    by (simp add: ChecksFor_def)
  show ?thesis
  proof (cases r)
    case (Inl e)
    with r spec assms show ?thesis by (simp add: ReauthorizerAuthorize_def ValidatorHandle_def)
  next
    case (Inr cs)
    with r have "cs \<noteq> []" by (auto simp: ChecksFor_def dest: writeChecks_asks)
    with Inr r spec assms show ?thesis
      by (cases "run_state (Authorize au (arUserInfo req) cs) w")
        (auto simp: ReauthorizerAuthorize_def ValidatorHandle_def split: sum.splits option.splits)
  qed
qed

text \<open>C28 for a requester whose rights were taken away.\<close>

theorem recheck_equals_admission_witness:
  "\<forall>may. run_state (ReauthorizerAuthorize (sample_authorizer may) (arUserInfo create_request) (sample_patch False '''')) () = (Inr (True, ''''), ()) \<longleftrightarrow>
     run_state (ValidatorHandle (sample_authorizer may) sample_decoder (\<lambda>_. '''') create_request) () = (Some Allowed, ())"
proof
  fix may
  have "arOperation create_request = OperationCreate" "withGroups (arUserInfo create_request) = arUserInfo create_request"
    by (simp_all add: create_request_def withGroups_def no_user_def HasPrefix_def)
  from recheck_equals_admission[OF sample_decoded this(1) sample_valid this(2)]
  show "run_state (ReauthorizerAuthorize (sample_authorizer may) (arUserInfo create_request) (sample_patch False '''')) () = (Inr (True, ''''), ()) \<longleftrightarrow>
     run_state (ValidatorHandle (sample_authorizer may) sample_decoder (\<lambda>_. '''') create_request) () = (Some Allowed, ())" .
qed

section \<open>The recorded principal\<close>

text \<open>The encodings of the recorder are inverse to their decodings, and comparing a spec with itself finds no change.\<close>

definition faithful :: "PrincipalRecorder \<Rightarrow> bool" where
  "faithful m \<longleftrightarrow>
     (\<forall>u s. prMarshalIdentity m u = Inr s \<longrightarrow> s \<noteq> '''' \<and> prUnmarshalIdentity m s = Some u) \<and>
     (\<forall>c s. prMarshal m c = Inr s \<longrightarrow> prDecode m s = Inr c) \<and> (\<forall>s. prDeepEqual m s s)"

lemma annotated_identity:
  assumes "faithful m" and "prMarshalIdentity m user = Inr identity" and "uiUsername user \<noteq> ''''"
  shows "IdentityFromAnnotations (prUnmarshalIdentity m) (coMeta (annotated user identity obj)) = Some user"
proof -
  have "identity \<noteq> ''''" "prUnmarshalIdentity m identity = Some user" using assms(1,2) by (auto simp: faithful_def)
  then show ?thesis
    using assms(3) by (simp add: IdentityFromAnnotations_def annotated_def annotation_def go_map Let_def
        AuthorizedAsAnnotation_def AuthorizedIdentityAnnotation_def)
qed

text \<open>
  What a create records is the requester: unless the handler fails, the object that goes on has the
  spec of the request, and its annotations read back as the requester, groups and extras included,
  whatever identity the request carried.
\<close>

theorem create_records_requester:
  assumes "faithful m" and "arOperation req = OperationCreate" and "arObject req \<noteq> ''''" and "prDecode m (arObject req) = Inr obj"
    and "uiUsername (arUserInfo req) \<noteq> ''''" and "\<And>n e. RecorderHandle m req \<noteq> Errored n e"
  shows "\<exists>obj'. (RecorderHandle m req = Allowed \<and> obj' = obj \<or>
      (\<exists>s. RecorderHandle m req = PatchResponseFromRaw (arObject req) s \<and> prDecode m s = Inr obj')) \<and>
    coSpec obj' = coSpec obj \<and>
    IdentityFromAnnotations (prUnmarshalIdentity m) (coMeta obj') = Some (arUserInfo req)"
proof -
  let ?u = "arUserInfo req"
  have handle: "RecorderHandle m req = (case prMarshalIdentity m ?u of
      Inl e \<Rightarrow> Errored 500 e
    | Inr identity \<Rightarrow>
        if annotation (coMeta obj) AuthorizedAsAnnotation = uiUsername ?u \<and>
           annotation (coMeta obj) AuthorizedIdentityAnnotation = identity then Allowed
        else (case prMarshal m (annotated ?u identity obj) of
                Inl e \<Rightarrow> Errored 500 e
              | Inr marshaled \<Rightarrow> PatchResponseFromRaw (arObject req) marshaled))"
    using assms(2-4) by (simp add: RecorderHandle_def shouldRecord_def Let_def)
  obtain identity where i: "prMarshalIdentity m ?u = Inr identity"
    using handle assms(6) by (cases "prMarshalIdentity m ?u") auto
  show ?thesis
  proof (cases "annotation (coMeta obj) AuthorizedAsAnnotation = uiUsername ?u \<and> annotation (coMeta obj) AuthorizedIdentityAnnotation = identity")
    case True
    have "identity \<noteq> ''''" "prUnmarshalIdentity m identity = Some ?u" using assms(1) i by (auto simp: faithful_def)
    with True assms(5) have "IdentityFromAnnotations (prUnmarshalIdentity m) (coMeta obj) = Some ?u"
      by (simp add: IdentityFromAnnotations_def Let_def)
    with True handle i show ?thesis by auto
  next
    case False
    obtain s where s: "prMarshal m (annotated ?u identity obj) = Inr s"
      using handle assms(6) i False by (cases "prMarshal m (annotated ?u identity obj)") auto
    moreover have "prDecode m s = Inr (annotated ?u identity obj)" using assms(1) s by (simp add: faithful_def)
    moreover have "coSpec (annotated ?u identity obj) = coSpec obj" by (simp add: annotated_def)
    moreover have "RecorderHandle m req = PatchResponseFromRaw (arObject req) s"
      unfolding handle i sum.case if_not_P[OF False] s ..
    ultimately show ?thesis using annotated_identity[OF assms(1) i assms(5), of obj] by blast
  qed
qed

text \<open>A sample: a request that names someone else.\<close>

text \<open>Texts are their own encodings here, which identities and contributors with one field read stand for.\<close>

definition sample_recorder :: "Contributor \<Rightarrow> PrincipalRecorder" where
  "sample_recorder c =
     \<lparr>prDecode = \<lambda>s. Inr (if s = ''old'' \<or> s = ''p'' then c else annotated (no_user\<lparr>uiUsername := s\<rparr>) s c),
      prMarshal = \<lambda>d. (let s = annotation (coMeta d) AuthorizedAsAnnotation
         in if s \<noteq> ''old'' \<and> s \<noteq> ''p'' \<and> d = annotated (no_user\<lparr>uiUsername := s\<rparr>) s c then Inr s else Inl (Errorf '''' [])),
      prMarshalIdentity = \<lambda>u. (if uiUsername u \<noteq> '''' \<and> u = no_user\<lparr>uiUsername := uiUsername u\<rparr> then Inr (uiUsername u) else Inl (Errorf '''' [])),
      prUnmarshalIdentity = \<lambda>s. Some (no_user\<lparr>uiUsername := s\<rparr>), prDeepEqual = (=)\<rparr>"

definition forged_patch :: "string \<Rightarrow> Contributor" where
  "forged_patch name = annotated (no_user\<lparr>uiUsername := name\<rparr>) name (sample_patch False '''')"

lemma sample_faithful: "faithful (sample_recorder c)"
  by (auto simp: faithful_def sample_recorder_def Let_def split: if_splits)

theorem create_records_requester_witness:
  "\<exists>obj' :: Contributor. coSpec obj' = coSpec (forged_patch ''root'') \<and>
    IdentityFromAnnotations (prUnmarshalIdentity (sample_recorder (forged_patch ''root''))) (coMeta obj') = Some (arUserInfo create_request)"
proof -
  let ?m = "sample_recorder (forged_patch ''root'')"
  have r: "RecorderHandle ?m create_request = PatchResponseFromRaw ''p'' ''ann''"
    by (simp add: RecorderHandle_def sample_recorder_def create_request_def shouldRecord_def forged_patch_def annotated_def
        annotation_def go_map Let_def AuthorizedAsAnnotation_def AuthorizedIdentityAnnotation_def no_user_def)
  have "RecorderHandle ?m create_request \<noteq> Errored n e" for n e by (simp add: r)
  moreover have "prDecode ?m (arObject create_request) = Inr (forged_patch ''root'')"
    by (simp add: sample_recorder_def create_request_def)
  moreover have "arOperation create_request = OperationCreate" "arObject create_request \<noteq> ''''"
    "uiUsername (arUserInfo create_request) \<noteq> ''''" by (simp_all add: create_request_def)
  moreover note ok = calculation
  show ?thesis using create_records_requester[OF sample_faithful ok(3,4,2,5) ok(1)] by blast
qed

text \<open>
  An update can forge the record: when the spec does not change and the object names any principal,
  the recorder lets the request pass as it is, so the principal the re-check will ask about is the one
  the requester wrote, whoever that is; the comment says that overwriting the recorded identity is what
  the distinction prevents.
\<close>

theorem update_can_forge_principal:
  assumes "faithful m" and "arOperation req = OperationUpdate" and "arOldObject req \<noteq> ''''"
    and "prDecode m (arObject req) = Inr obj" and "prDecode m (arOldObject req) = Inr old" and "coSpec obj = coSpec old"
    and "IdentityFromAnnotations (prUnmarshalIdentity m) (coMeta obj) = Some forged"
  shows "RecorderHandle m req = Allowed"
  using assms by (cases "arObject req = ''''") (simp_all add: RecorderHandle_def shouldRecord_def faithful_def Let_def)

text \<open>The same for a record rewritten from \<^verbatim>\<open>ann\<close> to \<^verbatim>\<open>root\<close>.\<close>

theorem update_can_forge_principal_witness:
  "let m = sample_recorder (forged_patch ''ann'');
       req = create_request\<lparr>arOperation := OperationUpdate, arObject := ''root'', arOldObject := ''old''\<rparr>
   in RecorderHandle m req = Allowed \<and>
      (\<exists>obj. prDecode m (arObject req) = Inr obj \<and>
         IdentityFromAnnotations (prUnmarshalIdentity m) (coMeta obj) = Some (no_user\<lparr>uiUsername := ''root''\<rparr>))"
proof -
  let ?m = "sample_recorder (forged_patch ''ann'')"
  let ?req = "create_request\<lparr>arOperation := OperationUpdate, arObject := ''root'', arOldObject := ''old''\<rparr>"
  let ?obj = "annotated (no_user\<lparr>uiUsername := ''root''\<rparr>) ''root'' (forged_patch ''ann'')"
  have d: "prDecode ?m (arObject ?req) = Inr ?obj" "prDecode ?m (arOldObject ?req) = Inr (forged_patch ''ann'')"
    by (simp_all add: sample_recorder_def)
  have s: "coSpec ?obj = coSpec (forged_patch ''ann'')" by (simp add: annotated_def)
  have i: "IdentityFromAnnotations (prUnmarshalIdentity ?m) (coMeta ?obj) = Some (no_user\<lparr>uiUsername := ''root''\<rparr>)"
    by (rule annotated_identity[OF sample_faithful]) (simp_all add: sample_recorder_def)
  have "arOperation ?req = OperationUpdate" "arOldObject ?req \<noteq> ''''" by simp_all
  from update_can_forge_principal[OF sample_faithful this d s i] d i show ?thesis unfolding Let_def by blast
qed

end
