(* ===== verification/TargetCache.thy ===== *)
theory TargetCache
  imports Tracker
begin

text \<open>
  The watches on target kinds (\<^verbatim>\<open>internal/targetcache/targetcache.go\<close>), and how the tracker reconciler
  uses them (\<^verbatim>\<open>ensureTargetWatch\<close>). Registering a watch is a parameter; the manager and its cache are
  not part of the bookkeeping.
\<close>

record GVK =
  gvGroup :: string
  gvVersion :: string
  gvKind :: string

type_synonym watchKey = "string \<times> GVK"

text \<open>\<open>mgWatched\<close> is the map of watched keys: each is there once, and its value is true.\<close>

record Manager =
  mgMaxGVKs :: int
  mgDisabled :: "GVK list"
  mgWatched :: "watchKey list"
  mgAtCap :: bool

definition DefaultMaxGVKs :: int where
  "DefaultMaxGVKs = 50"

definition NewManager :: "int \<Rightarrow> GVK list \<Rightarrow> Manager" where
  "NewManager maxGVKs disabled =
     \<lparr>mgMaxGVKs = (if maxGVKs \<le> 0 then DefaultMaxGVKs else maxGVKs), mgDisabled = remdups disabled, mgWatched = [],
      mgAtCap = False\<rparr>"

definition distinctGVKs :: "Manager \<Rightarrow> GVK list" where
  "distinctGVKs m = remdups (map snd (mgWatched m))"

definition gvkWatched :: "Manager \<Rightarrow> GVK \<Rightarrow> bool" where
  "gvkWatched m gvk \<longleftrightarrow> list_ex (\<lambda>k. snd k = gvk) (mgWatched m)"

text \<open>
  \<open>watch\<close> registers a watch of a controller on a kind with a mapping of its events; \<open>show\<close> prints a kind.
\<close>

definition Ensure ::
  "('c \<Rightarrow> GVK \<Rightarrow> 'f \<Rightarrow> ('w, unit) io) \<Rightarrow> (GVK \<Rightarrow> string) \<Rightarrow> string \<Rightarrow> 'c \<Rightarrow> GVK \<Rightarrow> 'f \<Rightarrow> Manager
    \<Rightarrow> ('w, (goerror, unit) result \<times> Manager) state" where
  "Ensure watch show_gvk owner ctrl gvk mapFn m =
     (if gvk \<in> set (mgDisabled m) then State_Monad.return (Inr (), m)
      else if (owner, gvk) \<in> set (mgWatched m) then State_Monad.return (Inr (), m)
      else if int (length (distinctGVKs m)) \<ge> mgMaxGVKs m \<and> \<not> gvkWatched m gvk then
        State_Monad.return
          (Inl (Errorf ''watched-GVK cap of %d reached; cannot watch %s'' [Itoa (mgMaxGVKs m), show_gvk gvk]), m\<lparr>mgAtCap := True\<rparr>)
      else
        do {
          r \<leftarrow> watch ctrl gvk mapFn;
          State_Monad.return
            (case r of
               Inl e \<Rightarrow> (Inl (Errorw ''watching %s: %w'' [show_gvk gvk] e), m)
             | Inr _ \<Rightarrow> (Inr (), m\<lparr>mgWatched := (owner, gvk) # mgWatched m\<rparr>))
        })"

text \<open>The kinds watched, in the order in which Go ranges over the map.\<close>

fun firstSeen :: "GVK list \<Rightarrow> watchKey list \<Rightarrow> GVK list" where
  "firstSeen seen [] = []"
| "firstSeen seen (k # ks) = (if snd k \<in> set seen then firstSeen seen ks else snd k # firstSeen (snd k # seen) ks)"

definition Watched :: "(watchKey list \<Rightarrow> watchKey list) \<Rightarrow> Manager \<Rightarrow> GVK list" where
  "Watched order m = firstSeen [] (order (mgWatched m))"

definition Count :: "Manager \<Rightarrow> nat" where
  "Count m = length (distinctGVKs m)"

section \<open>Watching the target of a tracker\<close>

definition emptyTracker :: "string \<Rightarrow> (goerror, Tracker) result" where
  "emptyTracker kind =
     (let t = (\<lambda>cluster. \<lparr>tkCluster = cluster, tkMeta = no_meta,
                tkSpec = \<lparr>srTargetRef = \<lparr>ttAPIVersion = '''', ttKind = '''', ttName = '''', ttNamespace = ''''\<rparr>\<rparr>, tkStatus = no_status\<rparr>)
      in if kind = KindSharedResource then Inr (t False)
         else if kind = KindClusterSharedResource then Inr (t True)
         else Inl (Errorf ''unknown tracker kind %q'' [kind]))"

definition objString :: "jmap \<Rightarrow> string \<Rightarrow> string" where
  "objString obj k = (case map_of obj k of Some (JStr s) \<Rightarrow> s | _ \<Rightarrow> '''')"

definition keyOfObject :: "jmap \<Rightarrow> TargetKey" where
  "keyOfObject obj =
     \<lparr>kyAPIVersion = objString obj ''apiVersion'', kyKind = objString obj ''kind'',
      kyNamespace = metaString obj ''namespace'', kyName = metaString obj ''name''\<rparr>"

text \<open>The requests an event on a target makes for the reconciler of one tracker kind.\<close>

definition mapTarget ::
  "('w, 'z) KubeClient_scheme \<Rightarrow> (string \<Rightarrow> string) \<Rightarrow> string \<Rightarrow> jmap \<Rightarrow> ('w, (string \<times> string) list) state" where
  "mapTarget cl sha trackerKind obj =
     (let key = keyOfObject obj; namespace = TrackerNamespace trackerKind key; name = TrackerName sha key
      in if \<not> list_ex (\<lambda>hasCluster. TrackerKindFor key hasCluster = trackerKind) [False, True] then State_Monad.return []
         else (case emptyTracker trackerKind of
                 Inl e \<Rightarrow> State_Monad.return []
               | Inr probe \<Rightarrow>
                   do {
                     g \<leftarrow> kcGetTracker cl (tkCluster probe) namespace name;
                     State_Monad.return (case g of Inl e \<Rightarrow> [] | Inr _ \<Rightarrow> [(namespace, name)])
                   }))"

text \<open>
  The cache and the controller may be absent. Errors are logged only, so what is left is the bookkeeping.
\<close>

definition ensureTargetWatch ::
  "('c \<Rightarrow> GVK \<Rightarrow> (jmap \<Rightarrow> ('w, (string \<times> string) list) state) \<Rightarrow> ('w, unit) io) \<Rightarrow> (GVK \<Rightarrow> string) \<Rightarrow>
     (string \<Rightarrow> (goerror, string \<times> string) result) \<Rightarrow> 'w TrackerEnv \<Rightarrow> 'c option \<Rightarrow> Tracker \<Rightarrow> Manager option
     \<Rightarrow> ('w, Manager option) state" where
  "ensureTargetWatch watch show_gvk parse env ctrl t cache =
     (case (cache, ctrl) of
        (Some m, Some c) \<Rightarrow>
          (case parse (ttAPIVersion (srTargetRef (tkSpec t))) of
             Inl e \<Rightarrow> State_Monad.return cache
           | Inr gv \<Rightarrow>
               do {
                 r \<leftarrow> Ensure watch show_gvk (TrackerKind t) c
                        \<lparr>gvGroup = fst gv, gvVersion = snd gv, gvKind = ttKind (srTargetRef (tkSpec t))\<rparr>
                        (mapTarget (teClient env) (teSha env) (TrackerKind t)) m;
                 State_Monad.return (Some (snd r))
               })
      | _ \<Rightarrow> State_Monad.return cache)"

section \<open>What the cache promises\<close>

text \<open>A manager after any calls of \<open>Ensure\<close>, whatever the watches answer.\<close>

inductive ensured :: "('c \<Rightarrow> GVK \<Rightarrow> 'f \<Rightarrow> ('w, unit) io) \<Rightarrow> int \<Rightarrow> GVK list \<Rightarrow> Manager \<Rightarrow> bool" for watch maxGVKs disabled where
  new: "ensured watch maxGVKs disabled (NewManager maxGVKs disabled)"
| ensure: "ensured watch maxGVKs disabled m \<Longrightarrow>
    run_state (Ensure watch show_gvk owner ctrl gvk mapFn m) w = ((r, m'), w') \<Longrightarrow> ensured watch maxGVKs disabled m'"

lemma gvkWatched_iff: "gvkWatched m gvk \<longleftrightarrow> gvk \<in> snd ` set (mgWatched m)"
  by (auto simp: gvkWatched_def list_ex_iff)

lemma Count_card: "Count m = card (snd ` set (mgWatched m))"
  by (simp add: Count_def distinctGVKs_def length_remdups_card_conv)

lemma Ensure_cases:
  assumes "run_state (Ensure watch show_gvk owner ctrl gvk mapFn m) w = ((r, m'), w')"
  obtains (disabled) "gvk \<in> set (mgDisabled m)" "r = Inr ()" "m' = m" "w' = w"
    | (already) "gvk \<notin> set (mgDisabled m)" "(owner, gvk) \<in> set (mgWatched m)" "r = Inr ()" "m' = m" "w' = w"
    | (cap) "gvk \<notin> set (mgDisabled m)" "int (Count m) \<ge> mgMaxGVKs m" "\<not> gvkWatched m gvk" "(owner, gvk) \<notin> set (mgWatched m)"
        "\<exists>e. r = Inl e" "m' = m\<lparr>mgAtCap := True\<rparr>" "w' = w"
    | (failed) e where "gvk \<notin> set (mgDisabled m)" "run_state (watch ctrl gvk mapFn) w = (Inl e, w')" "(owner, gvk) \<notin> set (mgWatched m)" "\<exists>e. r = Inl e" "m' = m"
    | (watching) "gvk \<notin> set (mgDisabled m)" "(owner, gvk) \<notin> set (mgWatched m)" "int (Count m) < mgMaxGVKs m \<or> gvkWatched m gvk"
        "run_state (watch ctrl gvk mapFn) w = (Inr (), w')" "r = Inr ()" "m' = m\<lparr>mgWatched := (owner, gvk) # mgWatched m\<rparr>"
proof (cases "gvk \<in> set (mgDisabled m) \<or> (owner, gvk) \<in> set (mgWatched m)")
  case True
  then have "r = Inr () \<and> m' = m \<and> w' = w" using assms by (auto simp: Ensure_def split: if_splits)
  with True that(1,2) show thesis by blast
next
  case fresh: False
  show thesis
  proof (cases "int (Count m) \<ge> mgMaxGVKs m \<and> \<not> gvkWatched m gvk")
    case True
    with fresh assms have "(\<exists>e. r = Inl e) \<and> m' = m\<lparr>mgAtCap := True\<rparr> \<and> w' = w"
      by (auto simp: Ensure_def Count_def)
    with fresh True that(3) show thesis by blast
  next
    case False
    then have room: "int (Count m) < mgMaxGVKs m \<or> gvkWatched m gvk" by linarith
    obtain x w1 where x: "run_state (watch ctrl gvk mapFn) w = (x, w1)" by fastforce
    have run: "run_state (Ensure watch show_gvk owner ctrl gvk mapFn m) w =
        ((case x of Inl e \<Rightarrow> (Inl (Errorw ''watching %s: %w'' [show_gvk gvk] e), m)
          | Inr _ \<Rightarrow> (Inr (), m\<lparr>mgWatched := (owner, gvk) # mgWatched m\<rparr>)), w1)"
      using fresh False x by (auto simp: Ensure_def Count_def)
    show thesis
    proof (cases x)
      case (Inl e)
      with run x assms fresh that(4)[of e] show thesis by simp
    next
      case (Inr u)
      with run x assms fresh room that(5) show thesis by simp
    qed
  qed
qed

definition cache_ok :: "Manager \<Rightarrow> bool" where
  "cache_ok m \<longleftrightarrow> mgMaxGVKs m > 0 \<and> int (Count m) \<le> mgMaxGVKs m \<and> distinct (mgWatched m) \<and>
     snd ` set (mgWatched m) \<inter> set (mgDisabled m) = {}"

lemma cache_ok_watch:
  assumes "cache_ok m" and "gvk \<notin> set (mgDisabled m)" and "(owner, gvk) \<notin> set (mgWatched m)"
    and "int (Count m) < mgMaxGVKs m \<or> gvkWatched m gvk"
  shows "cache_ok (m\<lparr>mgWatched := (owner, gvk) # mgWatched m\<rparr>)"
  using assms by (auto simp: cache_ok_def Count_card gvkWatched_iff card_insert_if)

lemma cache_ok_Ensure:
  assumes "run_state (Ensure watch show_gvk owner ctrl gvk mapFn m) w = ((r, m'), w')" and "cache_ok m"
  shows "cache_ok m' \<and> mgMaxGVKs m' = mgMaxGVKs m \<and> mgDisabled m' = mgDisabled m \<and> set (mgWatched m) \<subseteq> set (mgWatched m')"
  using assms(1)
proof (cases rule: Ensure_cases)
  case cap
  then show ?thesis using assms(2) by (simp add: cache_ok_def Count_card)
next
  case watching
  then show ?thesis using cache_ok_watch[OF assms(2)] by auto
qed (use assms(2) in auto)

text \<open>
  The number of watched kinds never exceeds the cap: after any calls, whatever the registrations
  answered, the cap is positive (50 unless one was given) and at least the number of distinct kinds
  watched, each controller watches a kind at most once, and a disabled kind is never watched.
\<close>

theorem watched_kinds_capped:
  assumes "ensured watch maxGVKs disabled m"
  shows "mgMaxGVKs m = (if maxGVKs \<le> 0 then 50 else maxGVKs) \<and> 0 < mgMaxGVKs m \<and> int (Count m) \<le> mgMaxGVKs m \<and>
    distinct (mgWatched m) \<and> (\<forall>gvk \<in> set disabled. \<not> gvkWatched m gvk)"
proof -
  have "cache_ok m \<and> mgMaxGVKs m = (if maxGVKs \<le> 0 then 50 else maxGVKs) \<and> set (mgDisabled m) = set disabled"
    using assms
  proof (induction rule: ensured.induct)
    case new
    show ?case by (simp add: cache_ok_def NewManager_def Count_card DefaultMaxGVKs_def)
  next
    case (ensure m show_gvk owner ctrl gvk mapFn w r m' w')
    then show ?case using cache_ok_Ensure[OF ensure.hyps(2)] by metis
  qed
  then show ?thesis by (auto simp: cache_ok_def gvkWatched_iff)
qed

definition yes_watch :: "unit \<Rightarrow> GVK \<Rightarrow> unit \<Rightarrow> (unit, unit) io" where
  "yes_watch ctrl gvk f = State_Monad.return (Inr ())"

definition sample_gvk :: "string \<Rightarrow> GVK" where
  "sample_gvk k = \<lparr>gvGroup = '''', gvVersion = ''v1'', gvKind = k\<rparr>"

text \<open>The same for a cap of one that is reached.\<close>

theorem watched_kinds_capped_witness:
  "\<exists>m. ensured yes_watch 1 [sample_gvk ''Secret''] m \<and> Count m = 1 \<and> int (Count m) \<le> mgMaxGVKs m"
proof -
  let ?m = "(NewManager 1 [sample_gvk ''Secret''])\<lparr>mgWatched := [(''o'', sample_gvk ''ConfigMap'')]\<rparr>"
  have "run_state (Ensure yes_watch gvKind ''o'' () (sample_gvk ''ConfigMap'') () (NewManager 1 [sample_gvk ''Secret''])) () = ((Inr (), ?m), ())"
    by (simp add: Ensure_def NewManager_def distinctGVKs_def sample_gvk_def yes_watch_def)
  with ensured.new have "ensured yes_watch 1 [sample_gvk ''Secret''] ?m" by (rule ensured.ensure)
  with watched_kinds_capped[OF this] show ?thesis by (intro exI[of _ ?m]) (simp add: Count_card)
qed

text \<open>
  A call of \<open>Ensure\<close> that succeeds leaves the kind watched by the calling controller, unless the kind
  is disabled, and one that fails leaves the watched keys as they were, so the next call tries again; the
  cap stops a controller only from a kind that none watches yet, and never calls for a registration it
  already has.
\<close>

theorem ensure_watches_or_retries:
  assumes "run_state (Ensure watch show_gvk owner ctrl gvk mapFn m) w = ((r, m'), w')"
  shows "(r = Inr () \<longrightarrow> gvk \<in> set (mgDisabled m) \<or> (owner, gvk) \<in> set (mgWatched m')) \<and>
    (r \<noteq> Inr () \<longrightarrow> mgWatched m' = mgWatched m \<and> (owner, gvk) \<notin> set (mgWatched m')) \<and>
    (gvkWatched m gvk \<and> gvk \<notin> set (mgDisabled m) \<and> (owner, gvk) \<notin> set (mgWatched m) \<longrightarrow>
       snd (run_state (watch ctrl gvk mapFn) w) = w' \<and> (r = Inr () \<longleftrightarrow> fst (run_state (watch ctrl gvk mapFn) w) = Inr ())) \<and>
    (gvk \<in> set (mgDisabled m) \<or> (owner, gvk) \<in> set (mgWatched m) \<longrightarrow> r = Inr () \<and> m' = m \<and> w' = w)"
  using assms by (cases rule: Ensure_cases) auto

text \<open>The same for a second controller on a watched kind, beyond the cap.\<close>

theorem ensure_watches_or_retries_witness:
  "let m = (NewManager 1 [])\<lparr>mgWatched := [(''a'', sample_gvk ''ConfigMap'')]\<rparr>;
       m' = m\<lparr>mgWatched := (''b'', sample_gvk ''ConfigMap'') # mgWatched m\<rparr>
   in run_state (Ensure yes_watch gvKind ''b'' () (sample_gvk ''ConfigMap'') () m) () = ((Inr (), m'), ()) \<and>
      (''b'', sample_gvk ''ConfigMap'') \<in> set (mgWatched m')"
proof -
  let ?m = "(NewManager 1 [])\<lparr>mgWatched := [(''a'', sample_gvk ''ConfigMap'')]\<rparr>"
  let ?m' = "?m\<lparr>mgWatched := (''b'', sample_gvk ''ConfigMap'') # mgWatched ?m\<rparr>"
  have run: "run_state (Ensure yes_watch gvKind ''b'' () (sample_gvk ''ConfigMap'') () ?m) () = ((Inr (), ?m'), ())"
    by (simp add: Ensure_def NewManager_def distinctGVKs_def gvkWatched_def sample_gvk_def yes_watch_def)
  have "sample_gvk ''ConfigMap'' \<notin> set (mgDisabled ?m)" by (simp add: NewManager_def)
  with ensure_watches_or_retries[OF run] run show ?thesis unfolding Let_def by blast
qed

section \<open>Whom a target wakes\<close>

text \<open>An object of the key, as the informer delivers it.\<close>

definition objectOf :: "TargetKey \<Rightarrow> jmap" where
  "objectOf key =
     [(''apiVersion'', JStr (kyAPIVersion key)), (''kind'', JStr (kyKind key)),
      (''metadata'', JObj [(''name'', JStr (kyName key)), (''namespace'', JStr (kyNamespace key))])]"

lemma keyOfObject_objectOf [simp]: "keyOfObject (objectOf key) = key"
  by (simp add: keyOfObject_def objectOf_def objString_def metaString_def submap_def)

lemma mapTarget_wakes:
  assumes "keyOfObject obj = key" and "newTracker kind (TrackerName sha key) (TrackerNamespace kind key) key = Inr t" and "kind = TrackerKindFor key b"
    and "run_state (kcGetTracker cl (tkCluster t) (omNamespace (tkMeta t)) (omName (tkMeta t))) w = (g, w')"
  shows "run_state (mapTarget cl sha kind obj) w =
    (case g of Inl e \<Rightarrow> [] | Inr _ \<Rightarrow> [(omNamespace (tkMeta t), omName (tkMeta t))], w') \<and> trackerTargetKey t = key"
proof -
  have own: "list_ex (\<lambda>h. TrackerKindFor key h = kind) [False, True]" using assms(3) by (cases b) simp_all
  have kind: "kind = KindSharedResource \<or> kind = KindClusterSharedResource" using assms(3) by (simp add: TrackerKindFor_def split: if_splits)
  have ns: "TrackerNamespace KindClusterSharedResource key = ''''" by (simp add: TrackerNamespace_def kind_names)
  from assms(2) kind have t: "tkCluster t = (kind = KindClusterSharedResource)" "omName (tkMeta t) = TrackerName sha key"
    "omNamespace (tkMeta t) = TrackerNamespace kind key" "trackerTargetKey t = key"
    by (auto simp: newTracker_def kind_names no_meta_def trackerTargetKey_def Let_def TrackerNamespace_def)
  obtain probe where "emptyTracker kind = Inr probe" "tkCluster probe = tkCluster t"
    using kind t(1) by (auto simp: emptyTracker_def kind_names Let_def)
  with own assms(4) t(2,3) have "run_state (mapTarget cl sha kind obj) w =
      (case g of Inl e \<Rightarrow> [] | Inr _ \<Rightarrow> [(omNamespace (tkMeta t), omName (tkMeta t))], w')"
    unfolding mapTarget_def Let_def assms(1) by (cases g) simp_all
  with t(4) show ?thesis by simp
qed

text \<open>
  An event on a target wakes the tracker that was made for it: whatever tracker of the kind
  \<open>ensureTracker\<close> selects for a target, by the name and namespace it gives it, is in the cluster, the
  mapping of that kind requests exactly that tracker for the target object, and requests nothing when
  there is none, so that objects without a tracker do not fill the queue.
\<close>

theorem target_event_wakes_tracker:
  assumes "newTracker kind (TrackerName sha key) (TrackerNamespace kind key) key = Inr t" and "kind = TrackerKindFor key b"
    and "run_state (kcGetTracker cl (tkCluster t) (omNamespace (tkMeta t)) (omName (tkMeta t))) w = (g, w')"
  shows "run_state (mapTarget cl sha kind (objectOf key)) w =
    (case g of Inl e \<Rightarrow> [] | Inr _ \<Rightarrow> [(omNamespace (tkMeta t), omName (tkMeta t))], w') \<and> trackerTargetKey t = key"
  by (rule mapTarget_wakes[OF keyOfObject_objectOf assms])

text \<open>The same for an object without a tracker.\<close>

theorem target_event_wakes_tracker_witness:
  "run_state (mapTarget (undefined\<lparr>kcGetTracker := \<lambda>c ns n. State_Monad.return (Inl (NewNotFound ''trackers'' n))\<rparr> :: unit KubeClient) id KindSharedResource
     (objectOf \<lparr>kyAPIVersion = ''v1'', kyKind = ''ConfigMap'', kyNamespace = ''team-a'', kyName = ''cm''\<rparr>)) () = ([], ())"
proof -
  let ?cl = "undefined\<lparr>kcGetTracker := \<lambda>c ns n. State_Monad.return (Inl (NewNotFound ''trackers'' n))\<rparr> :: unit KubeClient"
  let ?key = "\<lparr>kyAPIVersion = ''v1'', kyKind = ''ConfigMap'', kyNamespace = ''team-a'', kyName = ''cm''\<rparr>"
  obtain t where t: "newTracker KindSharedResource (TrackerName id ?key) (TrackerNamespace KindSharedResource ?key) ?key = Inr t"
    by (simp add: newTracker_def)
  have "KindSharedResource = TrackerKindFor ?key False" by (simp add: TrackerKindFor_def IsClusterScopedTarget_def)
  moreover have "run_state (kcGetTracker ?cl (tkCluster t) (omNamespace (tkMeta t)) (omName (tkMeta t))) () =
      (Inl (NewNotFound ''trackers'' (omName (tkMeta t))), ())" by simp
  ultimately show ?thesis using target_event_wakes_tracker[OF t, of False ?cl "()"] by (simp split: sum.splits)
qed

end
