(* ===== verification/KubeLaws.thy ===== *)
theory KubeLaws
  imports Sample
begin

text \<open>
  The client factory with its cache (\<^verbatim>\<open>internal/impersonate/impersonate.go\<close>) and that it gives what an
  uncached factory would; the number of attempts a retry makes; and trackers of one object under two
  versions of its kind.
\<close>

section \<open>The cache of impersonating clients\<close>

type_synonym 'c factory_cache = "(string \<times> 'c) list"

text \<open>
  \<open>build\<close> is \<^verbatim>\<open>client.New\<close> for a user name; \<open>between\<close> is what other calls do to the cache between the end of
  the read lock and the start of the write lock.
\<close>

definition FactoryFor ::
  "'c \<Rightarrow> (string \<Rightarrow> (goerror, 'c) result) \<Rightarrow> ('c factory_cache \<Rightarrow> 'c factory_cache) \<Rightarrow> Contributor \<Rightarrow> 'c factory_cache
    \<Rightarrow> (goerror, 'c \<times> string) result \<times> 'c factory_cache" where
  "FactoryFor dflt build between c cached =
     (case rsServiceAccountRef (coSpec c) of
        None \<Rightarrow> (Inr (dflt, ''''), cached)
      | Some ref \<Rightarrow>
          if saName ref = '''' then (Inr (dflt, ''''), cached)
          else
            (let namespace = (if \<not> coCluster c then coNamespace c else saNamespace ref)
             in if namespace = '''' then
                  (Inl (Errorf ''serviceAccountRef.namespace is required on a cluster-scoped contributor'' []), cached)
                else
                  (let username = ServiceAccountUsername namespace (saName ref)
                   in case map_of cached username of
                        Some cl \<Rightarrow> (Inr (cl, username), cached)
                      | None \<Rightarrow>
                          (let locked = between cached
                           in case map_of locked username of
                                Some cl \<Rightarrow> (Inr (cl, username), locked)
                              | None \<Rightarrow>
                                  (case build username of
                                     Inl e \<Rightarrow> (Inl (Errorw ''building an impersonating client for %s: %w'' [username] e), locked)
                                   | Inr cl \<Rightarrow> (Inr (cl, username), aput username cl locked))))))"

text \<open>
  A factory as \<^verbatim>\<open>NewFactory\<close> makes it: the operator's configuration, copied, the options, the client without an impersonation, and nothing cached.
\<close>

record ('cfg, 'opts, 'c) Factory =
  faBaseConfig :: 'cfg
  faOptions :: 'opts
  faDefault :: 'c
  faCached :: "'c factory_cache"

definition NewFactory :: "'cfg \<Rightarrow> 'opts \<Rightarrow> 'c \<Rightarrow> ('cfg, 'opts, 'c) Factory" where
  "NewFactory cfg opts base = \<lparr>faBaseConfig = cfg, faOptions = opts, faDefault = base, faCached = []\<rparr>"

text \<open>Every client in the cache is the one built for its user.\<close>

definition cache_true :: "(string \<Rightarrow> (goerror, 'c) result) \<Rightarrow> 'c factory_cache \<Rightarrow> bool" where
  "cache_true build cached \<longleftrightarrow> (\<forall>u cl. map_of cached u = Some cl \<longrightarrow> build u = Inr cl)"

lemma cache_true_new: "cache_true build (faCached (NewFactory cfg opts base))"
  by (simp add: cache_true_def NewFactory_def)

lemma cache_true_put: "cache_true build cached \<Longrightarrow> build u = Inr cl \<Longrightarrow> cache_true build (aput u cl cached)"
  by (simp add: cache_true_def go_map)

text \<open>
  C29. The cache changes nothing but the cost: starting from a cache that holds only what was built for
  each user, whatever other calls added in the meantime, the factory answers exactly what a factory
  without a cache answers, in particular never a client built for another user, and leaves such a cache.
\<close>

theorem cached_factory_equals_uncached:
  assumes "cache_true build cached" and "\<And>m. cache_true build m \<Longrightarrow> cache_true build (between m)"
  shows "fst (FactoryFor dflt build between c cached) = ImpersonationFor dflt build c \<and>
    cache_true build (snd (FactoryFor dflt build between c cached))"
proof (cases "rsServiceAccountRef (coSpec c)")
  case None
  with assms(1) show ?thesis by (simp add: FactoryFor_def ImpersonationFor_def)
next
  case (Some ref)
  define ns where "ns = (if \<not> coCluster c then coNamespace c else saNamespace ref)"
  define user where "user = ServiceAccountUsername ns (saName ref)"
  note locked = assms(2)[OF assms(1)]
  show ?thesis
  proof (cases "saName ref = '''' \<or> ns = ''''")
    case True
    with Some assms(1) show ?thesis by (auto simp: FactoryFor_def ImpersonationFor_def ns_def Let_def)
  next
    case False
    then have run: "FactoryFor dflt build between c cached =
        (case map_of cached user of
           Some cl \<Rightarrow> (Inr (cl, user), cached)
         | None \<Rightarrow>
             (case map_of (between cached) user of
                Some cl \<Rightarrow> (Inr (cl, user), between cached)
              | None \<Rightarrow>
                  (case build user of
                     Inl e \<Rightarrow> (Inl (Errorw ''building an impersonating client for %s: %w'' [user] e), between cached)
                   | Inr cl \<Rightarrow> (Inr (cl, user), aput user cl (between cached)))))"
      and plain: "ImpersonationFor dflt build c =
        (case build user of
           Inl e \<Rightarrow> Inl (Errorw ''building an impersonating client for %s: %w'' [user] e)
         | Inr cl \<Rightarrow> Inr (cl, user))"
      unfolding FactoryFor_def ImpersonationFor_def Some option.case Let_def ns_def[symmetric] user_def[symmetric]
      using False by simp_all
    show ?thesis
    proof (cases "map_of cached user")
      case (Some cl)
      moreover have "build user = Inr cl" using assms(1) Some by (simp add: cache_true_def)
      ultimately show ?thesis unfolding run plain using assms(1) by simp
    next
      case none: None
      show ?thesis
      proof (cases "map_of (between cached) user")
        case (Some cl)
        moreover have "build user = Inr cl" using locked Some by (simp add: cache_true_def)
        ultimately show ?thesis unfolding run plain none using locked by simp
      next
        case None
        then show ?thesis unfolding run plain none
          using locked cache_true_put[OF locked, of user] by (cases "build user") simp_all
      qed
    qed
  qed
qed

text \<open>C29 for a factory that built the client before.\<close>

theorem cached_factory_equals_uncached_witness:
  "let c = (sample_patch False '''')\<lparr>coSpec := (coSpec (sample_patch False ''''))
        \<lparr>rsServiceAccountRef := Some \<lparr>saName = ''sa'', saNamespace = ''''\<rparr>\<rparr>\<rparr>;
       u = ''system:serviceaccount:team-a:sa''
   in fst (FactoryFor '''' Inr id c [(u, u)]) = ImpersonationFor '''' Inr c"
proof -
  let ?u = "''system:serviceaccount:team-a:sa''"
  have "cache_true Inr [(?u, ?u)]" by (simp add: cache_true_def)
  from cached_factory_equals_uncached[OF this, of id] show ?thesis unfolding Let_def by simp
qed

section \<open>Retries\<close>

text \<open>\<open>k\<close> attempts in a row, each of which ended in a conflict.\<close>

fun conflicted_attempts ::
  "nat \<Rightarrow> ('s \<Rightarrow> ('w, goerror option \<times> 's) state) \<Rightarrow> 's \<Rightarrow> 'w \<Rightarrow> 's \<Rightarrow> 'w \<Rightarrow> bool" where
  "conflicted_attempts 0 f s w s' w' \<longleftrightarrow> s' = s \<and> w' = w"
| "conflicted_attempts (Suc k) f s w s' w' \<longleftrightarrow>
     (\<exists>e s1 w1. run_state (f s) w = ((Some e, s1), w1) \<and> IsConflict e \<and> conflicted_attempts k f s1 w1 s' w')"

definition ends_in_conflict :: "(goerror option \<times> 's) \<times> 'w \<Rightarrow> bool" where
  "ends_in_conflict r \<longleftrightarrow> (case fst (fst r) of None \<Rightarrow> False | Some e \<Rightarrow> IsConflict e)"

lemma retry_bounded:
  "\<exists>k s' w'. k \<le> 3 \<and> conflicted_attempts k f s w s' w' \<and>
     run_state (retryOnConflict DefaultBackoff f s) w = run_state (f s') w' \<and>
     (ends_in_conflict (run_state (f s') w') \<longrightarrow> k = 3)"
proof -
  have "\<exists>k s' w'. k \<le> n \<and> conflicted_attempts k f s w s' w' \<and> run_state (retryOnConflict n f s) w = run_state (f s') w' \<and>
     (ends_in_conflict (run_state (f s') w') \<longrightarrow> k = n)" for n
  proof (induction n arbitrary: s w)
    case 0
    show ?case by (intro exI[of _ 0]) auto
  next
    case (Suc n)
    obtain r s1 w1 where run: "run_state (f s) w = ((r, s1), w1)" by (metis prod.exhaust)
    show ?case
    proof (cases "\<exists>e. r = Some e \<and> IsConflict e")
      case True
      then obtain e where e: "r = Some e" "IsConflict e" by blast
      from Suc.IH[of s1 w1] obtain k s' w' where "k \<le> n" "conflicted_attempts k f s1 w1 s' w'"
        "run_state (retryOnConflict n f s1) w1 = run_state (f s') w'" "ends_in_conflict (run_state (f s') w') \<longrightarrow> k = n" by blast
      with e run show ?thesis by (intro exI[of _ "Suc k"] exI[of _ s'] exI[of _ w']) auto
    next
      case False
      with run have "run_state (retryOnConflict (Suc n) f s) w = run_state (f s) w" "\<not> ends_in_conflict (run_state (f s) w)"
        by (auto simp: ends_in_conflict_def split: option.split)
      then show ?thesis by (intro exI[of _ 0]) auto
    qed
  qed
  from this[of DefaultBackoff] show ?thesis by (simp add: DefaultBackoff_def)
qed



section \<open>Two versions of one kind\<close>

text \<open>
  One object can have two trackers: targets that differ only in the API version under which they
  name the same object have different keys, and, unless the digest collides, different tracker names, so
  contributors that use different versions of a kind are merged by different trackers, each of which
  writes. The design says that exactly one tracker owns a target.
\<close>

theorem versions_split_trackers:
  assumes "v \<noteq> v'" and "\<And>s. length (sha s) = 64"
    and "take 10 (sha (TargetKeyString (key\<lparr>kyAPIVersion := v\<rparr>))) \<noteq> take 10 (sha (TargetKeyString (key\<lparr>kyAPIVersion := v'\<rparr>)))"
  shows "TargetKeyString (key\<lparr>kyAPIVersion := v\<rparr>) \<noteq> TargetKeyString (key\<lparr>kyAPIVersion := v'\<rparr>) \<and>
    TrackerName sha (key\<lparr>kyAPIVersion := v\<rparr>) \<noteq> TrackerName sha (key\<lparr>kyAPIVersion := v'\<rparr>) \<and>
    TrackerKindFor (key\<lparr>kyAPIVersion := v\<rparr>) b = TrackerKindFor (key\<lparr>kyAPIVersion := v'\<rparr>) b"
proof -
  have "TargetKeyString (key\<lparr>kyAPIVersion := v\<rparr>) \<noteq> TargetKeyString (key\<lparr>kyAPIVersion := v'\<rparr>)" (is "?texts")
    using assms(1) by (simp add: TargetKeyString_def)
  let ?h = "\<lambda>k. take 10 (sha (TargetKeyString k))"
  have "TrackerName sha k = TrackerName sha k' \<Longrightarrow> ?h k = ?h k'" for k k'
  proof -
    assume eq: "TrackerName sha k = TrackerName sha k'"
    obtain r r' where "TrackerName sha k = r @ ''-'' @ ?h k" "TrackerName sha k' = r' @ ''-'' @ ?h k'"
      using TrackerName_shape by metis
    with eq have "(r @ ''-'') @ ?h k = (r' @ ''-'') @ ?h k'" by simp
    moreover have "length (?h k) = length (?h k')" using assms(2) by simp
    ultimately show "?h k = ?h k'" using append_eq_append_conv by blast
  qed
  then have "TrackerName sha (key\<lparr>kyAPIVersion := v\<rparr>) \<noteq> TrackerName sha (key\<lparr>kyAPIVersion := v'\<rparr>)"
    using assms(3) by blast
  with \<open>?texts\<close> show ?thesis by (simp add: TrackerKindFor_def IsClusterScopedTarget_def)
qed

text \<open>The same for an autoscaler named under two versions.\<close>

theorem versions_split_trackers_witness:
  "let sha = (\<lambda>s. replicate 64 (if HasPrefix s ''autoscaling/v1'' then CHR ''1'' else CHR ''2''));
       key = \<lparr>kyAPIVersion = '''', kyKind = ''HorizontalPodAutoscaler'', kyNamespace = ''prod'', kyName = ''web''\<rparr>
   in TrackerName sha (key\<lparr>kyAPIVersion := ''autoscaling/v1''\<rparr>) \<noteq> TrackerName sha (key\<lparr>kyAPIVersion := ''autoscaling/v2''\<rparr>)"
proof -
  let ?sha = "\<lambda>s. replicate 64 (if HasPrefix s ''autoscaling/v1'' then CHR ''1'' else CHR ''2'')"
  let ?key = "\<lparr>kyAPIVersion = '''', kyKind = ''HorizontalPodAutoscaler'', kyNamespace = ''prod'', kyName = ''web''\<rparr>"
  have "''autoscaling/v1'' \<noteq> ''autoscaling/v2''" "length (?sha s) = 64" for s by simp_all
  moreover have "take 10 (?sha (TargetKeyString (?key\<lparr>kyAPIVersion := ''autoscaling/v1''\<rparr>)))
      \<noteq> take 10 (?sha (TargetKeyString (?key\<lparr>kyAPIVersion := ''autoscaling/v2''\<rparr>)))"
    by (simp add: TargetKeyString_def HasPrefix_def)
  ultimately show ?thesis using versions_split_trackers[of "''autoscaling/v1''" "''autoscaling/v2''" ?sha ?key] unfolding Let_def by blast
qed

end
