(* ===== verification/System.thy ===== *)
theory System
  imports Arrival WebhookLaws TargetCache KubeLaws
begin

text \<open>
  How the components hold together: what admission reviewed against what the contributor reconciler then
  targets, and the re-check of the reconciler with the authorizer of the webhook.
\<close>

section \<open>Reviewed targets\<close>

text \<open>A question that covers a verb on one object: an empty namespace or name asks about all of them.\<close>

definition covers :: "Check \<Rightarrow> Verb \<Rightarrow> TargetKey \<Rightarrow> bool" where
  "covers q v k \<longleftrightarrow> ckVerb q = v \<and> ckNamespace q \<in> {'''', kyNamespace k} \<and> ckName q \<in> {'''', kyName k}"

definition escaping :: "Contributor \<Rightarrow> bool" where
  "escaping c \<longleftrightarrow> coCluster c \<and> targetMode (coSpec c) = TargetModeSelector \<and> trNamespace (coTarget c) \<noteq> ''''"

lemma create_asks:
  assumes "ChecksFor parse OperationCreate (Some c) None lookup = Some (Inr cs)" and "v \<in> {VerbUpdate, VerbPatch}"
  shows "asks cs (targetAsk parse lookup c v)"
proof -
  obtain checks where checks: "checksForSpec parse c lookup = Inr checks" and cs: "cs = dedupeChecks checks"
    using assms(1) by (cases "checksForSpec parse c lookup") (auto simp: ChecksFor_def writeChecks_def)
  have "targetAsk parse lookup c v \<in> set checks"
    using assms(2) unfolding checksForSpec_implied[OF checks] implied_def by auto
  then have "asks checks (targetAsk parse lookup c v)" by (simp add: asks_def)
  then show ?thesis unfolding cs asks_dedupe .
qed

lemma resolved_covered:
  assumes "run_state (resolveTargets env c) w = (Inr keys, w')" and "honest_listing env" and "\<not> coCluster c \<longrightarrow> coNamespace c \<noteq> ''''"
    and "\<not> escaping c" and "targetMode (coSpec c) \<in> {TargetModeSingle, TargetModeSelector}" and "k \<in> set keys"
  shows "covers (targetAsk parse lookup c v) v k"
proof (cases "targetMode (coSpec c) = TargetModeSingle")
  case True
  then have k: "k = TargetKeyFor c" using assms(1,6) by (auto simp: resolveTargets_def)
  moreover have "trMode (coTarget c) \<noteq> TargetModeSelector" using True by (auto simp: targetMode_def split: if_splits)
  ultimately show ?thesis by (simp add: covers_def targetAsk_def targetCheck_def TargetKeyFor_def)
next
  case False
  then have mode: "targetMode (coSpec c) = TargetModeSelector" using assms(5) by simp
  then have sel: "trMode (coTarget c) = TargetModeSelector" by (simp add: targetMode_def split: if_splits)
  have "run_state (resolveSelector env c) w = (Inr keys, w')" using assms(1) False by (simp add: resolveTargets_def)
  from resolveSelector_answered[OF this] obtain gv nss w1 w2 items where
    s: "run_state (selectorNamespaces env c) w1 = (Inr nss, w2)" "answered env c gv nss items" "keys = map (itemKey c) items" by blast
  have ns: "kyNamespace k = coNamespace c" if "\<not> coCluster c"
  proof -
    have "nss = [coNamespace c]" using s(1) that by (simp add: selectorNamespaces_def)
    then have "\<forall>i \<in> set items. fst i = coNamespace c"
      using answered_contained[OF assms(2)] s(2) assms(3) that by auto
    then show ?thesis using s(3) assms(6) by (auto simp: itemKey_def)
  qed
  have "ResolveTargetNamespace c \<in> {'''', kyNamespace k}"
    using ns assms(4) mode by (auto simp: escaping_def ResolveTargetNamespace_def)
  then show ?thesis using sel by (auto simp: covers_def targetAsk_def targetCheck_def)
qed

text \<open>
  C20. What a contributor targets was reviewed: for a contributor admitted by a create, every target the
  reconciler resolves, at whatever later time, is covered by a question that admission asked for update
  and one for patch, except for a ClusterResourcePatch in Selector mode that names a target namespace.
\<close>

theorem targets_were_reviewed:
  assumes "ChecksFor parse OperationCreate (Some c) None lookup = Some (Inr cs)"
    and "run_state (resolveTargets env c) w = (Inr keys, w')" and "honest_listing env" and "\<not> coCluster c \<longrightarrow> coNamespace c \<noteq> ''''"
    and "targetMode (coSpec c) \<in> {TargetModeSingle, TargetModeSelector}" and "\<not> escaping c"
  shows "\<forall>k \<in> set keys. \<forall>v \<in> {VerbUpdate, VerbPatch}. \<exists>q. asks cs q \<and> covers q v k \<and>
    ckGroup q = targetGroup parse c \<and> ckResource q = fst (resourceOf lookup c)"
proof (intro ballI)
  fix k v assume kv: "k \<in> set keys" "v \<in> {VerbUpdate, VerbPatch}"
  have "covers (targetAsk parse lookup c v) v k"
    by (rule resolved_covered[OF assms(2,3,4,6,5) kv(1)])
  moreover have "asks cs (targetAsk parse lookup c v)" by (rule create_asks[OF assms(1) kv(2)])
  ultimately show "\<exists>q. asks cs q \<and> covers q v k \<and> ckGroup q = targetGroup parse c \<and> ckResource q = fst (resourceOf lookup c)"
    by (intro exI[of _ "targetAsk parse lookup c v"]) (simp add: targetAsk_def targetCheck_def)
qed

text \<open>C20 for a selector of a ResourcePatch.\<close>

theorem targets_were_reviewed_witness:
  "\<exists>cs. ChecksFor any_parse OperationCreate (Some (selector_patch False '''')) None None = Some (Inr cs) \<and>
    (\<exists>q. asks cs q \<and> covers q VerbPatch sample_key)"
proof -
  let ?c = "selector_patch False ''''" and ?env = "mem_contributor_env None"
  obtain cs where cs: "ChecksFor any_parse OperationCreate (Some ?c) None None = Some (Inr cs)"
    by (simp add: ChecksFor_def writeChecks_def checksForSpec_def targetChecks_def any_parse_def)
  have c: "\<not> coCluster ?c \<longrightarrow> coNamespace ?c \<noteq> ''''" "targetMode (coSpec ?c) \<in> {TargetModeSingle, TargetModeSelector}" "\<not> escaping ?c"
    "targetMode (coSpec ?c) \<noteq> TargetModeSingle"
    by (simp_all add: selector_patch_def sample_patch_def targetMode_def escaping_def Let_def)
  have run: "run_state (resolveTargets ?env ?c) undefined = (Inr [sample_key], undefined)"
    using sample_selection(1) c(4) by (simp add: resolveTargets_def)
  have "honest_listing ?env" by (auto simp: honest_listing_def mem_contributor_env_def)
  from targets_were_reviewed[OF cs run this c(1-3)] cs show ?thesis by auto
qed

text \<open>
  C37. A selector can leave the namespace it was reviewed for: for a ClusterResourcePatch in Selector mode
  whose spec names a target namespace and no namespace selector, every question about the target asks
  about that namespace only, while the reconciler lists all namespaces and targets whatever it finds
  there. The comment in the checks says that the stricter question is asked.
\<close>

theorem selector_escapes_review:
  assumes "escaping c" and "trNamespaceSelector (coTarget c) = None"
    and "ChecksFor parse OperationCreate (Some c) None lookup = Some (Inr cs)" and "snd (resourceOf lookup c)"
    and "ceParseGroupVersion env (trAPIVersion (coTarget c)) = Inr gv"
    and "\<And>sel. trSelector (coTarget c) = Some sel \<Longrightarrow> ceParseSelector env sel = Inr ()"
    and "run_state (ceListTargets env gv (trKind (coTarget c) @ ''List'') (trSelector (coTarget c)) None) w = (Inr items, w')"
    and "int (length items) \<le> maxTargets c"
  shows "(\<forall>q \<in> set cs. ckVerb q \<noteq> VerbImpersonate \<longrightarrow> ckNamespace q = trNamespace (coTarget c)) \<and>
    run_state (resolveTargets env c) w = (Inr (map (itemKey c) items), w')"
proof
  have e: "coCluster c" "targetMode (coSpec c) = TargetModeSelector" using assms(1) by (simp_all add: escaping_def)
  obtain checks where checks: "checksForSpec parse c lookup = Inr checks" and cs: "cs = dedupeChecks checks"
    using assms(3) by (cases "checksForSpec parse c lookup") (auto simp: ChecksFor_def writeChecks_def)
  have "set cs \<subseteq> implied parse lookup c"
    using seenChecks_ok[of checks] unfolding cs dedupe_values checksForSpec_implied[OF checks, symmetric] by auto
  moreover have "ckNamespace q = trNamespace (coTarget c)" if "q \<in> implied parse lookup c" "ckVerb q \<noteq> VerbImpersonate" for q
    using that e(1) assms(4)
    by (auto simp: implied_def targetAsk_def targetCheck_def ResolveTargetNamespace_def split: if_splits option.splits)
  ultimately show "\<forall>q \<in> set cs. ckVerb q \<noteq> VerbImpersonate \<longrightarrow> ckNamespace q = trNamespace (coTarget c)" by blast
  have "addItems c items [] = Inr (map (itemKey c) items)"
    using addItems_exact[of "[]" c items] maxTargets_pos[of c] assms(8) by simp
  then show "run_state (resolveTargets env c) w = (Inr (map (itemKey c) items), w')"
    using e assms(2,5-7) by (cases "trSelector (coTarget c)") (auto simp: resolveTargets_def resolveSelector_def selectorNamespaces_def)
qed

text \<open>C37 for a ClusterResourcePatch reviewed for one namespace that selects objects of two; its spec validates.\<close>

theorem selector_escapes_review_witness:
  "let c = selector_patch True ''team-a''
   in Validate c (Some (isNamespacedKind (mem_contributor_env None))) = [] \<and>
      (\<exists>cs. ChecksFor any_parse OperationCreate (Some c) None None = Some (Inr cs) \<and>
         list_all (\<lambda>q. ckVerb q = VerbImpersonate \<or> ckNamespace q = ''team-a'') cs) \<and>
      run_state (resolveTargets (mem_contributor_env None) c) undefined =
        (Inr [sample_key, sample_key\<lparr>kyNamespace := ''team-b''\<rparr>], undefined)"
proof -
  let ?c = "selector_patch True ''team-a''" and ?env = "mem_contributor_env None"
  note d = selector_patch_def sample_patch_def no_meta_def Let_def
  have valid: "Validate ?c (Some (isNamespacedKind ?env)) = []"
    by (simp add: Validate_def validateTargetIdentity_def validateMode_def validateLifecycle_def validatePatch_def
        validateClusterScoped_def isNamespacedKind_def mem_contributor_env_def targetMode_def rawUnset_def isOwnKind_def
        HasPrefix_def GroupName_def kind_names d)
  have esc: "escaping ?c" "trNamespaceSelector (coTarget ?c) = None"
    by (simp_all add: escaping_def targetMode_def d)
  obtain cs where cs: "ChecksFor any_parse OperationCreate (Some ?c) None None = Some (Inr cs)"
    by (simp add: ChecksFor_def writeChecks_def checksForSpec_def targetChecks_def any_parse_def)
  have ns: "snd (resourceOf None ?c)" by (simp add: resourceOf_def)
  have gv: "ceParseGroupVersion ?env (trAPIVersion (coTarget ?c)) = Inr ('''', ''v1'')"
    "\<And>sel. trSelector (coTarget ?c) = Some sel \<Longrightarrow> ceParseSelector ?env sel = Inr ()"
    by (simp_all add: mem_contributor_env_def d)
  have list: "run_state (ceListTargets ?env ('''', ''v1'') (trKind (coTarget ?c) @ ''List'') (trSelector (coTarget ?c)) None) undefined =
      (Inr [(''team-a'', ''cm''), (''team-b'', ''cm'')], undefined)" by (simp add: mem_contributor_env_def)
  have cap: "int (length [(''team-a'', ''cm''), (''team-b'', ''cm'')]) \<le> maxTargets ?c" by (simp add: maxTargets_def d)
  have "map (itemKey ?c) [(''team-a'', ''cm''), (''team-b'', ''cm'')] = [sample_key, sample_key\<lparr>kyNamespace := ''team-b''\<rparr>]"
    "trNamespace (coTarget ?c) = ''team-a''"
    by (simp_all add: itemKey_def sample_key_def d)
  with selector_escapes_review[OF esc cs ns gv list cap] valid cs show ?thesis unfolding Let_def list_all_iff by auto
qed

end
