(* ===== verification/Wiring.thy ===== *)
theory Wiring
  imports TargetCache Contributor
begin

text \<open>
  How the controllers are wired (\<open>SetupWithManager\<close> of both reconcilers, \<open>SetupIndexes\<close>): which objects a
  controller watches, which events pass, and whom an event makes it reconcile. The library that delivers
  the events is a parameter of what uses this.
\<close>

section \<open>Objects and events\<close>

datatype Obj = PatchObj Contributor | TrackerObj Tracker

fun objKind :: "Obj \<Rightarrow> string" where
  "objKind (PatchObj c) = ContributorKind c"
| "objKind (TrackerObj t) = TrackerKind t"

fun objMeta :: "Obj \<Rightarrow> ObjectMeta" where
  "objMeta (PatchObj c) = coMeta c"
| "objMeta (TrackerObj t) = tkMeta t"

text \<open>A \<^verbatim>\<open>reconcile.Request\<close> is a namespace and a name.\<close>

type_synonym request = "string \<times> string"

definition objRequest :: "Obj \<Rightarrow> request" where
  "objRequest ob = (omNamespace (objMeta ob), omName (objMeta ob))"

datatype Event = CreateEvent Obj | UpdateEvent Obj Obj | DeleteEvent Obj

section \<open>Controllers\<close>

text \<open>
  A watch of a kind: on the controller's own objects with a predicate on updates (\<^verbatim>\<open>For\<close>; a
  \<^verbatim>\<open>predicate.Funcs\<close> without the other functions passes creations and deletions), or on others with a mapping
  to requests (\<^verbatim>\<open>Watches\<close>).
\<close>

datatype WatchHow = ForObject "Obj \<Rightarrow> Obj \<Rightarrow> bool" | MapFunc "Obj \<Rightarrow> request list"

record Watch =
  waKind :: string
  waHow :: WatchHow

text \<open>Which reconciler serves the requests; the flag tells the cluster-scoped kind.\<close>

datatype Serves = ServesContributor bool | ServesTracker bool

record Controller =
  ctName :: string
  ctServes :: Serves
  ctConcurrent :: "nat option"
  ctWatches :: "Watch list"

definition patchKind :: "bool \<Rightarrow> string" where
  "patchKind cluster = (if cluster then KindClusterResourcePatch else KindResourcePatch)"

definition sharedKind :: "bool \<Rightarrow> string" where
  "sharedKind cluster = (if cluster then KindClusterSharedResource else KindSharedResource)"

text \<open>How \<^verbatim>\<open>%T\<close> prints the type of a pointer to one of the operator's structs.\<close>

definition typeName :: "string \<Rightarrow> string" where
  "typeName kind = ''*v1alpha1.'' @ kind"

definition contributorPredicate :: "Obj \<Rightarrow> Obj \<Rightarrow> bool" where
  "contributorPredicate a b \<longleftrightarrow> generationOrFinalizerChanged (objMeta a) (objMeta b)"

definition trackerPredicate :: "Obj \<Rightarrow> Obj \<Rightarrow> bool" where
  "trackerPredicate a b = (case (a, b) of (TrackerObj s, TrackerObj t) \<Rightarrow> trackerChanged s t | _ \<Rightarrow> True)"

definition trackersOfObject :: "(string \<Rightarrow> string) \<Rightarrow> string \<Rightarrow> Obj \<Rightarrow> request list" where
  "trackersOfObject sha wantKind ob =
     (case ob of PatchObj c \<Rightarrow> trackersOfContributor sha wantKind c | TrackerObj _ \<Rightarrow> [])"

definition contributorsOfObject :: "bool \<Rightarrow> Obj \<Rightarrow> request list" where
  "contributorsOfObject cluster ob =
     (case ob of TrackerObj t \<Rightarrow> contributorsOfTracker cluster t | PatchObj _ \<Rightarrow> [])"

definition trackerController :: "(string \<Rightarrow> string) \<Rightarrow> bool \<Rightarrow> Controller" where
  "trackerController sha cluster =
     \<lparr>ctName = sanitizeControllerName (''tracker-'' @ typeName (sharedKind cluster)), ctServes = ServesTracker cluster,
      ctConcurrent = Some 4,
      ctWatches =
        [\<lparr>waKind = sharedKind cluster, waHow = ForObject trackerPredicate\<rparr>,
         \<lparr>waKind = KindResourcePatch, waHow = MapFunc (trackersOfObject sha (sharedKind cluster))\<rparr>,
         \<lparr>waKind = KindClusterResourcePatch, waHow = MapFunc (trackersOfObject sha (sharedKind cluster))\<rparr>]\<rparr>"

definition contributorController :: "bool \<Rightarrow> Controller" where
  "contributorController cluster =
     \<lparr>ctName = sanitizeControllerName (''contributor-'' @ typeName (patchKind cluster)), ctServes = ServesContributor cluster,
      ctConcurrent = None,
      ctWatches =
        [\<lparr>waKind = patchKind cluster, waHow = ForObject contributorPredicate\<rparr>,
         \<lparr>waKind = KindSharedResource, waHow = MapFunc (contributorsOfObject cluster)\<rparr>,
         \<lparr>waKind = KindClusterSharedResource, waHow = MapFunc (contributorsOfObject cluster)\<rparr>]\<rparr>"

text \<open>
  \<open>build\<close> is the library's builder. The tracker reconciler keeps the controller it made, for the target
  watches it adds later.
\<close>

definition SetupTracker ::
  "(Controller \<Rightarrow> ('w, 'c) io) \<Rightarrow> (string \<Rightarrow> string) \<Rightarrow> bool \<Rightarrow> ('w, (goerror, unit) result \<times> 'c option) state" where
  "SetupTracker build sha cluster =
     do {
       r \<leftarrow> build (trackerController sha cluster);
       State_Monad.return (case r of Inl e \<Rightarrow> (Inl e, None) | Inr built \<Rightarrow> (Inr (), Some built))
     }"

definition SetupContributor :: "(Controller \<Rightarrow> ('w, 'c) io) \<Rightarrow> bool \<Rightarrow> ('w, unit) io" where
  "SetupContributor build cluster =
     do {
       r \<leftarrow> build (contributorController cluster);
       State_Monad.return (map_sum id (\<lambda>_. ()) r)
     }"

section \<open>Indexes\<close>

definition TargetKeyIndex :: string where
  "TargetKeyIndex = ''spec.target.key''"

definition SetupIndexes :: "(string \<Rightarrow> string \<Rightarrow> (Contributor \<Rightarrow> string list) \<Rightarrow> ('w, unit) io) \<Rightarrow> ('w, unit) io" where
  "SetupIndexes indexField =
     do {
       r \<leftarrow> indexField KindResourcePatch TargetKeyIndex targetKeysFor;
       case r of
         Inl e \<Rightarrow> State_Monad.return (Inl (Errorw ''indexing ResourcePatch by target key: %w'' [] e))
       | Inr _ \<Rightarrow>
           do {
             r' \<leftarrow> indexField KindClusterResourcePatch TargetKeyIndex targetKeysFor;
             State_Monad.return
               (case r' of
                  Inl e \<Rightarrow> Inl (Errorw ''indexing ClusterResourcePatch by target key: %w'' [] e)
                | Inr _ \<Rightarrow> Inr ())
           }
     }"

text \<open>
  The library refuses two controllers of one name: the four the operator starts differ, although they are two
  implementations.
\<close>

lemma controller_names_distinct:
  "distinct (map (\<lambda>b. ctName (contributorController b)) [False, True] @ map (\<lambda>b. ctName (trackerController sha b)) [False, True])"
proof -
  have "ctName (trackerController sha b) = ctName (trackerController id b)" for b
    by (simp add: trackerController_def)
  moreover have "distinct (map (\<lambda>b. ctName (contributorController b)) [False, True] @ map (\<lambda>b. ctName (trackerController id b)) [False, True])"
    by code_simp
  ultimately show ?thesis by simp
qed

end
