(* ===== verification/Wakeup.thy ===== *)
theory Wakeup
  imports Arrival Wiring
begin

text \<open>
  The controllers as one system: what a pass writes becomes events, the watches of \<open>Wiring\<close> turn events into
  requests. Shown is that no change that matters is lost between the two reconcilers.
\<close>

section \<open>From events to requests\<close>

definition controllers :: "(string \<Rightarrow> string) \<Rightarrow> Controller list" where
  "controllers sha = [contributorController False, contributorController True, trackerController sha False, trackerController sha True]"

fun eventKind :: "Event \<Rightarrow> string" where
  "eventKind (CreateEvent ob) = objKind ob"
| "eventKind (UpdateEvent old ob) = objKind ob"
| "eventKind (DeleteEvent ob) = objKind ob"

text \<open>
  What the library documents of a watch: \<^verbatim>\<open>EnqueueRequestForObject\<close> behind a predicate asks for the object itself,
  \<^verbatim>\<open>EnqueueRequestsFromMapFunc\<close> for what the function maps the object to, and on an update for what it maps
  either version to.
\<close>

fun enqueuedBy :: "WatchHow \<Rightarrow> Event \<Rightarrow> request list" where
  "enqueuedBy (ForObject passes) (UpdateEvent old ob) = (if passes old ob then [objRequest ob] else [])"
| "enqueuedBy (ForObject passes) (CreateEvent ob) = [objRequest ob]"
| "enqueuedBy (ForObject passes) (DeleteEvent ob) = [objRequest ob]"
| "enqueuedBy (MapFunc f) (UpdateEvent old ob) = f old @ f ob"
| "enqueuedBy (MapFunc f) (CreateEvent ob) = f ob"
| "enqueuedBy (MapFunc f) (DeleteEvent ob) = f ob"

definition enqueued :: "Controller \<Rightarrow> Event \<Rightarrow> request list" where
  "enqueued ct ev = concat (map (\<lambda>wa. enqueuedBy (waHow wa) ev) (filter (\<lambda>wa. waKind wa = eventKind ev) (ctWatches ct)))"

text \<open>A library that delivers at least that.\<close>

type_synonym delivery = "Controller \<Rightarrow> Event \<Rightarrow> request set"

definition delivers :: "delivery \<Rightarrow> bool" where
  "delivers deliver \<longleftrightarrow> (\<forall>ct ev. set (enqueued ct ev) \<subseteq> deliver ct ev)"

type_synonym pending = "(Serves \<times> request) set"

definition woken :: "delivery \<Rightarrow> (string \<Rightarrow> string) \<Rightarrow> Event list \<Rightarrow> pending" where
  "woken deliver sha evs = (\<Union>ct \<in> set (controllers sha). \<Union>ev \<in> set evs. Pair (ctServes ct) ` deliver ct ev)"

abbreviation patchRequest :: "Contributor \<Rightarrow> Serves \<times> request" where
  "patchRequest c \<equiv> (ServesContributor (coCluster c), objRequest (PatchObj c))"

abbreviation trackerRequest :: "Tracker \<Rightarrow> Serves \<times> request" where
  "trackerRequest t \<equiv> (ServesTracker (tkCluster t), objRequest (TrackerObj t))"

section \<open>No lost wake-up\<close>

lemma kinds_of [simp]:
  "TrackerKind t = sharedKind (tkCluster t)" "ContributorKind c = patchKind (coCluster c)"
  by (simp_all add: TrackerKind_def ContributorKind_def patchKind_def sharedKind_def)

lemma kinds_differ [simp]:
  "patchKind b = patchKind b' \<longleftrightarrow> b = b'" "sharedKind b = sharedKind b' \<longleftrightarrow> b = b'" "patchKind b \<noteq> sharedKind b'" "sharedKind b' \<noteq> patchKind b"
  by (simp_all add: patchKind_def sharedKind_def kind_names)

lemma enqueued_controllers:
  "enqueued (trackerController sha b) ev =
     (if eventKind ev = sharedKind b then enqueuedBy (ForObject trackerPredicate) ev else []) @
     (if \<exists>b'. eventKind ev = patchKind b' then enqueuedBy (MapFunc (trackersOfObject sha (sharedKind b))) ev else [])"
  "enqueued (contributorController b) ev =
     (if eventKind ev = patchKind b then enqueuedBy (ForObject contributorPredicate) ev else []) @
     (if \<exists>b'. eventKind ev = sharedKind b' then enqueuedBy (MapFunc (contributorsOfObject b)) ev else [])"
proof -
  have *: "KindResourcePatch = patchKind False" "KindClusterResourcePatch = patchKind True"
    "KindSharedResource = sharedKind False" "KindClusterSharedResource = sharedKind True"
    by (simp_all add: patchKind_def sharedKind_def)
  have ex: "(\<exists>b'. k = f b') \<longleftrightarrow> k = f False \<or> k = f True" for k and f :: "bool \<Rightarrow> string" by (metis (full_types))
  show "enqueued (trackerController sha b) ev =
     (if eventKind ev = sharedKind b then enqueuedBy (ForObject trackerPredicate) ev else []) @
     (if \<exists>b'. eventKind ev = patchKind b' then enqueuedBy (MapFunc (trackersOfObject sha (sharedKind b))) ev else [])"
    unfolding ex enqueued_def trackerController_def * by (cases "eventKind ev = patchKind False") auto
  show "enqueued (contributorController b) ev =
     (if eventKind ev = patchKind b then enqueuedBy (ForObject contributorPredicate) ev else []) @
     (if \<exists>b'. eventKind ev = sharedKind b' then enqueuedBy (MapFunc (contributorsOfObject b)) ev else [])"
    unfolding ex enqueued_def contributorController_def * by (cases "eventKind ev = sharedKind False") auto
qed

text \<open>Whoever an object version names is woken by every event that shows the version.\<close>

definition shows_version :: "Event \<Rightarrow> Obj \<Rightarrow> bool" where
  "shows_version ev ob \<longleftrightarrow>
     (case ev of CreateEvent x \<Rightarrow> ob = x | DeleteEvent x \<Rightarrow> ob = x | UpdateEvent x y \<Rightarrow> objKind x = objKind y \<and> (ob = x \<or> ob = y))"

definition concerns :: "Event \<Rightarrow> Obj \<Rightarrow> bool" where
  "concerns ev ob \<longleftrightarrow>
     (case ev of
        CreateEvent x \<Rightarrow> ob = x
      | DeleteEvent x \<Rightarrow> ob = x
      | UpdateEvent x y \<Rightarrow> ob = y \<and> objKind x = objKind y \<and>
          (case (x, y) of
             (PatchObj c, PatchObj c') \<Rightarrow> contributorPredicate x y
           | (TrackerObj t, TrackerObj t') \<Rightarrow> trackerChanged t t'
           | _ \<Rightarrow> False))"

lemma shown_kind: "shows_version ev ob \<Longrightarrow> eventKind ev = objKind ob"
  by (auto simp: shows_version_def split: Event.splits)

lemma mapped_shown: "shows_version ev ob \<Longrightarrow> set (f ob) \<subseteq> set (enqueuedBy (MapFunc f) ev)"
  by (auto simp: shows_version_def split: Event.splits)

lemma woken_by:
  assumes "delivers deliver" and "ev \<in> set evs" and "ct \<in> set (controllers sha)" and "rq \<in> set (enqueued ct ev)"
  shows "(ctServes ct, rq) \<in> woken deliver sha evs"
proof -
  have "rq \<in> deliver ct ev" using assms(1,4) by (auto simp: delivers_def)
  with assms(2,3) show ?thesis unfolding woken_def by blast
qed

lemma controller_serves [simp]:
  "ctServes (contributorController b) = ServesContributor b" "ctServes (trackerController sha b) = ServesTracker b"
  "contributorController b \<in> set (controllers sha)" "trackerController sha b \<in> set (controllers sha)"
  by (cases b; simp add: contributorController_def trackerController_def controllers_def)+

lemma woken_self:
  assumes "delivers deliver" and "ev \<in> set evs"
  shows "concerns ev (PatchObj c) \<Longrightarrow> patchRequest c \<in> woken deliver sha evs"
    and "concerns ev (TrackerObj t) \<Longrightarrow> trackerRequest t \<in> woken deliver sha evs"
proof -
  assume "concerns ev (PatchObj c)"
  then have "objRequest (PatchObj c) \<in> set (enqueued (contributorController (coCluster c)) ev)"
    by (auto simp: concerns_def enqueued_controllers split: Event.splits Obj.splits)
  from woken_by[OF assms _ this] show "patchRequest c \<in> woken deliver sha evs" by simp
next
  assume "concerns ev (TrackerObj t)"
  then have "objRequest (TrackerObj t) \<in> set (enqueued (trackerController sha (tkCluster t)) ev)"
    by (auto simp: concerns_def enqueued_controllers trackerPredicate_def split: Event.splits Obj.splits)
  from woken_by[OF assms _ this] show "trackerRequest t \<in> woken deliver sha evs" by simp
qed

lemma woken_contributor:
  assumes "delivers deliver" and "ev \<in> set evs" and "shows_version ev (TrackerObj t)"
    and "rec \<in> set (ssContributors (tkStatus t))" and "csPatchRef rec = ContributorRefOf c"
  shows "patchRequest c \<in> woken deliver sha evs"
proof -
  have "objRequest (PatchObj c) \<in> set (contributorsOfObject (coCluster c) (TrackerObj t))"
    using assms(4,5) unfolding contributorsOfObject_def contributorsOfTracker_def objRequest_def
    by (force simp: ContributorRefOf_def patchKind_def[symmetric] intro!: image_eqI[of _ _ rec])
  then have "objRequest (PatchObj c) \<in> set (enqueued (contributorController (coCluster c)) ev)"
    using mapped_shown[OF assms(3), of "contributorsOfObject (coCluster c)"] shown_kind[OF assms(3)]
    by (auto simp: enqueued_controllers)
  from woken_by[OF assms(1,2) _ this] show ?thesis by simp
qed

text \<open>The tracker a contributor has to do with: one its status refers to or, without any, the one of its target.\<close>

definition trackerFor :: "(string \<Rightarrow> string) \<Rightarrow> Contributor \<Rightarrow> Tracker \<Rightarrow> bool" where
  "trackerFor sha c t \<longleftrightarrow>
     (if psSharedResourceRefs (coStatus c) = [] then trMode (coTarget c) \<noteq> TargetModeSelector \<and> trackerRefOf t = trackerRefOf (madeTracker sha c)
      else trackerRefOf t \<in> set (psSharedResourceRefs (coStatus c)))"

lemma madeTracker_kind:
  "TrackerKindFor (TargetKeyFor c) (coCluster c) =
     sharedKind (TrackerKindFor (TargetKeyFor c) (coCluster c) = KindClusterSharedResource)"
  by (simp add: sharedKind_def TrackerKindFor_def kind_names)

lemma woken_tracker:
  assumes "delivers deliver" and "ev \<in> set evs" and "shows_version ev (PatchObj c)" and "trackerFor sha c t"
  shows "trackerRequest t \<in> woken deliver sha evs"
proof -
  have "objRequest (TrackerObj t) \<in> set (trackersOfContributor sha (sharedKind (tkCluster t)) c)"
  proof (cases "psSharedResourceRefs (coStatus c) = []")
    case True
    then show ?thesis
      using assms(4)
      by (simp add: trackerFor_def trackersOfContributor_def objRequest_def Let_def trackerRefOf_def madeTracker_id
          madeTracker_kind[symmetric])
  next
    case False
    let ?out = "map (\<lambda>r. (tkNamespace r, tkName r))
      (filter (\<lambda>r. tkKind r = sharedKind (tkCluster t)) (psSharedResourceRefs (coStatus c)))"
    from False have "trackerRefOf t \<in> set (psSharedResourceRefs (coStatus c))" using assms(4) by (simp add: trackerFor_def)
    then have out: "objRequest (TrackerObj t) \<in> set ?out"
      by (auto simp: objRequest_def trackerRefOf_def intro!: image_eqI[of _ _ "trackerRefOf t"])
    then have "?out \<noteq> []" by (metis empty_iff list.set(1))
    with out show ?thesis unfolding trackersOfContributor_def Let_def by (simp del: set_map set_filter)
  qed
  then have "objRequest (TrackerObj t) \<in> set (enqueued (trackerController sha (tkCluster t)) ev)"
    using mapped_shown[OF assms(3), of "trackersOfObject sha (sharedKind (tkCluster t))"] shown_kind[OF assms(3)]
    by (auto simp: enqueued_controllers trackersOfObject_def)
  from woken_by[OF assms(1,2) _ this] show ?thesis by simp
qed

text \<open>
  C9. No wake-up is lost between the reconcilers. Given a library that delivers what it documents: a
  contributor that is created, deleted, or whose generation, deletion or finalizers change is reconciled;
  whenever any version of it shows up, so is each tracker it registered with and, before it registered, the
  tracker of its target; a tracker that is created, deleted or changes in what a tracker's pass looks at is
  reconciled; and so is every contributor that its old or its new status lists.
\<close>

theorem no_lost_wakeup:
  assumes "delivers deliver" and "ev \<in> set evs"
  shows "(concerns ev (PatchObj c) \<longrightarrow> patchRequest c \<in> woken deliver sha evs) \<and>
    (shows_version ev (PatchObj c) \<and> trackerFor sha c t \<longrightarrow> trackerRequest t \<in> woken deliver sha evs) \<and>
    (concerns ev (TrackerObj t) \<longrightarrow> trackerRequest t \<in> woken deliver sha evs) \<and>
    (shows_version ev (TrackerObj t) \<and> ContributorRefOf c \<in> csPatchRef ` set (ssContributors (tkStatus t)) \<longrightarrow>
       patchRequest c \<in> woken deliver sha evs)"
  using woken_self[OF assms] woken_tracker[OF assms] woken_contributor[OF assms] by (metis imageE)

text \<open>
  C9 for a new contributor, which is woken with the tracker of its target, and for a tracker that goes away while its status
  lists a contributor.
\<close>

theorem no_lost_wakeup_witness:
  "let c = sample_patch False ''''; D = (\<lambda>ct ev. set (enqueued ct ev)); 
     c' = sample_contributor ''u'' 1 ConflictPolicyFail ''x'';
     t = sample_tracker (no_status\<lparr>ssContributors := [rcStatus (sample_entry ''u'' 1 ConflictPolicyFail ''x'')]\<rparr>) in
   patchRequest c \<in> woken D id [CreateEvent (PatchObj c)] \<and>
   trackerRequest (madeTracker id c) \<in> woken D id [CreateEvent (PatchObj c)] \<and>
   trackerRequest t \<in> woken D id [DeleteEvent (TrackerObj t)] \<and>
   patchRequest c' \<in> woken D id [DeleteEvent (TrackerObj t)]"
proof -
  let ?D = "\<lambda>ct ev. set (enqueued ct ev)" and ?c = "sample_patch False ''''" and ?c' = "sample_contributor ''u'' 1 ConflictPolicyFail ''x''"
    and ?t = "sample_tracker (no_status\<lparr>ssContributors := [rcStatus (sample_entry ''u'' 1 ConflictPolicyFail ''x'')]\<rparr>)"
  have del: "delivers ?D" by (simp add: delivers_def)
  have "concerns (CreateEvent (PatchObj ?c)) (PatchObj ?c)" "shows_version (CreateEvent (PatchObj ?c)) (PatchObj ?c)"
    "concerns (DeleteEvent (TrackerObj ?t)) (TrackerObj ?t)"
    "shows_version (DeleteEvent (TrackerObj ?t)) (TrackerObj ?t)"
    by (simp_all add: concerns_def shows_version_def)
  moreover have "trackerFor id ?c (madeTracker id ?c)" by code_simp
  moreover have "ContributorRefOf ?c' \<in> csPatchRef ` set (ssContributors (tkStatus ?t))" by code_simp
  ultimately show ?thesis
    using no_lost_wakeup[OF del, of _ _ ?c _ "madeTracker id ?c"] no_lost_wakeup[OF del, of _ _ ?c' _ ?t]
    unfolding Let_def by (metis list.set_intros(1))
qed

end
