(* ===== verification/Contract.thy ===== *)
theory Contract
  imports Lifecycle
begin

text \<open>
  What the reconcilers keep, whatever the order of their passes. The calls a reconciler makes are a contract
  (which invariant of the cluster every call keeps, and what holds of the trackers it is handed), and a pass
  keeps what its calls keep. The contributor reconciler needs the calls on the operator's own kinds only; the
  tracker reconciler needs the calls on targets too.
\<close>

section \<open>Keeping an invariant\<close>

text \<open>From a state with \<open>I\<close>, the operation ends in one with \<open>I\<close>, and \<open>res\<close> holds of its result.\<close>

definition keeps :: "('w \<Rightarrow> bool) \<Rightarrow> ('a \<Rightarrow> bool) \<Rightarrow> ('w, 'a) state \<Rightarrow> bool" where
  "keeps I res m \<longleftrightarrow> (\<forall>w. I w \<longrightarrow> I (snd (run_state m w)) \<and> res (fst (run_state m w)))"

definition okR :: "('a \<Rightarrow> bool) \<Rightarrow> (goerror, 'a) result \<Rightarrow> bool" where
  "okR P r \<longleftrightarrow> (case r of Inl _ \<Rightarrow> True | Inr a \<Rightarrow> P a)"

lemma okR_simps [simp]: "okR P (Inl e)" "okR P (Inr a) \<longleftrightarrow> P a" "okR (\<lambda>_. True) r"
  by (simp_all add: okR_def split: sum.split)

named_theorems keeping \<open>what the parts of an operation keep\<close>

lemma keeps_return [keeping]: "res a \<Longrightarrow> keeps I res (State_Monad.return a)"
  by (simp add: keeps_def)

lemma keeps_bind:
  "\<lbrakk>keeps I mid m; \<And>a. mid a \<Longrightarrow> keeps I res (f a)\<rbrakk> \<Longrightarrow> keeps I res (State_Monad.bind m f)"
  by (force simp: keeps_def split: prod.splits)

lemma keeps_weaken: "\<lbrakk>keeps I mid m; \<And>a. mid a \<Longrightarrow> res a\<rbrakk> \<Longrightarrow> keeps I res m"
  by (simp add: keeps_def)

lemma keeps_any: "keeps I mid m \<Longrightarrow> keeps I (\<lambda>_. True) m"
  by (simp add: keeps_def)

lemma keeps_cases [keeping]:
  "\<lbrakk>\<And>e. r = Inl e \<Longrightarrow> keeps I res (f e); \<And>a. r = Inr a \<Longrightarrow> keeps I res (g a)\<rbrakk> \<Longrightarrow>
     keeps I res (case r of Inl e \<Rightarrow> f e | Inr a \<Rightarrow> g a)"
  "\<lbrakk>ob = None \<Longrightarrow> keeps I res m; \<And>a. ob = Some a \<Longrightarrow> keeps I res (h a)\<rbrakk> \<Longrightarrow>
     keeps I res (case ob of None \<Rightarrow> m | Some a \<Rightarrow> h a)"
  "\<lbrakk>b \<Longrightarrow> keeps I res m; \<not> b \<Longrightarrow> keeps I res m'\<rbrakk> \<Longrightarrow> keeps I res (if b then m else m')"
  "\<lbrakk>\<And>x y. p = (x, y) \<Longrightarrow> keeps I res (k x y)\<rbrakk> \<Longrightarrow> keeps I res (case p of (x, y) \<Rightarrow> k x y)"
  by (auto split: sum.split option.split prod.split)

lemma keeps_retry [keeping]:
  assumes "\<And>s. ok s \<Longrightarrow> keeps I (\<lambda>r. ok (snd r)) (f s)" and "ok s"
  shows "keeps I (\<lambda>r. ok (snd r)) (retryOnConflict n f s)"
  using assms(2) by (induction n arbitrary: s) (auto intro!: keeping assms(1) keeps_bind[OF assms(1)])

section \<open>The operator's own kinds\<close>

text \<open>
  \<open>I\<close> is kept by every call, \<open>okT\<close> holds of every tracker handed out provided it holds of every tracker handed in, and
  depends on neither the status nor on metadata other than the name.
\<close>

locale tracker_store =
  fixes cl :: "'w KubeClient" and I :: "'w \<Rightarrow> bool" and okT :: "Tracker \<Rightarrow> bool" and sha :: "string \<Rightarrow> string"
  assumes get_tracker: "keeps I (okR okT) (kcGetTracker cl b ns n)"
    and create_tracker: "okT t \<Longrightarrow> keeps I (okR okT) (kcCreateTracker cl t)"
    and update_tracker: "okT t \<Longrightarrow> keeps I (okR okT) (kcUpdateTracker cl t)"
    and update_tracker_status: "okT t \<Longrightarrow> keeps I (okR okT) (kcUpdateTrackerStatus cl t)"
    and delete_tracker: "keeps I (\<lambda>_. True) (kcDeleteTracker cl t)"
    and get_patch: "keeps I (\<lambda>_. True) (kcGetPatch cl b ns n)"
    and list_patches: "keeps I (\<lambda>_. True) (kcListPatches cl b i nso)"
    and update_patch: "keeps I (\<lambda>_. True) (kcUpdatePatch cl c)"
    and update_patch_status: "keeps I (\<lambda>_. True) (kcUpdatePatchStatus cl c)"
    and ok_status: "okT t \<Longrightarrow> okT (t\<lparr>tkStatus := st\<rparr>)"
    and ok_meta: "\<lbrakk>okT t; omName m = omName (tkMeta t); omNamespace m = omNamespace (tkMeta t)\<rbrakk> \<Longrightarrow> okT (t\<lparr>tkMeta := m\<rparr>)"
    and ok_new: "newTracker kind (TrackerName sha key) (TrackerNamespace kind key) key = Inr t \<Longrightarrow> okT t"
begin

lemmas calls = get_tracker create_tracker update_tracker update_tracker_status delete_tracker get_patch list_patches
  update_patch update_patch_status

lemmas calling = calls calls[THEN keeps_bind]

lemma ok_finalizers: "okT t \<Longrightarrow> okT (t\<lparr>tkMeta := AddFinalizer f (tkMeta t)\<rparr>)" "okT t \<Longrightarrow> okT (withoutFinalizer t)"
  by (auto intro!: ok_meta simp: AddFinalizer_def withoutFinalizer_def RemoveFinalizer_def)

lemma keeps_getTracker: "keeps I (okR okT) (getTracker cl ref)"
  unfolding getTracker_def by (intro keeping calling) simp

lemma keeps_patchStatus:
  assumes "okT t"
  shows "keeps I (\<lambda>r. okT (snd r)) (patchStatus cl t mutate)"
proof -
  have "keeps I (\<lambda>r. okT (snd r)) (patchStatusOnce cl mutate t)" if "okT t" for t
    unfolding patchStatusOnce_def Let_def
    by (intro keeping calling ok_status that) (auto simp: okR_def intro!: ok_status ok_meta that split: sum.splits)
  then have "keeps I (\<lambda>r. okT (snd r)) (retryOnConflict DefaultBackoff (patchStatusOnce cl mutate) t)"
    by (intro keeping assms)
  then show ?thesis
    unfolding patchStatus_def by (rule keeps_bind) (simp add: ignoreNotFound_def keeping)
qed

lemma keeps_retry_unit:
  assumes "keeps I (\<lambda>_. True) (f ())"
  shows "keeps I (\<lambda>_. True) (retryOnConflict n f ())"
  using keeps_retry[of "\<lambda>_. True" I f] assms by simp

lemma keeps_dropTracker: "keeps I (\<lambda>_. True) (dropTracker cl t)"
  unfolding dropTracker_def by (intro keeping calling) simp

lemma keeps_finishPromotion:
  assumes "teClient env = cl" and "okT t"
  shows "keeps I (\<lambda>_. True) (finishPromotion env t)"
  unfolding finishPromotion_def assms(1)
  by (intro keeping calling ok_status ok_finalizers keeps_dropTracker assms(2)) simp_all

end

section \<open>The contributor reconciler\<close>

text \<open>The settings of a contributor reconciler whose other calls keep the invariant.\<close>

definition contributor_calls :: "('w \<Rightarrow> bool) \<Rightarrow> 'w KubeClient \<Rightarrow> 'w ContributorEnv \<Rightarrow> bool" where
  "contributor_calls I cl env \<longleftrightarrow> ceClient env = cl \<and> reader env = cl \<and>
     (\<forall>gv k s n. keeps I (\<lambda>_. True) (ceListTargets env gv k s n)) \<and> (\<forall>s. keeps I (\<lambda>_. True) (ceListNamespaces env s)) \<and>
     (\<forall>a. ceAuthorizer env = Some a \<longrightarrow> (\<forall>u c. keeps I (\<lambda>_. True) (a u c)))"

locale contributor_store = tracker_store cl I okT "ceSha env"
  for cl :: "'w KubeClient" and I :: "'w \<Rightarrow> bool" and okT :: "Tracker \<Rightarrow> bool" and env :: "'w ContributorEnv" +
  assumes env: "contributor_calls I cl env"
begin

lemma env_calls:
  "ceClient env = cl" "reader env = cl" "keeps I (\<lambda>_. True) (ceListTargets env gv k s n)"
  "keeps I (\<lambda>_. True) (ceListNamespaces env ls)" "ceAuthorizer env = Some a \<Longrightarrow> keeps I (\<lambda>_. True) (a u c)"
  using env by (cases gv; simp add: contributor_calls_def)+

lemmas env_calling = calling env_calls(3,4) env_calls(3,4)[THEN keeps_bind]

lemma keeps_updateStatus: "keeps I (\<lambda>_. True) (updateStatus env f c)"
  unfolding updateStatus_def env_calls(1) by (rule update_patch_status)

lemma keeps_promoteIfNeeded: "keeps I (\<lambda>_. True) (promoteIfNeeded env key)"
proof -
  have fence: "keeps I (\<lambda>_. True) (fenceOnce env ns n ())" for ns n
    unfolding fenceOnce_def env_calls by (intro keeping calling ok_status) simp_all
  have mark: "keeps I (\<lambda>_. True) (markOnce env ns n ())" for ns n
    unfolding markOnce_def env_calls by (intro keeping calling ok_status) simp_all
  have adopt: "keeps I (\<lambda>_. True) (adoptOnce env old n ())" for old n
    unfolding adoptOnce_def env_calls by (intro keeping calling ok_status) simp_all
  note retries = keeps_retry_unit[THEN keeps_bind]
  obtain t where "newTracker KindClusterSharedResource (TrackerName (ceSha env) key) (TrackerNamespace KindClusterSharedResource key) key = Inr t"
    "successorFor (TrackerName (ceSha env) key) key = t\<lparr>tkMeta := AddFinalizer TrackerFinalizer (tkMeta t)\<rparr>"
    by (simp add: newTracker_def successorFor_def kind_names)
  then have new: "okT (successorFor (TrackerName (ceSha env) key) key)" by (auto dest: ok_new ok_finalizers(1))
  have "keeps I (\<lambda>_. True) (createSuccessor env old (TrackerName (ceSha env) key) key)" for old
    unfolding createSuccessor_def env_calls State_Monad.bind_assoc
    by (intro keeping calling retries adopt) (use new in \<open>auto intro!: keeping calling retries adopt split: sum.splits\<close>)
  note creating = keeps_bind[OF this]
  show ?thesis
    unfolding promoteIfNeeded_def env_calls Let_def
    by (intro keeping calling retries fence mark creating) simp_all
qed

lemma keeps_ensureTracker: "keeps I (\<lambda>_. True) (ensureTracker env c key)"
proof -
  have join: "keeps I (\<lambda>_. True) (joinTracker env \<lparr>tkKind = k, tkName = TrackerName (ceSha env) key, tkNamespace = TrackerNamespace k key\<rparr> key)" for k
    unfolding joinTracker_def createTracker_def env_calls
    by (intro keeping calling keeps_getTracker[THEN keeps_bind] ok_finalizers(1)) (auto intro: ok_new)
  note joins = join keeps_promoteIfNeeded[THEN keeps_bind]
  show ?thesis
    unfolding ensureTracker_def env_calls Let_def by (intro keeping calling joins) simp_all
qed

lemma keeps_ensureTrackers: "keeps I (\<lambda>_. True) (ensureTrackers env c keys)"
  by (induction keys) (auto intro!: keeping keeps_ensureTracker[THEN keeps_bind] intro: keeps_bind)

lemma keeps_resolveTargets: "keeps I (\<lambda>_. True) (resolveTargets env c)"
proof -
  have "keeps I (\<lambda>_. True) (listNamespaces env c gv nss keys)" for gv nss keys
    by (induction nss arbitrary: keys) (auto intro!: keeping env_calling)
  then show ?thesis
    unfolding resolveTargets_def resolveSelector_def selectorNamespaces_def
    by (auto intro!: keeping env_calling keeps_bind[where mid = "\<lambda>_. True"])
qed

lemma keeps_syncStatus: "keeps I (\<lambda>_. True) (syncStatus env c keys trackers)"
proof -
  note read = keeps_getTracker[THEN keeps_bind]
  have "keeps I (\<lambda>_. True) (observeTargets env ref keys trackers tally)" for ref tally
  proof (induction keys arbitrary: trackers tally)
    case (Cons key keys)
    then show ?case by (cases trackers) (auto simp: env_calls intro!: keeping read)
  qed (simp add: keeping)
  note observing = keeps_bind[OF this]
  show ?thesis
    unfolding syncStatus_def by (intro keeping observing keeps_updateStatus) simp_all
qed

lemma keeps_reauthorize: "keeps I (\<lambda>_. True) (reauthorize env c)"
proof -
  have "keeps I (\<lambda>_. True) (recheck env a u c)" if "ceAuthorizer env = Some a" for a u
    unfolding recheck_def
    by (intro keeping keeps_bind[OF env_calls(5)[OF that]] keeps_updateStatus[THEN keeps_bind]) simp_all
  then show ?thesis
    unfolding reauthorize_def by (intro keeping) simp_all
qed

lemma keeps_reconcileDelete: "keeps I (\<lambda>_. True) (reconcileDelete env c)"
proof -
  note read = keeps_getTracker[THEN keeps_bind]
  have "keeps I (\<lambda>_. True) (anyRegistered env ref trs)" for ref trs
    by (induction trs) (auto simp: env_calls intro!: keeping read intro: keeps_bind)
  note asking = keeps_bind[OF this]
  show ?thesis
    unfolding reconcileDelete_def env_calls by (intro keeping calling asking) simp_all
qed

lemma keeps_ReconcileContributor: "keeps I (\<lambda>_. True) (ReconcileContributor env b ns n)"
proof -
  note status = keeps_updateStatus[THEN keeps_bind]
  have "keeps I (\<lambda>_. True) (register env c d)" for c d
    unfolding register_def setStatusError_def
    by (intro keeping status keeps_resolveTargets[THEN keeps_bind] keeps_ensureTrackers[THEN keeps_bind] keeps_syncStatus[THEN keeps_bind])
      simp_all
  then show ?thesis
    unfolding ReconcileContributor_def env_calls setInvalid_def setStatusError_def
    by (intro keeping calling status keeps_reconcileDelete keeps_reauthorize[THEN keeps_bind]) simp_all
qed

end

section \<open>The tracker reconciler\<close>

definition target_calls :: "('w \<Rightarrow> bool) \<Rightarrow> 'w KubeClient \<Rightarrow> bool" where
  "target_calls I cl \<longleftrightarrow> (\<forall>g. keeps I (\<lambda>_. True) (clGet cl g)) \<and> (\<forall>ob. keeps I (\<lambda>_. True) (clCreate cl ob)) \<and>
     (\<forall>ob. keeps I (\<lambda>_. True) (clUpdate cl ob)) \<and> (\<forall>ob m f. keeps I (\<lambda>_. True) (clApply cl ob m f)) \<and>
     (\<forall>g. keeps I (\<lambda>_. True) (clDelete cl g))"

lemma target_callsD:
  assumes "target_calls I cl"
  shows "keeps I (\<lambda>_. True) (clGet cl g)" "keeps I (\<lambda>_. True) (clCreate cl ob)" "keeps I (\<lambda>_. True) (clUpdate cl ob)"
    "keeps I (\<lambda>_. True) (clApply cl ob m f)" "keeps I (\<lambda>_. True) (clDelete cl g)"
  using assms by (simp_all add: target_calls_def)

lemma keeps_appliers:
  assumes "target_calls I cl"
  shows "keeps I (\<lambda>_. True) (applierApply sha a cl req)" and "keeps I (\<lambda>_. True) (applierRevert sha a cl rr)"
proof -
  note calls = target_callsD[OF assms] target_callsD[OF assms, THEN keeps_bind]
  have patch: "keeps I (\<lambda>_. True) (ssaPatch cl obj m pol)" for obj m pol
    unfolding ssaPatch_def Let_def by (intro keeping calls) (auto intro!: keeping calls split: ConflictPolicy.split)
  have exists: "keeps I (\<lambda>_. True) (ssaExists cl g)" for g
    unfolding ssaExists_def by (intro keeping calls) simp
  have create: "keeps I (\<lambda>_. True) (csaCreate cl req c)" for req c
    unfolding csaCreate_def by (intro keeping calls) simp_all
  have update: "keeps I (\<lambda>_. True) (csaUpdate sha cl req c live)" for req c live
    unfolding csaUpdate_def by (intro keeping calls) simp_all
  have "keeps I (\<lambda>_. True) (ssaApply cl req)"
    unfolding ssaApply_def by (intro keeping patch[THEN keeps_bind] exists[THEN keeps_bind]) simp_all
  moreover have "keeps I (\<lambda>_. True) (csaApply sha cl req)"
    unfolding csaApply_def by (intro keeping calls create update) simp_all
  ultimately show "keeps I (\<lambda>_. True) (applierApply sha a cl req)" by (simp add: applierApply_def split: Applier.split)
  have "keeps I (\<lambda>_. True) (ssaRevert cl rr)"
    unfolding ssaRevert_def by (intro keeping calls) simp_all
  moreover have "keeps I (\<lambda>_. True) (csaRevert sha cl rr)"
    unfolding csaRevert_def Let_def by (intro keeping calls) simp_all
  ultimately show "keeps I (\<lambda>_. True) (applierRevert sha a cl rr)" by (simp add: applierRevert_def split: Applier.split)
qed

locale target_store = tracker_store cl I okT sha
  for cl :: "'w KubeClient" and I :: "'w \<Rightarrow> bool" and okT :: "Tracker \<Rightarrow> bool" and sha :: "string \<Rightarrow> string" +
  fixes env :: "'w TrackerEnv"
  assumes client: "teClient env = cl" and targets: "target_calls I cl"
    and impersonated: "\<lbrakk>teNewFor env = Some newFor; newFor u = Inr cl'\<rbrakk> \<Longrightarrow> target_calls I cl'"
begin

lemma writer_calls:
  assumes "applierFor env c = Inr (a, writer)"
  shows "target_calls I writer"
proof (cases "teNewFor env")
  case None
  then show ?thesis using assms client targets by (auto simp: applierFor_def map_sum_def split: sum.splits)
next
  case (Some newFor)
  obtain u where "ImpersonationFor cl newFor c = Inr (writer, u)"
    using assms Some client by (auto simp: applierFor_def map_sum_def split: sum.splits)
  then show ?thesis
    using impersonated[OF Some] targets
    by (auto simp: ImpersonationFor_def Let_def split: option.splits if_splits sum.splits)
qed

lemma keeps_releaseAll: "keeps I (\<lambda>_. True) (releaseAll env cs target)"
proof -
  have one: "keeps I (\<lambda>_. True) (releaseContributor env c target)" for c
    unfolding releaseContributor_def by (intro keeping keeps_appliers(2) writer_calls) simp_all
  show ?thesis by (induction cs) (auto intro!: keeping one[THEN keeps_bind])
qed

lemma keeps_maybeDeleteTarget: "keeps I (\<lambda>_. True) (maybeDeleteTarget env t cs target)"
  unfolding maybeDeleteTarget_def client
  by (intro keeping target_callsD[OF targets, THEN keeps_bind]) simp_all

lemma keeps_writeStatus:
  assumes "okT t"
  shows "keeps I (\<lambda>_. True) (writeStatus cl (updStatus f t) records conflicts)"
  unfolding writeStatus_def by (rule keeps_any[OF keeps_patchStatus[OF ok_status[OF assms]]])

definition ok_flow :: "flow \<Rightarrow> bool" where
  "ok_flow r \<longleftrightarrow> (case r of Next ls \<Rightarrow> okT (lpTracker ls) | Exit _ \<Rightarrow> True)"

lemma ok_flow_simps [simp]: "ok_flow (Next ls) \<longleftrightarrow> okT (lpTracker ls)" "ok_flow (Exit x)" "lpTracker (addRecord r ls) = lpTracker ls"
  by (simp_all add: ok_flow_def addRecord_def)

lemma keeps_applyContributor:
  assumes "okT (lpTracker ls)"
  shows "keeps I ok_flow (applyContributor env target active pcs cc ls)"
proof -
  have rec: "keeps I ok_flow (recordApplied env c contribution base result ls)" for c contribution base result
    unfolding recordApplied_def Let_def recordProvenance_def client
    by (intro keeping keeps_patchStatus[THEN keeps_bind] assms) (auto intro!: ok_status assms split: option.split)
  have result: "keeps I ok_flow (applyResult env c contribution base r ls)" for c contribution base r
    unfolding applyResult_def client
    by (intro keeping rec keeps_writeStatus[THEN keeps_bind] assms) (simp_all add: assms)
  show ?thesis
    unfolding applyContributor_def Let_def
    by (intro keeping result keeps_appliers(1)[OF writer_calls, THEN keeps_bind]) (simp_all add: assms)
qed

lemma keeps_applyActive:
  assumes "okT t"
  shows "keeps I (\<lambda>_. True) (applyActive env t active target)"
proof -
  have loop: "keeps I ok_flow (applyLoop env target active pcs ccs ls)" if "okT (lpTracker ls)" for pcs ccs ls
    using that
  proof (induction ccs arbitrary: ls)
    case (Cons cc ccs)
    show ?case
      unfolding applyLoop.simps
      by (rule keeps_bind[OF keeps_applyContributor[OF Cons.prems]]) (auto intro!: keeping Cons.IH split: flow.split)
  qed (simp add: keeping)
  have verdict: "keeps I (\<lambda>_. True) (case r of Exit x \<Rightarrow> State_Monad.return x
      | Next ls \<Rightarrow> State_Monad.bind (writeStatus cl (updStatus (verdict (teNow env) ls) (lpTracker ls)) (Some (lpRecords ls)) (lpConflicts ls))
          (\<lambda>s. State_Monad.return (withStatus (res ls) s)))" if "ok_flow r" for r res
    using that by (cases r) (auto intro!: keeping keeps_writeStatus[THEN keeps_bind])
  show ?thesis
    unfolding applyActive_def client
    by (intro keeping keeps_writeStatus[THEN keeps_bind] loop[THEN keeps_bind] verdict assms) (simp_all add: assms)
qed

lemma keeps_ReconcileTracker: "keeps I (\<lambda>_. True) (ReconcileTracker env b ns n)"
proof -
  have listBoth: "keeps I (\<lambda>_. True) (listBoth env t i wrap)" for t i wrap
    unfolding listBoth_def client by (intro keeping calling) simp_all
  have list: "keeps I (\<lambda>_. True) (listContributors env t)" for t
    unfolding listContributors_def Let_def by (intro keeping listBoth[THEN keeps_bind]) simp_all
  have contributions: "keeps I (\<lambda>_. True) (reconcileContributions env t cs)" if "okT t" for t cs
    unfolding reconcileContributions_def Let_def
    by (intro keeping keeps_releaseAll[THEN keeps_bind] keeps_bind[where mid = "\<lambda>_. True"] keeps_maybeDeleteTarget keeps_applyActive that)
      simp_all
  have empty: "keeps I (\<lambda>_. True) (reconcileEmpty env t)" if "okT t" for t
    unfolding reconcileEmpty_def client
    by (intro keeping calling keeps_dropTracker keeps_writeStatus[THEN keeps_bind] ok_finalizers that) simp_all
  have delete: "keeps I (\<lambda>_. True) (reconcileDeleteTracker env t)" if "okT t" for t
    unfolding reconcileDeleteTracker_def client
    by (intro keeping calling list[THEN keeps_bind] keeps_releaseAll[THEN keeps_bind] keeps_maybeDeleteTarget[THEN keeps_bind] ok_finalizers that)
      simp_all
  show ?thesis
    unfolding ReconcileTracker_def client
    by (intro keeping calling keeps_finishPromotion[OF client] delete ok_finalizers list[THEN keeps_bind] empty contributions) simp_all
qed

end

section \<open>The memory cluster keeps the contract\<close>

text \<open>Its target is touched by no call on the operator's own kinds.\<close>

definition target_is :: "jmap option \<Rightarrow> MemCluster \<Rightarrow> bool" where
  "target_is x w \<longleftrightarrow> mwTarget w = x"

interpretation target_kept: tracker_store mem_client "target_is x" "\<lambda>_. True" sha for x sha
  by unfold_locales
    (auto simp: keeps_def target_is_def mem_client_def memStore_def memPatch_def Let_def split: option.split)

text \<open>Every tracker is named after its target, and no two trackers are one object.\<close>

definition named :: "(string \<Rightarrow> string) \<Rightarrow> Tracker \<Rightarrow> bool" where
  "named sha t \<longleftrightarrow> omName (tkMeta t) = TrackerName sha (trackerTargetKey t) \<and>
     omNamespace (tkMeta t) = TrackerNamespace (TrackerKind t) (trackerTargetKey t)"

definition trackerIdent :: "Tracker \<Rightarrow> bool \<times> string \<times> string" where
  "trackerIdent t = (tkCluster t, omNamespace (tkMeta t), omName (tkMeta t))"

definition named_trackers :: "(string \<Rightarrow> string) \<Rightarrow> MemCluster \<Rightarrow> bool" where
  "named_trackers sha w \<longleftrightarrow> distinct (map trackerIdent (mwTrackers w)) \<and> (\<forall>t \<in> set (mwTrackers w). named sha t)"

lemma trackerId_ident: "trackerId t x \<longleftrightarrow> trackerIdent x = trackerIdent t"
  by (auto simp: sameTracker_def trackerIdent_def)

lemma named_bump [simp]: "named sha (bumpTracker t) \<longleftrightarrow> named sha t" "trackerIdent (bumpTracker t) = trackerIdent t"
  by (simp_all add: named_def bumpTracker_def trackerTargetKey_def TrackerKind_def trackerIdent_def)

lemma named_status [simp]: "named sha (t\<lparr>tkStatus := st\<rparr>) \<longleftrightarrow> named sha t" "trackerIdent (t\<lparr>tkStatus := st\<rparr>) = trackerIdent t"
  by (simp_all add: named_def trackerTargetKey_def TrackerKind_def trackerIdent_def)

lemma named_meta:
  "\<lbrakk>named sha t; omName m = omName (tkMeta t); omNamespace m = omNamespace (tkMeta t)\<rbrakk> \<Longrightarrow> named sha (t\<lparr>tkMeta := m\<rparr>)"
  by (simp add: named_def trackerTargetKey_def TrackerKind_def)

lemma named_new:
  "newTracker kind (TrackerName sha key) (TrackerNamespace kind key) key = Inr t \<Longrightarrow> named sha t"
  by (cases key) (auto simp: newTracker_def Let_def named_def trackerTargetKey_def TrackerKind_def TrackerNamespace_def kind_names no_meta_def
      split: if_splits)

lemma memStore_named:
  assumes "\<And>old. \<lbrakk>trackerIdent old = trackerIdent t; named sha old\<rbrakk> \<Longrightarrow> named sha (change t old) \<and> trackerIdent (change t old) = trackerIdent t"
  shows "keeps (named_trackers sha) (okR (named sha)) (memStore change t)"
  unfolding keeps_def
proof (intro allI impI)
  fix w assume w: "named_trackers sha w"
  show "named_trackers sha (snd (run_state (memStore change t) w)) \<and> okR (named sha) (fst (run_state (memStore change t) w))"
  proof (cases "find (trackerId t) (mwTrackers w)")
    case (Some old)
    then have old: "old \<in> set (mwTrackers w)" "trackerIdent old = trackerIdent t"
      by (auto simp: find_Some_iff trackerId_ident)
    then have new: "named sha (change t old)" "trackerIdent (change t old) = trackerIdent t"
      using assms w by (auto simp: named_trackers_def)
    let ?put = "\<lambda>x. if trackerId t x then bumpTracker (change t old) else x"
    have "map trackerIdent (map ?put (mwTrackers w)) = map trackerIdent (mwTrackers w)"
      using new(2) by (simp add: trackerId_ident)
    moreover have "\<forall>x \<in> set (map ?put (mwTrackers w)). named sha x" using w new(1) by (auto simp: named_trackers_def)
    ultimately have "named_trackers sha (w\<lparr>mwTrackers := map ?put (mwTrackers w)\<rparr>)"
      using w unfolding named_trackers_def by (simp del: map_map set_map)
    with Some w new(1) show ?thesis by (simp add: memStore_def Let_def)
  qed (simp add: memStore_def w)
qed

lemma mem_create_named:
  assumes "named sha t"
  shows "keeps (named_trackers sha) (okR (named sha)) (kcCreateTracker mem_client t)"
  using assms
  by (auto simp: keeps_def mem_client_def named_trackers_def find_None_iff trackerId_ident split: option.split)

interpretation names_kept: tracker_store mem_client "named_trackers sha" "named sha" sha for sha
proof unfold_locales
  show "keeps (named_trackers sha) (okR (named sha)) (kcGetTracker mem_client b ns n)" for b ns n
    by (auto simp: keeps_def mem_client_def named_trackers_def find_Some_iff split: option.split)
  show "keeps (named_trackers sha) (okR (named sha)) (kcUpdateTracker mem_client t)" if "named sha t" for t
    using that by (auto simp: mem_client_def intro!: memStore_named)
  show "keeps (named_trackers sha) (okR (named sha)) (kcUpdateTrackerStatus mem_client t)" for t
    by (auto simp: mem_client_def intro!: memStore_named)
  show "keeps (named_trackers sha) (\<lambda>_. True) (kcDeleteTracker mem_client t)" for t
    by (auto simp: keeps_def mem_client_def named_trackers_def distinct_map_filter)
  show "keeps (named_trackers sha) (\<lambda>_. True) (kcUpdatePatch mem_client c)"
    "keeps (named_trackers sha) (\<lambda>_. True) (kcUpdatePatchStatus mem_client c)" for c
    by (auto simp: keeps_def mem_client_def memPatch_def named_trackers_def split: option.split)
qed (auto simp: mem_create_named named_new intro: named_meta, auto simp: keeps_def mem_client_def)

text \<open>
  A contributor reconciler on the memory cluster whose listings and reviews leave the cluster alone, and a tracker
  reconciler whose impersonated clients touch the target only.
\<close>

definition steady :: "MemCluster ContributorEnv \<Rightarrow> bool" where
  "steady env \<longleftrightarrow> (\<forall>I. contributor_calls I mem_client env)"

definition bounded :: "MemCluster TrackerEnv \<Rightarrow> bool" where
  "bounded env \<longleftrightarrow> teClient env = mem_client \<and>
     (\<forall>newFor u cl' sha. teNewFor env = Some newFor \<and> newFor u = Inr cl' \<longrightarrow> target_calls (named_trackers sha) cl')"

lemma on_target_named: "on_target m \<Longrightarrow> keeps (named_trackers sha) (\<lambda>_. True) m"
  by (auto simp: keeps_def on_target_def named_trackers_def)

lemma mem_target_calls: "target_calls (named_trackers sha) mem_client"
  by (simp add: target_calls_def on_target_named on_target_client)

lemma steady_store:
  assumes "steady env"
  shows "contributor_store mem_client (target_is x) (\<lambda>_. True) env"
    and "contributor_store mem_client (named_trackers (ceSha env)) (named (ceSha env)) env"
  using assms target_kept.tracker_store_axioms names_kept.tracker_store_axioms
  by (auto simp: steady_def contributor_store_def contributor_store_axioms_def)

lemma bounded_store: "bounded env \<Longrightarrow> target_store mem_client (named_trackers sha) (named sha) sha env"
  using names_kept.tracker_store_axioms mem_target_calls
  by (auto simp: bounded_def target_store_def target_store_axioms_def)

lemma mem_steady: "steady (mem_contributor_env None)"
  by (simp add: steady_def contributor_calls_def mem_contributor_env_def reader_def keeping)

lemma mem_bounded: "bounded mem_env"
  by (simp add: bounded_def mem_env_def)

interpretation mem_contributor: contributor_store mem_client "target_is x" "\<lambda>_. True" "mem_contributor_env None" for x
  by (rule steady_store[OF mem_steady])

interpretation mem_tracker: target_store mem_client "named_trackers sha" "named sha" sha mem_env for sha
  by (rule bounded_store[OF mem_bounded])

end
