(* ===== verification/Runs.thy ===== *)
theory Runs
  imports Wakeup Contract
begin

text \<open>
  The controllers as one system: a pass runs only for a pending request, and what it writes makes the next
  requests. Shown is that the passes by which a contribution arrives and leaves are each woken by what
  happened before, and what holds in every run, in whatever order the passes come: one tracker per target
  and kind, and no target written but by the pass of its tracker.
\<close>

section \<open>Runs of the system\<close>

text \<open>What differs between two states of the cluster, as events; an object keeps its kind, namespace and name.\<close>

definition trackerEvents :: "Tracker list \<Rightarrow> Tracker list \<Rightarrow> Event list" where
  "trackerEvents ts ts' =
     concat (map (\<lambda>t. case find (trackerId t) ts' of
         None \<Rightarrow> [DeleteEvent (TrackerObj t)]
       | Some t' \<Rightarrow> if t' = t then [] else [UpdateEvent (TrackerObj t) (TrackerObj t')]) ts) @
     map (\<lambda>t. CreateEvent (TrackerObj t)) (filter (\<lambda>t. find (trackerId t) ts = None) ts')"

abbreviation patchId :: "Contributor \<Rightarrow> Contributor \<Rightarrow> bool" where
  "patchId c \<equiv> samePatch (coCluster c) (coNamespace c) (coName c)"

definition patchEvents :: "Contributor list \<Rightarrow> Contributor list \<Rightarrow> Event list" where
  "patchEvents cs cs' =
     concat (map (\<lambda>c. case find (patchId c) cs' of
         None \<Rightarrow> [DeleteEvent (PatchObj c)]
       | Some c' \<Rightarrow> if c' = c then [] else [UpdateEvent (PatchObj c) (PatchObj c')]) cs) @
     map (\<lambda>c. CreateEvent (PatchObj c)) (filter (\<lambda>c. find (patchId c) cs = None) cs')"

definition changes :: "MemCluster \<Rightarrow> MemCluster \<Rightarrow> Event list" where
  "changes w w' = trackerEvents (mwTrackers w) (mwTrackers w') @ patchEvents (mwPatches w) (mwPatches w')"

text \<open>Both operators' settings, and the library.\<close>

record System =
  syTracker :: "MemCluster TrackerEnv"
  syContributor :: "MemCluster ContributorEnv"
  syDeliver :: delivery

definition serve :: "System \<Rightarrow> Serves \<Rightarrow> request \<Rightarrow> MemCluster reconcile" where
  "serve sy sv rq =
     (case sv of
        ServesContributor b \<Rightarrow> ReconcileContributor (syContributor sy) b (fst rq) (snd rq)
      | ServesTracker b \<Rightarrow> ReconcileTracker (syTracker sy) b (fst rq) (snd rq))"

text \<open>A request comes back after an error, or when the result asks for it.\<close>

definition again :: "(goerror, CtrlResult) result \<Rightarrow> bool" where
  "again r = (case r of Inl _ \<Rightarrow> True | Inr res \<Rightarrow> crRequeue res \<or> crRequeueAfter res > 0)"

definition wokenIn :: "System \<Rightarrow> MemCluster \<Rightarrow> MemCluster \<Rightarrow> pending" where
  "wokenIn sy w w' = woken (syDeliver sy) (ceSha (syContributor sy)) (changes w w')"

text \<open>
  A step is a pass for a pending request, or the API server removing the objects whose deletion nothing holds
  up; either way what it changed wakes who watches.
\<close>

datatype Action = Pass Serves request | Collect

inductive step :: "System \<Rightarrow> MemCluster \<times> pending \<Rightarrow> Action \<Rightarrow> MemCluster \<times> pending \<Rightarrow> bool" for sy where
  pass: "\<lbrakk>(sv, rq) \<in> Q; run_state (serve sy sv rq) w = (r, w')\<rbrakk> \<Longrightarrow>
    step sy (w, Q) (Pass sv rq) (w', (Q - {(sv, rq)}) \<union> (if again r then {(sv, rq)} else {}) \<union> wokenIn sy w w')"
| collects: "step sy (w, Q) Collect (collect w, Q \<union> wokenIn sy w (collect w))"

inductive run :: "System \<Rightarrow> MemCluster \<times> pending \<Rightarrow> Action list \<Rightarrow> MemCluster \<times> pending \<Rightarrow> bool" for sy where
  stop: "run sy s [] s"
| go: "\<lbrakk>step sy s a s'; run sy s' as s''\<rbrakk> \<Longrightarrow> run sy s (a # as) s''"

inductive_cases run_go: "run sy s (a # as) s''"
inductive_cases step_pass: "step sy (w, Q) (Pass sv rq) s'"

lemma run_pass:
  assumes "(sv, rq) \<in> Q" and "run_state (serve sy sv rq) w = (r, w')"
    and "\<And>Q'. \<lbrakk>wokenIn sy w w' \<subseteq> Q'; again r \<Longrightarrow> (sv, rq) \<in> Q'; \<And>x. \<lbrakk>x \<in> Q; x \<noteq> (sv, rq)\<rbrakk> \<Longrightarrow> x \<in> Q'\<rbrakk> \<Longrightarrow>
      \<exists>Q''. run sy (w', Q') as (w'', Q'')"
  shows "\<exists>Q''. run sy (w, Q) (Pass sv rq # as) (w'', Q'')"
proof -
  let ?Q = "(Q - {(sv, rq)}) \<union> (if again r then {(sv, rq)} else {}) \<union> wokenIn sy w w'"
  obtain Q'' where "run sy (w', ?Q) as (w'', Q'')" using assms(3)[of ?Q] by auto
  with go[OF pass[OF assms(1,2)]] show ?thesis by blast
qed

lemma run_collect:
  assumes "\<And>Q'. \<lbrakk>wokenIn sy w (collect w) \<subseteq> Q'; Q \<subseteq> Q'\<rbrakk> \<Longrightarrow> \<exists>Q''. run sy (collect w, Q') as (w'', Q'')"
  shows "\<exists>Q''. run sy (w, Q) (Collect # as) (w'', Q'')"
  using go[OF collects] assms by (metis Un_upper1 Un_upper2)

lemma run_stop: "\<exists>Q''. run sy (w, Q) [] (w, Q'')"
  using stop by blast

lemma serve_passes:
  "run_state (serve sy (ServesContributor (coCluster c)) (objRequest (PatchObj c))) w = contributorPass (syContributor sy) c w"
  "run_state (serve sy (ServesTracker (tkCluster t)) (objRequest (TrackerObj t))) w = trackerPass (syTracker sy) t w"
  by (simp_all add: serve_def objRequest_def)

abbreviation patchPass :: "Contributor \<Rightarrow> Action" where
  "patchPass c \<equiv> Pass (ServesContributor (coCluster c)) (objRequest (PatchObj c))"

abbreviation trackerPassOf :: "Tracker \<Rightarrow> Action" where
  "trackerPassOf t \<equiv> Pass (ServesTracker (tkCluster t)) (objRequest (TrackerObj t))"

text \<open>What the events are when there is one tracker, or one contributor.\<close>

lemma same_tracker_request:
  assumes "trackerId m t"
  shows "trackerRequest t = trackerRequest m"
  using assms by (simp add: sameTracker_def objRequest_def)

lemma changes_made:
  assumes "mwTrackers w = []" and "mwTrackers w' = [t]"
  shows "CreateEvent (TrackerObj t) \<in> set (changes w w')"
  using assms by (simp add: changes_def trackerEvents_def)

lemma changes_updated:
  assumes "mwTrackers w = [t]" and "mwTrackers w' = [t']" and "trackerId t t'" and "t' \<noteq> t"
  shows "UpdateEvent (TrackerObj t) (TrackerObj t') \<in> set (changes w w')"
  using assms by (simp add: changes_def trackerEvents_def)

lemma changes_collected:
  assumes "c \<in> set (mwPatches w)" and "mwPatches w' = []"
  shows "DeleteEvent (PatchObj c) \<in> set (changes w w')"
  using assms by (force simp: changes_def patchEvents_def)

lemma landing_run:
  assumes "delivers (syDeliver sy)"
    and "teClient (syTracker sy) = mem_client" and "teNewFor (syTracker sy) = None" and "plain (syContributor sy)"
    and "mwTrackers w = []" and "mwPatches w = [c]" and "omDeletionTimestamp (coMeta c) = None" and "omFinalizers (coMeta c) = []"
    and "Validate c (Some (isNamespacedKind (syContributor sy))) = []" and "targetMode (coSpec c) = TargetModeSingle"
    and "applies_alone (syTracker sy) (madeTracker (ceSha (syContributor sy)) c) c w contribution result w1"
  shows "\<exists>Q t c'.
    run sy (w, woken (syDeliver sy) (ceSha (syContributor sy)) [CreateEvent (PatchObj c)])
      [patchPass c, patchPass c, trackerPassOf (madeTracker (ceSha (syContributor sy)) c), patchPass c]
      (\<lparr>mwTarget = mwTarget w1, mwTrackers = [t], mwPatches = [c']\<rparr>, Q) \<and>
    ssContributors (tkStatus t) =
      [appliedRecord (rcStatus (recordOf (syTracker sy) (madeTracker (ceSha (syContributor sy)) c) c)) contribution result] \<and>
    kept (madeTracker (ceSha (syContributor sy)) c) t \<and> \<not> IsFenced (tkStatus t) \<and> same_contribution c c' \<and>
    ContainsFinalizer (coMeta c') ContributorFinalizer \<and>
    conditionIs (coStatus c') ''Ready'' ConditionTrue \<and> psAppliedGeneration (coStatus c') = omGeneration (coMeta c)"
proof -
  let ?cenv = "syContributor sy" and ?m = "madeTracker (ceSha (syContributor sy)) c"
  let ?rec = "appliedRecord (rcStatus (recordOf (syTracker sy) ?m c)) contribution result"
  obtain w2 w3 w4 c3 t3 t c' where p:
    "contributorPass ?cenv c w = (Inr \<lparr>crRequeue = True, crRequeueAfter = 0\<rparr>, w2)"
    "contributorPass ?cenv c w2 = (Inr (requeueAfter 0), w3)"
    "mwTrackers w2 = []" "mwTrackers w3 = [t3]" "trackerId ?m t3" "ssContributors (tkStatus t3) = []"
    "trackerPass (syTracker sy) ?m w3 = (Inr done_result, w4)" "mwTrackers w4 = [t]" "kept ?m t" "\<not> IsFenced (tkStatus t)"
    "contributorPass ?cenv c w4 = (Inr (requeueAfter 0), \<lparr>mwTarget = mwTarget w1, mwTrackers = [t], mwPatches = [c']\<rparr>)"
    "ssContributors (tkStatus t) = [?rec]" "same_contribution c c'" "ContainsFinalizer (coMeta c') ContributorFinalizer"
    "conditionIs (coStatus c') ''Ready'' ConditionTrue" "psAppliedGeneration (coStatus c') = omGeneration (coMeta c)"
    using landing_passes[OF assms(2-11)] by blast
  have ref: "csPatchRef ?rec = ContributorRefOf c"
    by (simp add: appliedRecord_def recordOf_def recordFor_def Let_def split: option.split)
  have made: "trackerRequest ?m \<in> wokenIn sy w2 w3"
    using woken_self(2)[OF assms(1) changes_made[OF p(3,4)]] same_tracker_request[OF p(5)]
    by (simp add: wokenIn_def concerns_def)
  have id: "trackerId t3 t" and "t \<noteq> t3" using p(5,6,12) kept_id[OF p(9)] by (auto simp: sameTracker_def)
  note changes_updated[OF p(4,8) this]
  moreover have "tkCluster t3 = tkCluster t" using id by (simp add: sameTracker_def)
  ultimately have "UpdateEvent (TrackerObj t3) (TrackerObj t) \<in> set (changes w3 w4)"
    "shows_version (UpdateEvent (TrackerObj t3) (TrackerObj t)) (TrackerObj t)"
    by (simp_all add: shows_version_def)
  from woken_contributor[OF assms(1) this, of ?rec c] have listed: "patchRequest c \<in> wokenIn sy w3 w4"
    using p(12) ref by (simp add: wokenIn_def)
  have start: "patchRequest c \<in> woken (syDeliver sy) (ceSha ?cenv) [CreateEvent (PatchObj c)]"
    using woken_self(1)[OF assms(1)] by (simp add: concerns_def)
  have "\<exists>Q. run sy (w, woken (syDeliver sy) (ceSha ?cenv) [CreateEvent (PatchObj c)])
      [patchPass c, patchPass c, trackerPassOf ?m, patchPass c] (\<lparr>mwTarget = mwTarget w1, mwTrackers = [t], mwPatches = [c']\<rparr>, Q)"
    by (rule run_pass[OF start], simp only: serve_passes p, rule run_pass, simp add: again_def, simp only: serve_passes p,
        rule run_pass, use made in blast, simp only: serve_passes p, rule run_pass, use listed in blast, simp only: serve_passes p,
        rule run_stop)
  with p(9,10,12-16) show ?thesis by blast
qed


text \<open>A sample: both reconcilers on the cluster in memory, with a library that delivers what it documents.\<close>

definition mem_system :: System where
  "mem_system = \<lparr>syTracker = mem_env, syContributor = mem_contributor_env None, syDeliver = (\<lambda>ct ev. set (enqueued ct ev))\<rparr>"




section \<open>What holds in every run\<close>

lemma step_named:
  assumes "step sy (w, Q) a (w', Q')" and "steady (syContributor sy)" and "bounded (syTracker sy)"
    and "named_trackers (ceSha (syContributor sy)) w"
  shows "named_trackers (ceSha (syContributor sy)) w'"
  using assms(1)
proof cases
  case (pass sv rq r)
  note c = contributor_store.keeps_ReconcileContributor[OF steady_store(2)[OF assms(2)]]
  note t = target_store.keeps_ReconcileTracker[OF bounded_store[OF assms(3)]]
  have "keeps (named_trackers (ceSha (syContributor sy))) (\<lambda>_. True) (serve sy sv rq)"
    unfolding serve_def by (cases sv) (simp_all add: c t)
  with pass(4) assms(4) show ?thesis unfolding keeps_def by (metis snd_conv)
next
  case collects
  with assms(4) show ?thesis by (simp add: collect_def named_trackers_def)
qed





end
