(* ===== verification/Steady.thy ===== *)
theory Steady
  imports Runs ClientSideLaws PathNotation
begin

text \<open>
  After a contribution has landed: every later pass, in whatever order the passes come, applies it again
  without a write, keeps the tracker's record of it, and reports Ready. So the operator comes to rest, and a
  field it wrote stays written.
\<close>

section \<open>Applying again\<close>

lemma withdraw_none:
  assumes "PathString ` set previous \<subseteq> set claimed"
  shows "withdrawPaths claimed previous st = st"
  using assms by (induction previous arbitrary: st) (auto simp: withdrawPaths_def withdrawPath_def)

lemma desired_unwithdrawn:
  assumes "PathString ` set (rqPreviousPaths req) \<subseteq> set (map PathString (cnPaths c))"
  shows "desiredState req c live =
    (case runPaths (writePath (cnObject c)) (cnPaths c) (JObj live) of
       Inl e \<Rightarrow> Inl e | Inr d \<Rightarrow> Inr (d, base_priors req c live))"
  using withdraw_none[OF assms] by (simp add: desiredState_def base_priors_def Let_def split: sum.split)

text \<open>What a contribution and the object it goes into have to be for that.\<close>

definition fits_target :: "Contribution \<Rightarrow> jmap \<Rightarrow> bool" where
  "fits_target c live \<longleftrightarrow> wf_json (JObj live) \<and> apart (cnPaths c) \<and> list_all (claim_good (cnObject c)) (cnPaths c) \<and>
     list_all printable (cnPaths c)"

definition unwithdrawn :: "Request \<Rightarrow> Contribution \<Rightarrow> bool" where
  "unwithdrawn req c \<longleftrightarrow> PathString ` set (rqPreviousPaths req) \<subseteq> set (map PathString (cnPaths c))"

text \<open>The object an update leaves: the one it computes, unless what is live hashes to the same.\<close>

definition corrected :: "(string \<Rightarrow> string) \<Rightarrow> Contribution \<Rightarrow> jmap \<Rightarrow> jmap option" where
  "corrected sha c live =
     (case runPaths (writePath (cnObject c)) (cnPaths c) (JObj live) of
        Inl e \<Rightarrow> None
      | Inr d \<Rightarrow> Some (if equalContent sha live (root_map d) then live else root_map d))"

lemma update_corrects:
  assumes "unwithdrawn req c" and "corrected sha c live = Some x" and "mwTarget w = Some live"
  shows "\<exists>changed. run_state (csaUpdate sha mem_client req c live) w =
    (Inr (csaResult False changed x c (base_priors req c live)), w\<lparr>mwTarget := Some x\<rparr>)"
proof -
  obtain d where "runPaths (writePath (cnObject c)) (cnPaths c) (JObj live) = Inr d"
    "x = (if equalContent sha live (root_map d) then live else root_map d)"
    using assms(2) by (auto simp: corrected_def split: sum.splits)
  moreover have "desiredState req c live = Inr (d, base_priors req c live)" if "runPaths (writePath (cnObject c)) (cnPaths c) (JObj live) = Inr d" for d
    using assms(1) desired_unwithdrawn[of req c live] that by (simp add: unwithdrawn_def)
  ultimately show ?thesis using assms(3) by (auto simp: csaUpdate_def mem_client_def)
qed

lemma update_fails:
  assumes "unwithdrawn req c" and "corrected sha c live = None"
  shows "\<exists>e. run_state (csaUpdate sha mem_client req c live) w = (Inl e, w)"
  using assms desired_unwithdrawn[of req c live] by (auto simp: unwithdrawn_def corrected_def csaUpdate_def split: sum.splits)

lemma corrected_quiet:
  assumes "fits_target c live" and "corrected sha c live = Some x" and "rqPreviousPaths req = cnPaths c" and "rqPriorValuesCaptured req"
  shows "run_state (csaUpdate sha mem_client req c x) w = (Inr (csaResult False False x c (rqPriorValues req)), w)"
proof -
  obtain d where d: "runPaths (writePath (cnObject c)) (cnPaths c) (JObj live) = Inr d"
    "x = (if equalContent sha live (root_map d) then live else root_map d)"
    using assms(2) by (auto simp: corrected_def split: sum.splits)
  let ?first = "req\<lparr>rqPreviousPaths := [], rqPriorValues := []\<rparr>"
  show ?thesis
  proof (cases "equalContent sha live (root_map d)")
    case True
    then show ?thesis
      using d desired_unwithdrawn[of req c live] assms(3,4) by (simp add: csaUpdate_def base_priors_def)
  next
    case False
    have fits: "fits_live ?first c live" using assms(1) by (simp add: fits_target_def fits_live_def withdrawn_def stale_def akeys_ok_def)
    have first: "desiredState ?first c live = Inr (d, base_priors ?first c live)"
      using d(1) desired_unwithdrawn[of ?first c live] by simp
    have "\<forall>p \<in> set (cnPaths c). p \<noteq> []" using assms(1) by (auto simp: fits_target_def list_all_iff printable_def)
    from csa_reapply_quiet[OF fits first this assms(3)] False d(2) show ?thesis by simp
  qed
qed

text \<open>What it reads at the claims and beside them, when it was written.\<close>

lemma corrected_reads:
  assumes "fits_target c live" and "corrected sha c live = Some x"
  shows "x = live \<or>
    (\<forall>p \<in> set (cnPaths c). Get (JObj x) p = Get (JObj (cnObject c)) p) \<and>
    (\<forall>q. list_all addr_seg q \<longrightarrow> (\<forall>p \<in> set (cnPaths c). disjoint p q) \<longrightarrow> Get (JObj x) q = Get (JObj live) q)"
proof -
  obtain d where d: "runPaths (writePath (cnObject c)) (cnPaths c) (JObj live) = Inr d" "x = live \<or> x = root_map d"
    using assms(2) by (auto simp: corrected_def split: sum.splits if_splits)
  let ?first = "(undefined :: Request)\<lparr>rqPreviousPaths := [], rqPriorValues := []\<rparr>"
  have "withdrawn ?first c = []" by (simp add: withdrawn_def stale_def)
  moreover from this have "fits_live ?first c live" using assms(1) by (simp add: fits_target_def fits_live_def akeys_ok_def)
  moreover have "desiredState ?first c live = Inr (d, base_priors ?first c live)"
    using d(1) desired_unwithdrawn[of ?first c live] by simp
  ultimately have "map_ok d" "\<forall>p \<in> set (cnPaths c). Get d p = Get (JObj (cnObject c)) p"
    "\<forall>q. list_all addr_seg q \<longrightarrow> (\<forall>p \<in> set (cnPaths c). disjoint p q) \<longrightarrow> Get d q = Get (JObj live) q"
    using update_confined[of ?first c live d "base_priors ?first c live"] by auto
  moreover have "JObj (root_map d) = d" using \<open>map_ok d\<close> by (auto simp: map_ok_iff root_map_def)
  ultimately show ?thesis using d(2) by auto
qed

section \<open>The record of it\<close>

lemma viaJson_idem:
  "viaJson (viaJson v) = viaJson v" "viaElems (viaElems l) = viaElems l" "viaMembers (viaMembers m) = viaMembers m"
  by (induction v and l and m rule: viaJson_viaElems_viaMembers.induct) (simp_all add: as_float_def json_float_def Let_def)

lemma priors_stored:
  "\<exists>ps. decodePriorValues (encodePriorValues priors) = Inr ps \<and> encodePriorValues ps = encodePriorValues priors"
proof -
  have "viaMembers priors = [] \<longleftrightarrow> priors = []" by (cases priors) auto
  then show ?thesis by (auto simp: encodePriorValues_def decodePriorValues_def viaJson_idem)
qed

lemma paths_stored: "list_all printable ps \<Longrightarrow> ParsePaths (PathStrings ps) = Inr ps"
  by (induction ps) (simp_all add: PathStrings_def Parse_PathString_aux)

text \<open>A record is carried over by the next pass as it is.\<close>

lemma recordFor_again:
  assumes "FindContributor st (ContributorRefOf c) = Some (appliedRecord (recordFor sha c st0) contribution result)"
  shows "recordFor sha c st = appliedRecord (recordFor sha c st0) contribution result"
  using assms
  by (auto simp: recordFor_def appliedRecord_def Let_def split: option.splits)

section \<open>The settled state\<close>

text \<open>
  The contribution on record is what the contributor renders to, and its paths and priors read back; applying it again
  gives the same record.
\<close>

definition on_record ::
  "MemCluster TrackerEnv \<Rightarrow> Tracker \<Rightarrow> Contributor \<Rightarrow> Contribution \<Rightarrow> jmap option \<Rightarrow> jmap \<Rightarrow> ContributorStatus \<Rightarrow> bool" where
  "on_record env m c contribution base priors entry \<longleftrightarrow>
     Render (teSha env) (teJsonpatch env) (rsPatch (coSpec c)) (renderTarget m) = Inr contribution \<and>
     For (asMode (rsApply (coSpec c))) = Inr ClientSideApplier \<and> baseFor c = Inr base \<and>
     csPatchRef entry = ContributorRefOf c \<and> csState entry = ContributorStateApplied \<and> csPriorValuesCaptured entry \<and>
     (\<forall>st. FindContributor st (ContributorRefOf c) = Some entry \<longrightarrow> recordFor (teSha env) c st = entry) \<and>
     ParsePaths (csOwnedPaths entry) = Inr (cnPaths contribution) \<and> decodePriorValues (csPriorValues entry) = Inr priors \<and>
     (\<forall>x changed. appliedRecord entry contribution (csaResult False changed x contribution priors) = entry)"

definition requestOf :: "Tracker \<Rightarrow> Contributor \<Rightarrow> Contribution \<Rightarrow> jmap option \<Rightarrow> jmap \<Rightarrow> ContributorStatus \<Rightarrow> Request" where
  "requestOf m c contribution base priors entry =
     applyRequest \<lparr>rcObj = c, rcStatus = entry\<rparr> contribution (renderTarget m) (cnPaths contribution) priors base"

lemma requestOf_fields:
  "rqPreviousPaths (requestOf m c contribution base priors entry) = cnPaths contribution"
  "rqPriorValues (requestOf m c contribution base priors entry) = priors"
  "rqPriorValuesCaptured (requestOf m c contribution base priors entry) = csPriorValuesCaptured entry"
  "rqContribution (requestOf m c contribution base priors entry) = Some contribution"
  by (simp_all add: requestOf_def applyRequest_def Let_def)

text \<open>It is quiet on an object where applying it writes nothing.\<close>

definition quiet :: "MemCluster TrackerEnv \<Rightarrow> Tracker \<Rightarrow> Contributor \<Rightarrow> Contribution \<Rightarrow> jmap \<Rightarrow> ContributorStatus \<Rightarrow> bool" where
  "quiet env m c contribution x entry \<longleftrightarrow> (\<exists>base priors. on_record env m c contribution base priors entry \<and>
     (\<forall>w. run_state (csaUpdate (teSha env) mem_client (requestOf m c contribution base priors entry) contribution x) w =
        (Inr (csaResult False False x contribution priors), w)))"

text \<open>The cluster where it has landed, and nothing else happens.\<close>

definition settled :: "System \<Rightarrow> Contributor \<Rightarrow> jmap \<Rightarrow> ContributorStatus \<Rightarrow> MemCluster \<Rightarrow> bool" where
  "settled sy c x entry w \<longleftrightarrow> (\<exists>t st. w = \<lparr>mwTarget = Some x, mwTrackers = [t], mwPatches = [c\<lparr>coStatus := st\<rparr>]\<rparr> \<and>
     kept (madeTracker (ceSha (syContributor sy)) c) t \<and> \<not> IsFenced (tkStatus t) \<and> ssContributors (tkStatus t) = [entry] \<and>
     conditionIs st ''Ready'' ConditionTrue \<and> psAppliedGeneration st = omGeneration (coMeta c))"

text \<open>The contributor it is about: valid, to one target, with its finalizer, not being deleted.\<close>

definition staying :: "System \<Rightarrow> Contributor \<Rightarrow> bool" where
  "staying sy c \<longleftrightarrow> teClient (syTracker sy) = mem_client \<and> teNewFor (syTracker sy) = None \<and> plain (syContributor sy) \<and>
     omDeletionTimestamp (coMeta c) = None \<and> Validate c (Some (isNamespacedKind (syContributor sy))) = [] \<and>
     ContainsFinalizer (coMeta c) ContributorFinalizer \<and> targetMode (coSpec c) = TargetModeSingle"

lemma with_status:
  "same_contribution c (c\<lparr>coStatus := st\<rparr>)" "recordFor sha (c\<lparr>coStatus := st\<rparr>) s = recordFor sha c s"
  "baseFor (c\<lparr>coStatus := st\<rparr>) = baseFor c"
  by (simp add: same_contribution_def exI[of _ "omFinalizers (coMeta c)"])
    (simp_all add: recordFor_def ContributorRefOf_def ContributorKind_def baseFor_def Let_def)

text \<open>A pass of the tracker applies the contribution on record, and keeps the record, whatever is in the target.\<close>

lemma pass_on_record:
  assumes "staying sy c" and "on_record (syTracker sy) (madeTracker (ceSha (syContributor sy)) c) c contribution base priors entry"
    and "settled sy c live entry w" and "mwTrackers w = [t]"
    and "run_state (csaUpdate (teSha (syTracker sy)) mem_client
        (requestOf (madeTracker (ceSha (syContributor sy)) c) c contribution base priors entry) contribution live) w =
      (Inr (csaResult False changed x contribution priors), w\<lparr>mwTarget := Some x\<rparr>)"
  shows "\<exists>w'. trackerPass (syTracker sy) t w = (Inr done_result, w') \<and> settled sy c x entry w'"
proof -
  let ?env = "syTracker sy" and ?m = "madeTracker (ceSha (syContributor sy)) c"
  note st = assms(1)[unfolded staying_def]
  obtain st where w: "w = \<lparr>mwTarget = Some live, mwTrackers = [t], mwPatches = [c\<lparr>coStatus := st\<rparr>]\<rparr>" "kept ?m t"
    "\<not> IsFenced (tkStatus t)" "ssContributors (tkStatus t) = [entry]" "conditionIs st ''Ready'' ConditionTrue"
    "psAppliedGeneration st = omGeneration (coMeta c)"
    using assms(3,4) unfolding settled_def by auto
  let ?c = "c\<lparr>coStatus := st\<rparr>"
  note q = assms(2)[unfolded on_record_def]
  have spec: "renderTarget t = renderTarget ?m" "trackerTargetKey t = TargetKeyFor c"
    using w(2) madeTracker_fields(4)[of "ceSha (syContributor sy)" c] by (simp_all add: kept_def renderTarget_def trackerTargetKey_def)
  have "FindContributor (tkStatus t) (ContributorRefOf c) = Some entry"
    using q w(4) by (simp add: FindContributor_def)
  then have rec: "rcStatus (recordOf ?env t ?c) = entry" using q by (simp add: recordOf_def with_status)
  have req: "applyRequest (recordOf ?env t ?c) contribution (renderTarget t) (cnPaths contribution) priors base =
      requestOf ?m c contribution base priors entry"
    using rec by (simp add: requestOf_def applyRequest_def spec(1)) (simp add: recordOf_def)
  have get: "run_state (clGet mem_client g) w = (Inr live, w)" for g using w(1) by (simp add: mem_client_def)
  have "run_state (applierApply (teSha ?env) ClientSideApplier mem_client
      (applyRequest (recordOf ?env t ?c) contribution (renderTarget t) (cnPaths contribution) priors base)) w =
      (Inr (csaResult False changed x contribution priors), w\<lparr>mwTarget := Some x\<rparr>)"
    unfolding req using assms(5) get by (simp add: applierApply_def csaApply_def requestOf_fields)
  moreover have "working t"
    using w(2,3) kept_working[OF w(2)] by (simp add: working_def IsFenced_def no_status_def)
  moreover have "indexed t ?c"
    by (rule madeTracker_indexed[where lookup = "Some (isNamespacedKind (syContributor sy))" and sha = "ceSha (syContributor sy)"])
      (use st spec(2) w(2) same_contribution_facts[OF with_status(1)] in \<open>auto simp: kept_def\<close>)
  ultimately obtain t' where "trackerPass ?env t w = (Inr done_result, w\<lparr>mwTarget := Some x, mwTrackers := [t']\<rparr>)"
    "kept t t'" "\<not> IsFenced (tkStatus t')" "ssContributors (tkStatus t') = [entry]"
    using tracker_applies[of ?env w t ?c "cnPaths contribution" priors contribution ClientSideApplier base
        "csaResult False changed x contribution priors" "w\<lparr>mwTarget := Some x\<rparr>"]
      st w(1) q rec spec(1) with_status(3) by (auto simp: csaResult_def)
  with w kept_trans[OF w(2)] show ?thesis unfolding settled_def by auto
qed

lemma settled_tracker:
  assumes "staying sy c" and "quiet (syTracker sy) (madeTracker (ceSha (syContributor sy)) c) c contribution x entry"
    and "settled sy c x entry w" and "mwTrackers w = [t]"
  shows "\<exists>w'. trackerPass (syTracker sy) t w = (Inr done_result, w') \<and> settled sy c x entry w'"
proof -
  have "w\<lparr>mwTarget := Some x\<rparr> = w" using assms(3) by (auto simp: settled_def)
  with assms(2) show ?thesis using pass_on_record[OF assms(1) _ assms(3,4)] unfolding quiet_def by metis
qed

lemma settled_contributor:
  assumes "staying sy c" and "csPatchRef entry = ContributorRefOf c" and "csState entry = ContributorStateApplied"
    and "settled sy c x entry w"
  shows "\<exists>w'. contributorPass (syContributor sy) c w = (Inr (requeueAfter 0), w') \<and> settled sy c x entry w'"
proof -
  let ?env = "syContributor sy"
  note st = assms(1)[unfolded staying_def]
  obtain t st where w: "w = \<lparr>mwTarget = Some x, mwTrackers = [t], mwPatches = [c\<lparr>coStatus := st\<rparr>]\<rparr>"
    "kept (madeTracker (ceSha ?env) c) t" "\<not> IsFenced (tkStatus t)" "ssContributors (tkStatus t) = [entry]"
    using assms(4) unfolding settled_def by auto
  let ?c = "c\<lparr>coStatus := st\<rparr>"
  note same = same_contribution_facts[OF with_status(1)[of c st]]
  have "contributorPass ?env ?c w = (Inr (requeueAfter 0), w\<lparr>mwTrackers := [t], mwPatches := [?c\<lparr>coStatus := reported ?env t ?c\<rparr>]\<rparr>)"
    by (rule contributor_registers) (use st w(1,3) kept_id[OF w(2)] same in simp_all)
  moreover have "conditionIs (reported ?env t ?c) ''Ready'' ConditionTrue"
    "psAppliedGeneration (reported ?env t ?c) = omGeneration (coMeta c)"
    using reported_ready[OF w(4), of ?c ?env] assms(2,3) same(5) by simp_all
  ultimately show ?thesis using w unfolding settled_def by auto
qed

lemma settled_step:
  assumes "step sy (w, Q) a (w', Q')" and "staying sy c"
    and "quiet (syTracker sy) (madeTracker (ceSha (syContributor sy)) c) c contribution x entry" and "settled sy c x entry w"
  shows "settled sy c x entry w'"
proof -
  note st = assms(2)[unfolded staying_def plain_def]
  obtain t s where w: "w = \<lparr>mwTarget = Some x, mwTrackers = [t], mwPatches = [c\<lparr>coStatus := s\<rparr>]\<rparr>"
    using assms(4) unfolding settled_def by blast
  have entry: "csPatchRef entry = ContributorRefOf c" "csState entry = ContributorStateApplied"
    using assms(3) unfolding quiet_def on_record_def by blast+
  from assms(1) show ?thesis
  proof cases
    case collects
    have "collect w = w" using st w by (simp add: collect_def)
    with collects assms(4) show ?thesis by simp
  next
    case (pass sv rq r)
    show ?thesis
    proof (cases sv)
      case (ServesTracker b)
      show ?thesis
      proof (cases "sameTracker b (fst rq) (snd rq) t")
        case True
        then have "serve sy sv rq = ReconcileTracker (syTracker sy) (tkCluster t) (omNamespace (tkMeta t)) (omName (tkMeta t))"
          by (simp add: serve_def ServesTracker sameTracker_def)
        with settled_tracker[OF assms(2-4), of t] pass(4) w show ?thesis by auto
      next
        case False
        then have "run_state (serve sy sv rq) w = (Inr done_result, w)"
          using st w by (simp add: serve_def ServesTracker ReconcileTracker_def mem_client_def orDone_def IgnoreNotFound_def)
        with pass(4) assms(4) show ?thesis by simp
      qed
    next
      case (ServesContributor b)
      show ?thesis
      proof (cases "samePatch b (fst rq) (snd rq) c")
        case True
        then have "serve sy sv rq = ReconcileContributor (syContributor sy) (coCluster c) (coNamespace c) (coName c)"
          by (simp add: serve_def ServesContributor samePatch_def)
        with settled_contributor[OF assms(2) entry assms(4)] pass(4) show ?thesis by auto
      next
        case False
        then have "run_state (kcGetPatch mem_client b (fst rq) (snd rq)) w = (Inl (NewNotFound ''patches'' (snd rq)), w)"
          using w by (simp add: mem_client_def samePatch_def)
        then have "run_state (serve sy sv rq) w = (Inr done_result, w)"
          using st by (simp add: serve_def ServesContributor ReconcileContributor_def IgnoreNotFound_def)
        with pass(4) assms(4) show ?thesis by simp
      qed
    qed
  qed
qed

lemma settled_run:
  assumes "run sy (w, Q) as (w', Q')" and "staying sy c"
    and "quiet (syTracker sy) (madeTracker (ceSha (syContributor sy)) c) c contribution x entry" and "settled sy c x entry w"
  shows "settled sy c x entry w'"
  using assms(1,4)
proof (induction "(w, Q)" as "(w', Q')" arbitrary: w Q rule: run.induct)
  case (go a s' as)
  then show ?case using settled_step[OF _ assms(2,3)] by (metis surj_pair)
qed simp

text \<open>The same contribution is quiet whatever finalizers and status it has.\<close>

lemma quiet_same:
  assumes "quiet env m c contribution x entry" and "same_contribution c c'"
  shows "quiet env m c' contribution x entry"
proof -
  note same = same_contribution_facts[OF assms(2)]
  have spec: "coSpec c' = coSpec c" using assms(2) by (simp add: same_contribution_def)
  have rec: "recordFor (teSha env) c' st = recordFor (teSha env) c st" for st
    using same(6)[of env "m\<lparr>tkStatus := st\<rparr>"] by (simp add: recordOf_def)
  have req: "requestOf m c' contribution base priors entry = requestOf m c contribution base priors entry" for base priors
    by (simp add: requestOf_def applyRequest_def spec)
  have base: "baseFor c' = baseFor c" by (simp add: baseFor_def spec)
  show ?thesis using assms(1) unfolding quiet_def on_record_def spec rec same(5) base req .
qed

section \<open>Landing settles\<close>

lemma landing_quiet:
  assumes "applies_alone env m c w contribution result w1" and "asMode (rsApply (coSpec c)) = ApplyModeClientSideApply"
    and "mwTarget w = Some live" and "fits_target contribution live"
  shows "\<exists>x. mwTarget w1 = Some x \<and> quiet env m c contribution x (appliedRecord (rcStatus (recordOf env m c)) contribution result)"
    and "csOwnedPaths (appliedRecord (rcStatus (recordOf env m c)) contribution result) = PathStrings (cnPaths contribution)"
proof -
  have mode: "For (asMode (rsApply (coSpec c))) = Inr ClientSideApplier" using assms(2) by (simp add: For_def)
  obtain base where ap: "Render (teSha env) (teJsonpatch env) (rsPatch (coSpec c)) (renderTarget m) = Inr contribution" "baseFor c = Inr base"
    "run_state (applierApply (teSha env) ClientSideApplier mem_client (applyRequest (recordOf env m c) contribution (renderTarget m) [] [] base)) w =
      (Inr result, w1)"
    using assms(1) mode by (auto simp: applies_alone_def split: sum.splits)
  let ?req = "applyRequest (recordOf env m c) contribution (renderTarget m) [] [] base"
  have get: "run_state (clGet mem_client g) w = (Inr live, w)" for g using assms(3) by (simp add: mem_client_def)
  have first: "rqContribution ?req = Some contribution" "unwithdrawn ?req contribution"
    by (simp_all add: applyRequest_def unwithdrawn_def Let_def)
  have run: "run_state (csaUpdate (teSha env) mem_client ?req contribution live) w = (Inr result, w1)"
    using ap(3) get first(1) by (simp add: applierApply_def csaApply_def)
  then obtain x where c: "corrected (teSha env) contribution live = Some x"
    using update_fails[OF first(2), of "teSha env" live w] by (cases "corrected (teSha env) contribution live") auto
  then obtain changed priors where x: "result = csaResult False changed x contribution priors" "mwTarget w1 = Some x"
    using update_corrects[OF first(2) c assms(3)] run by auto
  let ?entry = "appliedRecord (rcStatus (recordOf env m c)) contribution result"
  obtain ps where ps: "decodePriorValues (encodePriorValues priors) = Inr ps" "encodePriorValues ps = encodePriorValues priors"
    using priors_stored by blast
  have entry: "csOwnedPaths ?entry = PathStrings (cnPaths contribution)" "csPriorValues ?entry = encodePriorValues priors"
    "csPriorValuesCaptured ?entry" "csState ?entry = ContributorStateApplied"
    "appliedRecord ?entry contribution (csaResult False ch y contribution ps) = ?entry" for ch y
    by (simp_all add: x(1) appliedRecord_def csaResult_def Let_def ps(2))
  have ref: "csPatchRef ?entry = ContributorRefOf c"
    by (simp add: appliedRecord_def recordOf_def recordFor_def Let_def split: option.split)
  have again: "recordFor (teSha env) c st = ?entry" if "FindContributor st (ContributorRefOf c) = Some ?entry" for st
    using recordFor_again[of st c "teSha env" "tkStatus m" contribution result] that by (simp add: recordOf_def)
  have parsed: "ParsePaths (csOwnedPaths ?entry) = Inr (cnPaths contribution)"
    using assms(4) unfolding entry(1) by (intro paths_stored) (simp add: fits_target_def)
  have onrec: "on_record env m c contribution base ps ?entry"
    unfolding on_record_def using ap(1,2) mode ref entry(2-5) ps(1) again parsed by simp
  moreover have "run_state (csaUpdate (teSha env) mem_client (requestOf m c contribution base ps ?entry) contribution x) w' =
      (Inr (csaResult False False x contribution ps), w')" for w'
    using corrected_quiet[OF assms(4) c, of "requestOf m c contribution base ps ?entry" w'] entry(3) by (simp add: requestOf_fields)
  ultimately show "\<exists>x. mwTarget w1 = Some x \<and> quiet env m c contribution x ?entry" unfolding quiet_def using x(2) by blast
  show "csOwnedPaths ?entry = PathStrings (cnPaths contribution)" by (rule entry(1))
qed

lemma landing_settles:
  assumes "delivers (syDeliver sy)"
    and "teClient (syTracker sy) = mem_client" and "teNewFor (syTracker sy) = None" and "plain (syContributor sy)"
    and "mwTrackers w = []" and "mwPatches w = [c]" and "omDeletionTimestamp (coMeta c) = None" and "omFinalizers (coMeta c) = []"
    and "Validate c (Some (isNamespacedKind (syContributor sy))) = []" and "targetMode (coSpec c) = TargetModeSingle"
    and "applies_alone (syTracker sy) (madeTracker (ceSha (syContributor sy)) c) c w contribution result w1"
    and "asMode (rsApply (coSpec c)) = ApplyModeClientSideApply" and "mwTarget w = Some live" and "fits_target contribution live"
  obtains w2 Q entry x c' where
    "run sy (w, woken (syDeliver sy) (ceSha (syContributor sy)) [CreateEvent (PatchObj c)])
      [patchPass c, patchPass c, trackerPassOf (madeTracker (ceSha (syContributor sy)) c), patchPass c] (w2, Q)"
    and "mwTarget w1 = Some x" and "csOwnedPaths entry = PathStrings (cnPaths contribution)" and "same_contribution c c'"
    and "staying sy c'" and "quiet (syTracker sy) (madeTracker (ceSha (syContributor sy)) c') c' contribution x entry"
    and "settled sy c' x entry w2"
proof -
  let ?m = "madeTracker (ceSha (syContributor sy)) c"
  let ?entry = "appliedRecord (rcStatus (recordOf (syTracker sy) ?m c)) contribution result"
  obtain Q t c' where run: "run sy (w, woken (syDeliver sy) (ceSha (syContributor sy)) [CreateEvent (PatchObj c)])
      [patchPass c, patchPass c, trackerPassOf ?m, patchPass c] (\<lparr>mwTarget = mwTarget w1, mwTrackers = [t], mwPatches = [c']\<rparr>, Q)"
    (is "run _ _ _ (?w2, Q)") and t: "ssContributors (tkStatus t) = [?entry]" "kept ?m t" "\<not> IsFenced (tkStatus t)"
    and c': "same_contribution c c'" "ContainsFinalizer (coMeta c') ContributorFinalizer" "conditionIs (coStatus c') ''Ready'' ConditionTrue"
      "psAppliedGeneration (coStatus c') = omGeneration (coMeta c)"
    using landing_run[OF assms(1-11)] by blast
  obtain x where x: "mwTarget w1 = Some x" "quiet (syTracker sy) ?m c contribution x ?entry"
    using landing_quiet(1)[OF assms(11-14)] by blast
  note same = same_contribution_facts[OF c'(1)]
  show thesis
  proof (rule that[OF run x(1) landing_quiet(2)[OF assms(11-14)] c'(1)])
    show "staying sy c'"
      using assms(2-4,7,9,10) c'(1,2) same by (simp add: staying_def same_contribution_def)
    show "quiet (syTracker sy) (madeTracker (ceSha (syContributor sy)) c') c' contribution x ?entry"
      using quiet_same[OF x(2) c'(1)] same(4) by simp
    show "settled sy c' x ?entry ?w2"
      using t c' x(1) same(4,12) unfolding settled_def by (intro exI[of _ t] exI[of _ "coStatus c'"]) simp
  qed
qed



end
