(* ===== verification/Drift.thy ===== *)
theory Drift
  imports Steady TargetCache
begin

text \<open>
  Somebody else changes a target: the event wakes the tracker of the target, and its pass writes the contribution again.
\<close>

section \<open>The event\<close>

lemma drift_event:
  assumes "teClient env = mem_client" and "teSha env = sha" and "keyOfObject live = TargetKeyFor c" and "mwTrackers w = [t]"
    and "kept (madeTracker sha c) t"
  shows "run_state (mapTarget (teClient env) (teSha env) (TrackerKind t) live) w = ([objRequest (TrackerObj t)], w)"
proof -
  let ?m = "madeTracker sha c" and ?key = "TargetKeyFor c"
  let ?kind = "TrackerKindFor ?key (coCluster c)"
  have ref: "trackerRefOf ?m = \<lparr>tkKind = ?kind, tkName = TrackerName sha ?key, tkNamespace = TrackerNamespace ?kind ?key\<rparr>"
    by (simp add: madeTracker_ref Let_def)
  obtain new where new: "newTracker ?kind (TrackerName sha ?key) (TrackerNamespace ?kind ?key) ?key = Inr new"
    "new\<lparr>tkMeta := AddFinalizer TrackerFinalizer (tkMeta new)\<rparr> = ?m"
    using new_made[of sha c] unfolding ref by auto
  have m: "tkCluster ?m = tkCluster new" "omNamespace (tkMeta ?m) = omNamespace (tkMeta new)" "omName (tkMeta ?m) = omName (tkMeta new)"
    unfolding new(2)[symmetric] by (simp_all add: AddFinalizer_def)
  have t: "sameTracker (tkCluster new) (omNamespace (tkMeta new)) (omName (tkMeta new)) t" "tkCluster t = tkCluster new"
    "objRequest (TrackerObj t) = (omNamespace (tkMeta new), omName (tkMeta new))"
    using assms(5) m by (simp_all add: kept_def sameTracker_def objRequest_def)
  have kind: "TrackerKind t = ?kind"
    using t(2) m(1) ref by (simp add: TrackerKind_def trackerRefOf_def)
  have "run_state (kcGetTracker mem_client (tkCluster new) (omNamespace (tkMeta new)) (omName (tkMeta new))) w = (Inr t, w)"
    using assms(4) t(1) by (simp add: mem_client_def)
  from mapTarget_wakes[OF assms(3) new(1) refl this] show ?thesis
    unfolding assms(1,2) kind t(3) by simp
qed

section \<open>The pass\<close>

lemma settled_drifts: "settled sy c x entry w \<Longrightarrow> settled sy c live entry (w\<lparr>mwTarget := Some live\<rparr>)"
  unfolding settled_def by auto

lemma quiet_moves:
  assumes "quiet env m c contribution x entry" and "fits_target contribution live" and "corrected (teSha env) contribution live = Some x'"
  shows "quiet env m c contribution x' entry"
proof -
  obtain base priors where q: "on_record env m c contribution base priors entry" using assms(1) unfolding quiet_def by blast
  moreover have "csPriorValuesCaptured entry" using q by (simp add: on_record_def)
  ultimately show ?thesis
    using corrected_quiet[OF assms(2,3), of "requestOf m c contribution base priors entry"] unfolding quiet_def by (auto simp: requestOf_fields)
qed

lemma drift_pass:
  assumes "staying sy c" and "quiet (syTracker sy) (madeTracker (ceSha (syContributor sy)) c) c contribution x entry"
    and "settled sy c x entry w" and "mwTrackers w = [t]"
    and "fits_target contribution live" and "corrected (teSha (syTracker sy)) contribution live = Some x'"
  shows "\<exists>w'. trackerPass (syTracker sy) t (w\<lparr>mwTarget := Some live\<rparr>) = (Inr done_result, w') \<and> settled sy c x' entry w'"
proof -
  let ?m = "madeTracker (ceSha (syContributor sy)) c" and ?w = "w\<lparr>mwTarget := Some live\<rparr>"
  obtain base priors where q: "on_record (syTracker sy) ?m c contribution base priors entry" using assms(2) unfolding quiet_def by blast
  let ?req = "requestOf ?m c contribution base priors entry"
  have "csPriorValuesCaptured entry" using q by (simp add: on_record_def)
  then have "unwithdrawn ?req contribution" "base_priors ?req contribution live = priors"
    by (auto simp: unwithdrawn_def base_priors_def requestOf_fields)
  with update_corrects[OF _ assms(6), of ?req ?w] obtain changed where
    "run_state (csaUpdate (teSha (syTracker sy)) mem_client ?req contribution live) ?w =
      (Inr (csaResult False changed x' contribution priors), ?w\<lparr>mwTarget := Some x'\<rparr>)" by auto
  with pass_on_record[OF assms(1) q settled_drifts[OF assms(3)]] assms(4) show ?thesis by simp
qed

text \<open>
  Somebody writes \<open>live\<close> into the target in a state of the system: the event on the target requests its tracker, the pass for this request
  keeps the record, and leaves the target with \<open>x\<close>, which no later run changes.
\<close>

definition writes_back :: "System \<Rightarrow> ContributorStatus \<Rightarrow> MemCluster \<times> pending \<Rightarrow> jmap \<Rightarrow> jmap \<Rightarrow> bool" where
  "writes_back sy entry s live x \<longleftrightarrow> (\<exists>w t w' Q'. w = (fst s)\<lparr>mwTarget := Some live\<rparr> \<and> mwTrackers w = [t] \<and>
     run_state (mapTarget (teClient (syTracker sy)) (teSha (syTracker sy)) (TrackerKind t) live) w = ([objRequest (TrackerObj t)], w) \<and>
     run sy (w, insert (trackerRequest t) (snd s)) [trackerPassOf t] (w', Q') \<and>
     map (ssContributors \<circ> tkStatus) (mwTrackers w') = [[entry]] \<and>
     (\<forall>as Q1 w'' Q2. run sy (w', Q1) as (w'', Q2) \<longrightarrow> mwTarget w'' = Some x))"

lemma settled_writes_back:
  assumes "teSha (syTracker sy) = ceSha (syContributor sy)" and "staying sy c"
    and "quiet (syTracker sy) (madeTracker (ceSha (syContributor sy)) c) c contribution x entry" and "settled sy c x entry w"
    and "keyOfObject live = TargetKeyFor c" and "fits_target contribution live"
    and "corrected (teSha (syTracker sy)) contribution live = Some x'"
  shows "writes_back sy entry (w, Q) live x'"
proof -
  let ?w = "w\<lparr>mwTarget := Some live\<rparr>"
  obtain t where t: "mwTrackers w = [t]" "kept (madeTracker (ceSha (syContributor sy)) c) t" using assms(4) unfolding settled_def by auto
  obtain w3 where w3: "trackerPass (syTracker sy) t ?w = (Inr done_result, w3)" "settled sy c x' entry w3"
    using drift_pass[OF assms(2-4) t(1) assms(6,7)] by blast
  have client: "teClient (syTracker sy) = mem_client" using assms(2) by (simp add: staying_def)
  have trackers: "mwTrackers ?w = [t]" by (simp add: t(1))
  have "\<exists>Q3. run sy (?w, insert (trackerRequest t) Q) [trackerPassOf t] (w3, Q3)"
    by (rule run_pass[where w' = w3 and r = "Inr done_result"]) (use w3(1) run_stop in \<open>simp_all add: serve_passes\<close>)
  then obtain Q3 where pass: "run sy (?w, insert (trackerRequest t) Q) [trackerPassOf t] (w3, Q3)" by blast
  have "mwTarget w4 = Some x'" if "run sy (w3, Q1) as (w4, Q2)" for as Q1 w4 Q2
    using settled_run[OF that assms(2) quiet_moves[OF assms(3,6,7)] w3(2)] unfolding settled_def by auto
  then have stays: "\<forall>as Q1 w4 Q2. run sy (w3, Q1) as (w4, Q2) \<longrightarrow> mwTarget w4 = Some x'" by blast
  have "map (ssContributors \<circ> tkStatus) (mwTrackers w3) = [[entry]]" using w3(2) unfolding settled_def by auto
  then show ?thesis
    unfolding writes_back_def fst_conv snd_conv
    by (intro exI[of _ ?w] exI[of _ t] exI[of _ w3] exI[of _ Q3] conjI)
      (rule refl trackers drift_event[OF client assms(1,5) trackers t(2)] pass stays | assumption)+
qed

section \<open>Drift is corrected\<close>


text \<open>A sample: what somebody makes of the ConfigMap, and what the tracker makes of that.\<close>

definition drifted :: jmap where
  "drifted = [(''apiVersion'', JStr ''v1''), (''data'', JObj [(''a'', JStr ''drift''), (''b'', JStr ''theirs'')]), (''kind'', JStr ''ConfigMap''),
     (''metadata'', JObj [(''name'', JStr ''cm''), (''namespace'', JStr ''team-a'')])]"

definition restored_drift :: jmap where
  "restored_drift = [(''apiVersion'', JStr ''v1''), (''data'', JObj [(''a'', JStr ''1''), (''b'', JStr ''theirs'')]), (''kind'', JStr ''ConfigMap''),
     (''metadata'', JObj [(''name'', JStr ''cm''), (''namespace'', JStr ''team-a'')])]"


end
