(* ===== verification/Watching.thy ===== *)
theory Watching
  imports TargetCache Lifecycle
begin

text \<open>
  The whole pass of the tracker reconciler, with the watch on the kind of its target that it starts on the way
  (\<^verbatim>\<open>Reconcile\<close> of \<^verbatim>\<open>internal/controller/tracker_controller.go\<close>). \<open>ReconcileTracker\<close> is this pass without the watch; shown is that the two are
  one pass as far as objects go, so that what holds of the one holds of the other.
\<close>

definition ReconcileWatching ::
  "('c \<Rightarrow> GVK \<Rightarrow> (jmap \<Rightarrow> ('w, (string \<times> string) list) state) \<Rightarrow> ('w, unit) io) \<Rightarrow> (GVK \<Rightarrow> string) \<Rightarrow>
     (string \<Rightarrow> (goerror, string \<times> string) result) \<Rightarrow> 'w TrackerEnv \<Rightarrow> 'c option \<Rightarrow> Manager option \<Rightarrow> bool \<Rightarrow> string \<Rightarrow> string
     \<Rightarrow> ('w, (goerror, CtrlResult) result \<times> Manager option) state" where
  "ReconcileWatching watch show_gvk parse env ctrl cache cluster namespace name =
     do {
       g \<leftarrow> kcGetTracker (teClient env) cluster namespace name;
       case g of
         Inl e \<Rightarrow> State_Monad.return (orDone e, cache)
       | Inr t \<Rightarrow>
           if IsFenced (tkStatus t) then do { r \<leftarrow> finishPromotion env t; State_Monad.return (r, cache) }
           else if omDeletionTimestamp (tkMeta t) \<noteq> None then do { r \<leftarrow> reconcileDeleteTracker env t; State_Monad.return (r, cache) }
           else if \<not> ContainsFinalizer (tkMeta t) TrackerFinalizer then
             do {
               u \<leftarrow> kcUpdateTracker (teClient env) (t\<lparr>tkMeta := AddFinalizer TrackerFinalizer (tkMeta t)\<rparr>);
               State_Monad.return (map_sum id (\<lambda>_. \<lparr>crRequeue = True, crRequeueAfter = 0\<rparr>) u, cache)
             }
           else
             do {
               cache' \<leftarrow> ensureTargetWatch watch show_gvk parse env ctrl t cache;
               l \<leftarrow> listContributors env t;
               r \<leftarrow> (case l of
                       Inl e \<Rightarrow> State_Monad.return (Inl e)
                     | Inr contributors \<Rightarrow>
                         if contributors = [] then reconcileEmpty env t
                         else reconcileContributions env t contributors);
               State_Monad.return (r, cache')
             }
     }"

section \<open>What a pass does to the watches\<close>

text \<open>The kind of a tracker's target.\<close>

definition targetGVK :: "Tracker \<Rightarrow> string \<times> string \<Rightarrow> GVK" where
  "targetGVK t gv = \<lparr>gvGroup = fst gv, gvVersion = snd gv, gvKind = ttKind (srTargetRef (tkSpec t))\<rparr>"

text \<open>A registration of watches that touches no object, and one that succeeds.\<close>

definition touches_nothing :: "('c \<Rightarrow> GVK \<Rightarrow> 'f \<Rightarrow> ('w, unit) io) \<Rightarrow> bool" where
  "touches_nothing watch \<longleftrightarrow> (\<forall>c gvk f w. snd (run_state (watch c gvk f) w) = w)"

definition succeeds :: "('c \<Rightarrow> GVK \<Rightarrow> 'f \<Rightarrow> ('w, unit) io) \<Rightarrow> bool" where
  "succeeds watch \<longleftrightarrow> (\<forall>c gvk f w. fst (run_state (watch c gvk f) w) = Inr ())"

text \<open>There is room for a kind: it is not disabled, and the cap is not reached or the kind is watched already.\<close>

definition has_room :: "Manager \<Rightarrow> GVK \<Rightarrow> bool" where
  "has_room m gvk \<longleftrightarrow> gvk \<notin> set (mgDisabled m) \<and> (int (Count m) < mgMaxGVKs m \<or> gvkWatched m gvk)"

lemma Ensure_keeps:
  assumes "touches_nothing watch"
  shows "snd (run_state (Ensure watch show_gvk owner ctrl gvk mapFn m) w) = w"
proof -
  obtain r where "run_state (watch ctrl gvk mapFn) w = (r, w)"
    using assms unfolding touches_nothing_def by (metis prod.collapse)
  then show ?thesis by (simp add: Ensure_def)
qed

lemma watch_kept:
  assumes "touches_nothing watch" and "cache_ok m"
  shows "\<exists>m'. run_state (ensureTargetWatch watch show_gvk parse env (Some c) t (Some m)) w = (Some m', w) \<and>
    cache_ok m' \<and> set (mgWatched m) \<subseteq> set (mgWatched m') \<and>
    (\<forall>gv. parse (ttAPIVersion (srTargetRef (tkSpec t))) = Inr gv \<and> has_room m (targetGVK t gv) \<and> succeeds watch \<longrightarrow>
       (TrackerKind t, targetGVK t gv) \<in> set (mgWatched m'))"
proof (cases "parse (ttAPIVersion (srTargetRef (tkSpec t)))")
  case (Inl e)
  then show ?thesis using assms(2) by (simp add: ensureTargetWatch_def)
next
  case (Inr gv)
  let ?map = "mapTarget (teClient env) (teSha env) (TrackerKind t)"
  obtain r m' where run: "run_state (Ensure watch show_gvk (TrackerKind t) c (targetGVK t gv) ?map m) w = ((r, m'), w)"
    using Ensure_keeps[OF assms(1), of show_gvk "TrackerKind t" c "targetGVK t gv" ?map m w] by (metis prod.collapse)
  have "(TrackerKind t, targetGVK t gv) \<in> set (mgWatched m')" if room: "has_room m (targetGVK t gv)" and ok: "succeeds watch"
    using run
  proof (cases rule: Ensure_cases)
    case (failed e)
    have "fst (run_state (watch c (targetGVK t gv) ?map) w) = Inr ()" using ok by (simp add: succeeds_def)
    with failed show ?thesis by simp
  qed (use room in \<open>auto simp: has_room_def\<close>)
  moreover have "run_state (ensureTargetWatch watch show_gvk parse env (Some c) t (Some m)) w = (Some m', w)"
    using Inr run by (simp add: ensureTargetWatch_def targetGVK_def)
  ultimately show ?thesis using cache_ok_Ensure[OF run assms(2)] Inr by (intro exI[of _ m']) auto
qed

lemma passes_agree:
  assumes "\<And>t w'. \<lbrakk>run_state (kcGetTracker (teClient env) b ns n) w = (Inr t, w'); working t\<rbrakk> \<Longrightarrow>
      run_state (ensureTargetWatch watch show_gvk parse env ctrl t cache) w' = (cache', w')"
    and "\<nexists>t w'. run_state (kcGetTracker (teClient env) b ns n) w = (Inr t, w') \<and> working t \<Longrightarrow> cache' = cache"
  shows "run_state (ReconcileWatching watch show_gvk parse env ctrl cache b ns n) w =
    ((fst (run_state (ReconcileTracker env b ns n) w), cache'), snd (run_state (ReconcileTracker env b ns n) w))"
proof -
  obtain g w1 where g: "run_state (kcGetTracker (teClient env) b ns n) w = (g, w1)" by fastforce
  show ?thesis
  proof (cases g)
    case (Inl e)
    with g assms(2) show ?thesis by (simp add: ReconcileWatching_def ReconcileTracker_def)
  next
    case (Inr t)
    show ?thesis
    proof (cases "working t")
      case True
      with assms(1) g Inr have "run_state (ensureTargetWatch watch show_gvk parse env ctrl t cache) w1 = (cache', w1)" by simp
      with True g Inr show ?thesis
        by (simp add: ReconcileWatching_def ReconcileTracker_def working_def case_prod_unfold split: sum.split)
    next
      case False
      with assms(2) g Inr have "cache' = cache" by simp
      with False g Inr show ?thesis
        by (auto simp: ReconcileWatching_def ReconcileTracker_def working_def case_prod_unfold)
    qed
  qed
qed

text \<open>
  C12. The watch is all that the watching adds. Let registering a watch touch no object. Then the pass with watches gives the
  result of \<open>ReconcileTracker\<close> and leaves the objects as it does, whatever the state of the manager of watches. The manager stays within
  its cap and forgets no watch; and when the pass is for a working tracker whose target has a kind that is not
  disabled, there is room, and the registration succeeds, the kind is watched for the tracker's kind afterwards.
\<close>

theorem watching_adds_the_watch:
  assumes "touches_nothing watch" and "cache_ok m"
  shows "\<exists>m'. run_state (ReconcileWatching watch show_gvk parse env (Some c) (Some m) b ns n) w =
      ((fst (run_state (ReconcileTracker env b ns n) w), Some m'), snd (run_state (ReconcileTracker env b ns n) w)) \<and>
    cache_ok m' \<and> set (mgWatched m) \<subseteq> set (mgWatched m') \<and>
    (\<forall>t w' gv. run_state (kcGetTracker (teClient env) b ns n) w = (Inr t, w') \<and> working t \<and>
       parse (ttAPIVersion (srTargetRef (tkSpec t))) = Inr gv \<and> has_room m (targetGVK t gv) \<and> succeeds watch \<longrightarrow>
       (TrackerKind t, targetGVK t gv) \<in> set (mgWatched m'))"
proof (cases "\<exists>t w'. run_state (kcGetTracker (teClient env) b ns n) w = (Inr t, w') \<and> working t")
  case True
  then obtain t w1 where t: "run_state (kcGetTracker (teClient env) b ns n) w = (Inr t, w1)" "working t" by blast
  obtain m' where m': "run_state (ensureTargetWatch watch show_gvk parse env (Some c) t (Some m)) w1 = (Some m', w1)"
    "cache_ok m'" "set (mgWatched m) \<subseteq> set (mgWatched m')"
    "\<forall>gv. parse (ttAPIVersion (srTargetRef (tkSpec t))) = Inr gv \<and> has_room m (targetGVK t gv) \<and> succeeds watch \<longrightarrow>
       (TrackerKind t, targetGVK t gv) \<in> set (mgWatched m')"
    using watch_kept[OF assms] by blast
  show ?thesis
    by (rule exI[of _ m'], intro conjI passes_agree) (use t m' in auto)
next
  case False
  then show ?thesis
    by (intro exI[of _ m] conjI passes_agree) (use assms(2) in auto)
qed

text \<open>A sample of both parameters.\<close>

definition succeeding_watch :: "unit \<Rightarrow> GVK \<Rightarrow> 'f \<Rightarrow> (MemCluster, unit) io" where
  "succeeding_watch c gvk f = State_Monad.return (Inr ())"

definition core_version :: "string \<Rightarrow> (goerror, string \<times> string) result" where
  "core_version v = Inr ('''', v)"

text \<open>C12 for the first pass of a tracker of a ConfigMap.\<close>

theorem watching_adds_the_watch_witness:
  "let w = \<lparr>mwTarget = None, mwTrackers = [sample_tracker no_status], mwPatches = []\<rparr>; m = NewManager 0 []
   in \<exists>m'. run_state (ReconcileWatching succeeding_watch gvKind core_version mem_env (Some ()) (Some m) False ''team-a'' ''t'') w =
        ((fst (run_state (ReconcileTracker mem_env False ''team-a'' ''t'') w), Some m'), snd (run_state (ReconcileTracker mem_env False ''team-a'' ''t'') w)) \<and>
      (''SharedResource'', sample_gvk ''ConfigMap'') \<in> set (mgWatched m')"
proof -
  let ?t = "sample_tracker no_status" and ?m = "NewManager 0 []"
  let ?w = "\<lparr>mwTarget = None, mwTrackers = [?t], mwPatches = []\<rparr>"
  have 1: "touches_nothing succeeding_watch" "succeeds succeeding_watch"
    by (simp_all add: touches_nothing_def succeeds_def succeeding_watch_def)
  have 2: "cache_ok ?m" by (simp add: cache_ok_def NewManager_def Count_card DefaultMaxGVKs_def)
  have 3: "run_state (kcGetTracker (teClient mem_env) False ''team-a'' ''t'') ?w = (Inr ?t, ?w)"
    by (simp add: mem_env_def mem_client_def sameTracker_def sample_tracker_def no_meta_def)
  have 4: "working ?t" by code_simp
  have 5: "targetGVK ?t ('''', ttAPIVersion (srTargetRef (tkSpec ?t))) = sample_gvk ''ConfigMap''" "TrackerKind ?t = ''SharedResource''"
    by code_simp+
  have 6: "core_version (ttAPIVersion (srTargetRef (tkSpec ?t))) = Inr ('''', ttAPIVersion (srTargetRef (tkSpec ?t)))"
    by (simp add: core_version_def)
  have 7: "has_room ?m (sample_gvk ''ConfigMap'')" by (simp add: has_room_def NewManager_def Count_card DefaultMaxGVKs_def)
  show ?thesis
    using watching_adds_the_watch[OF 1(1) 2, of gvKind core_version mem_env "()" False "''team-a''" "''t''" ?w] 1(2) 3 4 6 7
    unfolding Let_def 5(2)[symmetric] 5(1)[symmetric] by blast
qed

end
