(* ===== verification/Listing.thy ===== *)
theory Listing
  imports Lifecycle
begin

text \<open>
  Whom a tracker's pass works for: \<open>listContributors\<close> against what it is meant to list, and what follows for the
  target of a tracker that several contribute to.
\<close>

section \<open>What a listing finds\<close>

text \<open>The contributors a tracker may have, and those it has: by the index, or by a registration of a selector.\<close>

definition visible :: "Tracker \<Rightarrow> Contributor \<Rightarrow> bool" where
  "visible t c \<longleftrightarrow> tkCluster t \<or> \<not> coCluster c \<and> coNamespace c = omNamespace (tkMeta t)"

definition contributes :: "Tracker \<Rightarrow> Contributor \<Rightarrow> bool" where
  "contributes t c \<longleftrightarrow> visible t c \<and>
     (TargetKeyString (trackerTargetKey t) \<in> set (targetKeysFor c) \<or>
      trMode (coTarget c) = TargetModeSelector \<and> trackerRefOf t \<in> set (psSharedResourceRefs (coStatus c)))"

definition refKey :: "Contributor \<Rightarrow> string" where
  "refKey c = RefString (ContributorRefOf c)"

lemma record_ref [simp]: "csPatchRef (rcStatus (recordOf env t c)) = ContributorRefOf c" "rcObj (recordOf env t c) = c"
  by (simp_all add: recordOf_def recordFor_def Let_def split: option.split)

definition listed :: "Tracker \<Rightarrow> string option \<Rightarrow> Contributor list \<Rightarrow> Contributor list" where
  "listed t index ps =
     (let found = (\<lambda>c. case index of None \<Rightarrow> True | Some k \<Rightarrow> k \<in> set (targetKeysFor c))
      in filter (\<lambda>c. \<not> coCluster c \<and> visible t c \<and> found c) ps @ (if tkCluster t then filter (\<lambda>c. coCluster c \<and> found c) ps else []))"

lemma listBoth_mem:
  assumes "teClient env = mem_client"
  shows "run_state (listBoth env t index wrap) w = (Inr (listed t index (mwPatches w)), w)"
  using assms by (auto simp: listBoth_def mem_client_def listed_def visible_def Let_def intro: filter_cong)

lemma listed_mset:
  "mset (listed t index ps) =
     mset (filter (\<lambda>c. visible t c \<and> (case index of None \<Rightarrow> True | Some k \<Rightarrow> k \<in> set (targetKeysFor c))) ps)"
  by (induction ps) (auto simp: listed_def visible_def Let_def)

lemma mset_filter_split:
  assumes "\<And>x. A x \<Longrightarrow> C x"
  shows "mset (filter A xs) + mset (filter (\<lambda>x. C x \<and> \<not> A x) xs) = mset (filter C xs)"
  using assms by (induction xs) auto

lemma sortContributors_sorted: "sorted_wrt (\<lambda>a b. \<not> contributorLess b a) (sortContributors recs)"
proof -
  have "sorted (map contributorKey (sort_key contributorKey recs))" by simp
  then have "sorted_wrt (\<lambda>a b. contributorKey a \<le> contributorKey b) (sort_key contributorKey recs)" by (simp only: sorted_map)
  then show ?thesis by (simp add: sortContributors_key contributorLess_key not_less)
qed

text \<open>Sorting keeps every record, each with its object.\<close>

lemma sortRecords_mset:
  assumes "distinct (map (\<lambda>r. RefString (csPatchRef (rcStatus r))) out)"
  shows "mset (sortRecords out) = mset out" and "map rcStatus (sortRecords out) = sortContributors (map rcStatus out)"
proof -
  define g where "g rec = \<lparr>rcObj = the (byKey out (RefString (csPatchRef rec))), rcStatus = rec\<rparr>" for rec
  have key: "byKey out (RefString (csPatchRef (rcStatus r))) = Some (rcObj r)" if "r \<in> set out" for r
    unfolding byKey_def using that assms
    by (intro map_of_is_SomeI) (auto simp: comp_def rev_map[symmetric] intro!: image_eqI[of _ _ r])
  have set: "set (sortContributors (map rcStatus out)) = rcStatus ` set out" by (simp add: sortContributors_key)
  have "concat (map (\<lambda>rec. case byKey out (RefString (csPatchRef rec)) of None \<Rightarrow> [] | Some c \<Rightarrow> [\<lparr>rcObj = c, rcStatus = rec\<rparr>]) recs) = map g recs"
    if "set recs \<subseteq> rcStatus ` set out" for recs
    using that by (induction recs) (auto simp: key g_def)
  then have sorted: "sortRecords out = map g (sortContributors (map rcStatus out))" using set by (simp add: sortRecords_def)
  have "map (g \<circ> rcStatus) out = map id out" by (rule map_cong) (simp_all add: g_def key)
  moreover have "mset (sortRecords out) = mset (map (g \<circ> rcStatus) out)"
    by (simp add: sorted sortContributors_key mset_map[symmetric] del: mset_map) (simp add: image_mset.compositionality comp_def)
  ultimately show "mset (sortRecords out) = mset out" by simp
  show "map rcStatus (sortRecords out) = sortContributors (map rcStatus out)" by (simp add: sorted comp_def g_def)
qed

lemma list_contributors_listed:
  assumes "teClient env = mem_client" and "distinct (map refKey (mwPatches w))"
  shows "\<exists>rs. run_state (listContributors env t) w = (Inr rs, w) \<and>
    mset rs = image_mset (recordOf env t) (mset (filter (contributes t) (mwPatches w))) \<and>
    sorted_wrt (\<lambda>a b. \<not> contributorLess (rcStatus b) (rcStatus a)) rs"
proof -
  let ?key = "Some (TargetKeyString (trackerTargetKey t))" and ?ps = "mwPatches w"
  let ?out = "map (recordOf env t) (listed t ?key ?ps)"
  let ?more = "filter (selectorBound t ?out) (listed t None ?ps)"
  let ?A = "\<lambda>c. visible t c \<and> TargetKeyString (trackerTargetKey t) \<in> set (targetKeysFor c)"
  let ?all = "listed t ?key ?ps @ ?more"
  have inj: "c = c'" if "refKey c = refKey c'" "c \<in> set ?ps" "c' \<in> set ?ps" for c c'
    using assms(2) that by (auto simp: distinct_map dest: inj_onD)
  have sub: "set (listed t index ?ps) \<subseteq> set ?ps" for index by (auto simp: listed_def Let_def split: if_splits)
  have bound: "selectorBound t ?out c \<longleftrightarrow> c \<notin> set (listed t ?key ?ps) \<and> trMode (coTarget c) = TargetModeSelector \<and>
      trackerRefOf t \<in> set (psSharedResourceRefs (coStatus c))" if "c \<in> set ?ps" for c
    using inj[OF _ that] sub[of ?key] by (auto simp: selectorBound_def trackerRefOf_def refKey_def)
  have "mset ?more = mset (filter (selectorBound t ?out) (filter (visible t) ?ps))"
    using listed_mset[of t None ?ps] by (simp only: mset_filter option.case simp_thms)
  also have "filter (selectorBound t ?out) (filter (visible t) ?ps) =
      filter (\<lambda>c. contributes t c \<and> \<not> ?A c) ?ps"
  proof -
    have "c \<in> set (listed t ?key ?ps) \<longleftrightarrow> c \<in> set ?ps \<and> visible t c \<and> TargetKeyString (trackerTargetKey t) \<in> set (targetKeysFor c)" for c
      using listed_mset[of t ?key ?ps, THEN mset_eq_setD] by auto
    note mem = this
    have "visible t c \<and> selectorBound t ?out c \<longleftrightarrow> contributes t c \<and> \<not> ?A c" if "c \<in> set ?ps" for c
      using bound[OF that] mem[of c] that unfolding contributes_def by blast
    then show ?thesis unfolding filter_filter by (intro filter_cong refl)
  qed
  finally have more: "mset ?more = mset (filter (\<lambda>c. contributes t c \<and> \<not> ?A c) ?ps)" .
  have index: "mset (listed t ?key ?ps) = mset (filter ?A ?ps)" using listed_mset[of t ?key ?ps] by (simp only: option.case)
  have "mset ?all = mset (filter ?A ?ps) + mset (filter (\<lambda>c. contributes t c \<and> \<not> ?A c) ?ps)"
    by (simp only: mset_append index more)
  also have "\<dots> = mset (filter (contributes t) ?ps)"
    by (rule mset_filter_split) (simp add: contributes_def)
  finally have whole: "mset ?all = mset (filter (contributes t) ?ps)" .
  then have all: "mset (map (recordOf env t) ?all) = image_mset (recordOf env t) (mset (filter (contributes t) ?ps))" by (simp only: mset_map)
  let ?rs = "sortRecords (map (recordOf env t) ?all)"
  have keys: "distinct (map (\<lambda>r. RefString (csPatchRef (rcStatus r))) (map (recordOf env t) ?all))"
  proof -
    have "distinct (map refKey (filter (contributes t) ?ps))" using assms(2) by (rule distinct_map_filter)
    then have "distinct (map refKey ?all)"
      using whole by (metis (no_types) mset_eq_imp_distinct_iff mset_map)
    moreover have "map (\<lambda>r. RefString (csPatchRef (rcStatus r))) (map (recordOf env t) xs) = map refKey xs" for xs
      by (simp add: refKey_def)
    ultimately show ?thesis by (simp only:)
  qed
  have "run_state (listContributors env t) w = (Inr ?rs, w)"
    using listBoth_mem[OF assms(1)] by (simp add: listContributors_def Let_def)
  moreover have "sorted_wrt (\<lambda>a b. \<not> contributorLess b a) (map rcStatus ?rs)"
    unfolding sortRecords_mset(2)[OF keys] by (rule sortContributors_sorted)
  then have "sorted_wrt (\<lambda>a b. \<not> contributorLess (rcStatus b) (rcStatus a)) ?rs" by (simp add: sorted_wrt_map)
  ultimately show ?thesis using sortRecords_mset(1)[OF keys] all by auto
qed


text \<open>A sample: contributors with and without a registration, and one of another namespace.\<close>

definition selecting :: "string \<Rightarrow> TrackerRef list \<Rightarrow> Contributor" where
  "selecting name refs =
     (let c = sample_contributor name 5 ConflictPolicyFail ''x''; s = coSpec c
      in c\<lparr>coSpec := s\<lparr>rsTarget := (rsTarget s)\<lparr>trMode := TargetModeSelector\<rparr>\<rparr>, coStatus := (coStatus c)\<lparr>psSharedResourceRefs := refs\<rparr>\<rparr>)"

definition listing_patches :: "Contributor list" where
  "listing_patches =
     (let c = sample_contributor ''q'' 1 ConflictPolicyFail ''x''
      in [c, selecting ''s'' [sample_ref], selecting ''t'' [],
          c\<lparr>coMeta := (coMeta c)\<lparr>omNamespace := ''team-b''\<rparr>\<rparr>, sample_contributor ''p'' 9 ConflictPolicyFail ''x''])"


section \<open>Sharing protects the target\<close>

lemma listContributors_envDelete: "listContributors (envDelete d env) t = listContributors env t"
proof -
  have 1: "recordOf (envDelete d env) t = recordOf env t" by (rule ext) (simp add: recordOf_def)
  have 2: "listBoth (envDelete d env) t index wrap = listBoth env t index wrap" for index wrap
    unfolding listBoth_def envDelete_simps withDelete_simps by (rule refl)
  show ?thesis unfolding listContributors_def 1 2 by (rule refl)
qed

lemma maybeDelete_unwanted: "\<not> wantsDelete (tkStatus t) cs \<Longrightarrow> maybeDeleteTarget env t cs target = State_Monad.return (Inr ())"
  by (simp add: maybeDeleteTarget_def)

lemma applyActive_envDelete: "applyActive (envDelete d env) t active target = applyActive env t active target"
  by (simp add: applyActive_def writeStatus_withDelete applyLoop_envDelete renderAll_envDelete cong: deep_cong)

lemma reconcileContributions_unwanted:
  assumes "\<not> wantsDelete (tkStatus t) (fst (splitReleasing contributors))"
  shows "reconcileContributions (envDelete d env) t contributors = reconcileContributions env t contributors"
  using assms
  by (simp add: reconcileContributions_def releaseAll_envDelete maybeDelete_unwanted applyActive_envDelete case_prod_unfold Let_def
      cong: deep_cong)

lemma reconcileDelete_unwanted:
  assumes "run_state (listContributors env t) w = (Inr rs, w)" and "\<not> wantsDelete (tkStatus t) rs"
  shows "run_state (reconcileDeleteTracker (envDelete d env) t) w = run_state (reconcileDeleteTracker env t) w"
  using assms
  by (simp add: reconcileDeleteTracker_def listContributors_envDelete releaseAll_envDelete maybeDelete_unwanted cong: deep_cong)

text \<open>The creator of the target leaves, with deletion on release, and nobody of the tracker stays but a tracker that goes.\<close>

definition leaves_for_good :: "Tracker \<Rightarrow> Contributor list \<Rightarrow> bool" where
  "leaves_for_good t ps \<longleftrightarrow> ssCreatedByOperator (tkStatus t) \<and>
     (\<exists>creator c. ssCreatorPatchRef (tkStatus t) = Some creator \<and> c \<in> set ps \<and> contributes t c \<and>
        lcOnRelease (rsLifecycle (coSpec c)) = OnReleaseDelete \<and> SameContributor (ContributorRefOf c) creator) \<and>
     (omDeletionTimestamp (tkMeta t) \<noteq> None \<or>
      list_all (\<lambda>c. contributes t c \<longrightarrow> omDeletionTimestamp (coMeta c) \<noteq> None) ps)"

lemma wanted_leaves:
  assumes "wantsDelete (tkStatus t) rs"
    and "mset rs = image_mset (recordOf env t) (mset (filter (contributes t) ps))"
    and "omDeletionTimestamp (tkMeta t) \<noteq> None \<or> list_all (\<lambda>c. contributes t c \<longrightarrow> omDeletionTimestamp (coMeta c) \<noteq> None) ps"
  shows "leaves_for_good t ps"
proof -
  have "set rs = recordOf env t ` {c \<in> set ps. contributes t c}"
    using arg_cong[OF assms(2), of set_mset] by simp
  with assms(1,3) show ?thesis
    by (auto simp: leaves_for_good_def wantsDelete_def list_ex_iff split: option.splits)
qed


text \<open>A sample: the creator of the target asks for its deletion on release, another contributor stays.\<close>

definition sharing_cluster :: "int option \<Rightarrow> int option \<Rightarrow> MemCluster" where
  "sharing_cluster tracker_gone creator_gone =
     (let stay = sample_contributor ''q'' 1 ConflictPolicyFail ''y''; c = sample_contributor ''p'' 1 ConflictPolicyFail ''x'';
          creator = c\<lparr>coMeta := (coMeta c)\<lparr>omDeletionTimestamp := creator_gone\<rparr>,
            coSpec := (coSpec c)\<lparr>rsLifecycle := (rsLifecycle (coSpec c))\<lparr>lcOnRelease := OnReleaseDelete\<rparr>\<rparr>\<rparr>;
          t = sample_tracker (no_status\<lparr>ssCreatedByOperator := True, ssCreatorPatchRef := Some (ContributorRefOf c)\<rparr>)
      in \<lparr>mwTarget = Some [(''data'', JObj [(''a'', JStr ''x'')])],
          mwTrackers = [t\<lparr>tkMeta := (tkMeta t)\<lparr>omDeletionTimestamp := tracker_gone\<rparr>\<rparr>],
          mwPatches = [creator, stay]\<rparr>)"


text \<open>The second case is real: deleting the tracker by hand deletes the target while the creator and another contributor stay.\<close>

lemma deleted_tracker_takes_target:
  "let w = sharing_cluster (Some 7) None
   in list_all (\<lambda>c. omDeletionTimestamp (coMeta c) = None) (mwPatches w) \<and>
      mwTarget (snd (run_state (ReconcileTracker mem_env False ''team-a'' ''t'') w)) = None"
  by code_simp

end
