(* ===== verification/Together.thy ===== *)
theory Together
  imports Steady Listing
begin

text \<open>
  Several contributions to one object, one after another as a pass of the tracker applies them: with disjoint claims each is
  there in the end and has the record it would have had alone, and a state where all of them have landed is at rest.
\<close>

section \<open>Contributions one after another\<close>

text \<open>What one leaves of an object; not defined where the object it computes only hashes like the live one.\<close>

definition written_once :: "(string \<Rightarrow> string) \<Rightarrow> Contribution \<Rightarrow> jmap \<Rightarrow> jmap option" where
  "written_once sha c live =
     (case runPaths (writePath (cnObject c)) (cnPaths c) (JObj live) of
        Inl e \<Rightarrow> None
      | Inr d \<Rightarrow> if equalContent sha live (root_map d) \<and> root_map d \<noteq> live then None else Some (root_map d))"

fun written :: "(string \<Rightarrow> string) \<Rightarrow> Contribution list \<Rightarrow> jmap \<Rightarrow> jmap option" where
  "written sha [] live = Some live"
| "written sha (c # cs) live = Option.bind (written_once sha c live) (written sha cs)"

definition claimed :: "Contribution list \<Rightarrow> Path list" where
  "claimed cs = concat (map cnPaths cs)"

lemma claimed_simps [simp]: "claimed [] = []" "claimed (c # cs) = cnPaths c @ claimed cs"
  by (simp_all add: claimed_def)

definition fits_together :: "Contribution list \<Rightarrow> jmap \<Rightarrow> bool" where
  "fits_together cs live \<longleftrightarrow> wf_json (JObj live) \<and> apart (claimed cs) \<and>
     list_all (\<lambda>c. list_all (claim_good (cnObject c)) (cnPaths c) \<and> list_all printable (cnPaths c)) cs"

lemma fits_together_Cons:
  "fits_together (c # cs) live \<longleftrightarrow> fits_target c live \<and> fits_together cs live \<and>
     (\<forall>p \<in> set (cnPaths c). \<forall>q \<in> set (claimed cs). disjoint p q \<and> disjoint q p)"
  by (auto simp: fits_together_def fits_target_def apart_append)

lemma written_once_corrected: "written_once sha c live = Some x \<Longrightarrow> corrected sha c live = Some x"
  by (auto simp: written_once_def corrected_def split: sum.splits if_splits)

lemma written_once_facts:
  assumes "fits_target c live" and "written_once sha c live = Some x"
  shows "wf_json (JObj x)"
    and "p \<in> set (cnPaths c) \<Longrightarrow> \<exists>v. Get (JObj (cnObject c)) p = Some v \<and> hd_opt (Matches (JObj x) p) = Some v"
    and "\<forall>p \<in> set (cnPaths c). disjoint p q \<Longrightarrow> Matches (JObj x) q = Matches (JObj live) q"
proof -
  obtain d where d: "runPaths (writePath (cnObject c)) (cnPaths c) (JObj live) = Inr d" "x = root_map d"
    using assms(2) by (auto simp: written_once_def split: sum.splits if_splits)
  let ?first = "(undefined :: Request)\<lparr>rqPreviousPaths := [], rqPriorValues := []\<rparr>"
  have none: "withdrawn ?first c = []" by (simp add: withdrawn_def stale_def)
  have fits: "fits_live ?first c live" using assms(1) none by (simp add: fits_target_def fits_live_def akeys_ok_def)
  have "desiredState ?first c live = Inr (d, base_priors ?first c live)"
    using d(1) desired_unwithdrawn[of ?first c live] by simp
  note eff = desiredState_effect[OF fits this]
  have x: "JObj x = d" using eff(1) d(2) by (auto simp: map_ok_iff root_map_def)
  then show "wf_json (JObj x)" using eff(1) by (auto simp: map_ok_iff)
  show "\<exists>v. Get (JObj (cnObject c)) p = Some v \<and> hd_opt (Matches (JObj x) p) = Some v" if "p \<in> set (cnPaths c)"
    using writes_found[OF d(1) that] eff(2)[OF that] x by auto
  show "Matches (JObj x) q = Matches (JObj live) q" if "\<forall>p \<in> set (cnPaths c). disjoint p q"
    using eff(4)[of q] that none x by simp
qed

lemma fits_together_keeps:
  assumes "fits_together (c # cs) live" and "written_once sha c live = Some x"
  shows "fits_together cs x"
  using written_once_facts(1)[OF _ assms(2)] assms(1) by (auto simp: fits_together_Cons) (simp add: fits_together_def)

lemma written_facts:
  assumes "fits_together cs live" and "written sha cs live = Some x"
  shows "wf_json (JObj x)"
    and "c \<in> set cs \<Longrightarrow> p \<in> set (cnPaths c) \<Longrightarrow> \<exists>v. Get (JObj (cnObject c)) p = Some v \<and> hd_opt (Matches (JObj x) p) = Some v"
    and "\<forall>p \<in> set (claimed cs). disjoint p q \<Longrightarrow> Matches (JObj x) q = Matches (JObj live) q"
proof -
  have "wf_json (JObj x) \<and>
    (\<forall>c \<in> set cs. \<forall>p \<in> set (cnPaths c). \<exists>v. Get (JObj (cnObject c)) p = Some v \<and> hd_opt (Matches (JObj x) p) = Some v) \<and>
    (\<forall>q. (\<forall>p \<in> set (claimed cs). disjoint p q) \<longrightarrow> Matches (JObj x) q = Matches (JObj live) q)"
    using assms
  proof (induction cs arbitrary: live)
    case Nil
    then show ?case by (simp add: fits_together_def)
  next
    case (Cons c cs)
    from Cons.prems(2) obtain y where y: "written_once sha c live = Some y" "written sha cs y = Some x"
      by (auto simp: bind_eq_Some_conv)
    note one = written_once_facts[OF _ y(1)] and fits = Cons.prems(1)[unfolded fits_together_Cons]
    note rest = Cons.IH[OF fits_together_keeps[OF Cons.prems(1) y(1)] y(2)]
    have "\<exists>v. Get (JObj (cnObject c)) p = Some v \<and> hd_opt (Matches (JObj x) p) = Some v" if p: "p \<in> set (cnPaths c)" for p
    proof -
      have "Matches (JObj x) p = Matches (JObj y) p" using rest fits p by blast
      with one(2)[OF conjunct1[OF fits] p] show ?thesis by simp
    qed
    moreover have "Matches (JObj x) q = Matches (JObj live) q" if "\<forall>p \<in> set (claimed (c # cs)). disjoint p q" for q
      using rest one(3)[OF conjunct1[OF fits], of q] that by auto
    ultimately show ?case using rest by auto
  qed
  then show "wf_json (JObj x)"
    and "c \<in> set cs \<Longrightarrow> p \<in> set (cnPaths c) \<Longrightarrow> \<exists>v. Get (JObj (cnObject c)) p = Some v \<and> hd_opt (Matches (JObj x) p) = Some v"
    and "\<forall>p \<in> set (claimed cs). disjoint p q \<Longrightarrow> Matches (JObj x) q = Matches (JObj live) q" by blast+
qed

text \<open>Where all of them are, none writes anything more, in whatever order they come.\<close>

lemma claims_good:
  assumes "fits_together cs live" and "c \<in> set cs" and "p \<in> set (cnPaths c)"
  shows "list_all addr_seg p" and "p \<noteq> []" and "printable p"
  using assms claim_good_addr by (auto simp: fits_together_def list_all_iff printable_def)

lemma written_rests:
  assumes "fits_together cs live" and "written sha cs live = Some x" and "c \<in> set cs"
  shows "written_once sha c x = Some x"
proof -
  have "runPaths (writePath (cnObject c)) (cnPaths c) (JObj x) = Inr (JObj x)"
  proof (rule runPaths_idem)
    show "map_ok (JObj x)" using written_facts(1)[OF assms(1,2)] by (simp add: map_ok_iff)
    show "\<forall>p \<in> set (cnPaths c). list_all addr_seg p \<and> p \<noteq> [] \<and>
        (\<exists>v. Get (JObj (cnObject c)) p = Some v \<and> hd_opt (Matches (JObj x) p) = Some v)"
      using written_facts(2)[OF assms(1-3)] claims_good[OF assms(1,3)] by blast
  qed
  then show ?thesis by (simp add: written_once_def root_map_def)
qed

lemma written_at_rest: "(\<And>c. c \<in> set cs \<Longrightarrow> written_once sha c x = Some x) \<Longrightarrow> written sha cs x = Some x"
  by (induction cs) simp_all

section \<open>The records of a pass\<close>

text \<open>The request a pass makes for a contributor, and when it makes one: it renders, applies client-side, and withdraws nothing.\<close>

definition requestFor :: "Target \<Rightarrow> contributorRecord \<Rightarrow> Contribution \<Rightarrow> Request" where
  "requestFor target r cn =
     applyRequest r cn target (case ParsePaths (csOwnedPaths (rcStatus r)) of Inl _ \<Rightarrow> [] | Inr ps \<Rightarrow> ps)
       (case decodePriorValues (csPriorValues (rcStatus r)) of Inl _ \<Rightarrow> [] | Inr ps \<Rightarrow> ps)
       (case baseFor (rcObj r) of Inl _ \<Rightarrow> None | Inr b \<Rightarrow> b)"

definition joins :: "'w TrackerEnv \<Rightarrow> Target \<Rightarrow> contributorRecord \<Rightarrow> Contribution \<Rightarrow> bool" where
  "joins env target r cn \<longleftrightarrow>
     Render (teSha env) (teJsonpatch env) (rsPatch (coSpec (rcObj r))) target = Inr cn \<and>
     For (asMode (rsApply (coSpec (rcObj r)))) = Inr ClientSideApplier \<and>
     (\<exists>b. baseFor (rcObj r) = Inr b) \<and> (\<exists>ps. decodePriorValues (csPriorValues (rcStatus r)) = Inr ps) \<and>
     unwithdrawn (requestFor target r cn) cn"

text \<open>The record it leaves: the one of an apply to the live object alone.\<close>

definition entryOf :: "jmap \<Rightarrow> Target \<Rightarrow> contributorRecord \<Rightarrow> Contribution \<Rightarrow> ContributorStatus" where
  "entryOf live target r cn =
     appliedRecord (rcStatus r) cn (csaResult False False live cn (base_priors (requestFor target r cn) cn live))"

lemma capturePriors_cong:
  "(\<And>p. p \<in> set ps \<Longrightarrow> Get (JObj live) p = Get (JObj live') p) \<Longrightarrow>
     capturePriors live contribution ps priors = capturePriors live' contribution ps priors"
  unfolding capturePriors_def by (rule fold_cong) (auto simp: capturePrior_def fun_eq_iff)

lemma appliedRecord_result: "appliedRecord rec cn (csaResult a ch live cn priors) = appliedRecord rec cn (csaResult False False live' cn priors)"
  by (simp add: appliedRecord_def csaResult_def)

lemma entryOf_cong:
  assumes "\<And>p. p \<in> set (cnPaths cn) \<Longrightarrow> Get (JObj live) p = Get (JObj live') p"
  shows "entryOf live target r cn = entryOf live' target r cn"
  using capturePriors_cong[of "cnPaths cn" live live'] assms appliedRecord_result[of "rcStatus r" cn False False live _ live']
  by (simp add: entryOf_def base_priors_def)

lemma recordApplied_update:
  "recordApplied env r cn base (csaResult False ch live cn priors) ls = State_Monad.return
     (Next (addRecord (appliedRecord (rcStatus r) cn (csaResult False False live cn priors))
       (ls\<lparr>lpTracker := updStatus (observeLive (Some live)) (lpTracker ls)\<rparr>)))"
  by (simp add: recordApplied_def csaResult_def appliedRecord_def Let_def)

lemma not_contested: "iter [] = [] \<Longrightarrow> isSupersededOn iter r active [] = None"
  by (simp add: isSupersededOn_def split: option.split)

lemma apply_joins:
  assumes "teClient env = mem_client" and "teNewFor env = None" and "teIter env [] = []"
    and "joins env target r cn" and "written_once (teSha env) cn live = Some x" and "mwTarget w = Some live"
  shows "\<exists>obs. run_state (applyContributor env target active [] (r, cn) ls) w =
    (Next (addRecord (entryOf live target r cn) (ls\<lparr>lpTracker := updStatus (observeLive (Some obs)) (lpTracker ls)\<rparr>)), w\<lparr>mwTarget := Some x\<rparr>)"
proof -
  note j = assms(4)[unfolded joins_def]
  obtain b priors where bp: "baseFor (rcObj r) = Inr b" "decodePriorValues (csPriorValues (rcStatus r)) = Inr priors" using j by blast
  let ?req = "requestFor target r cn"
  have cn: "rqContribution ?req = Some cn" by (simp add: requestFor_def applyRequest_def Let_def)
  have unw: "unwithdrawn ?req cn" using j by blast
  obtain changed where "run_state (csaUpdate (teSha env) mem_client ?req cn live) w =
      (Inr (csaResult False changed x cn (base_priors ?req cn live)), w\<lparr>mwTarget := Some x\<rparr>)"
    using update_corrects[OF unw written_once_corrected[OF assms(5)] assms(6)] by blast
  moreover have "run_state (clGet mem_client g) w = (Inr live, w)" for g using assms(6) by (simp add: mem_client_def)
  ultimately have "run_state (applierApply (teSha env) ClientSideApplier mem_client ?req) w =
      (Inr (csaResult False changed x cn (base_priors ?req cn live)), w\<lparr>mwTarget := Some x\<rparr>)"
    by (simp add: applierApply_def csaApply_def cn)
  moreover have "reConflict (csaResult a ch y cn ps) = None" for a ch y ps by (simp add: csaResult_def)
  ultimately have "run_state (applyContributor env target active [] (r, cn) ls) w =
      run_state (recordApplied env r cn b (csaResult False changed x cn (base_priors ?req cn live)) ls) (w\<lparr>mwTarget := Some x\<rparr>)"
    using assms(1-3) j bp
    by (simp add: applyContributor_def Let_def applierFor_def not_contested applyResult_def requestFor_def)
  then show ?thesis
    using appliedRecord_result[of "rcStatus r" cn False False x _ live]
    by (intro exI[of _ x]) (simp add: recordApplied_update entryOf_def)
qed

lemma loop_joins:
  assumes "teClient env = mem_client" and "teNewFor env = None" and "teIter env [] = []"
    and "list_all2 (joins env target) rs cns" and "fits_together cns live" and "written (teSha env) cns live = Some x"
    and "mwTarget w = Some live"
  shows "\<exists>t. run_state (applyLoop env target active [] (zip rs cns) ls) w =
      (Next (ls\<lparr>lpTracker := t, lpRecords := lpRecords ls @ map2 (entryOf live target) rs cns\<rparr>), w\<lparr>mwTarget := Some x\<rparr>) \<and>
    tkMeta t = tkMeta (lpTracker ls) \<and> tkCluster t = tkCluster (lpTracker ls) \<and> ssPromotedTo (tkStatus t) = ssPromotedTo (tkStatus (lpTracker ls))"
  using assms(4-7)
proof (induction rs cns arbitrary: live w ls rule: list_all2_induct)
  case Nil
  then show ?case by (intro exI[of _ "lpTracker ls"]) simp
next
  case (Cons r rs c cns)
  from Cons.prems(2) obtain y where y: "written_once (teSha env) c live = Some y" "written (teSha env) cns y = Some x"
    by (auto simp: bind_eq_Some_conv)
  obtain obs where run: "run_state (applyContributor env target active [] (r, c) ls) w =
      (Next (addRecord (entryOf live target r c) (ls\<lparr>lpTracker := updStatus (observeLive (Some obs)) (lpTracker ls)\<rparr>)), w\<lparr>mwTarget := Some y\<rparr>)"
    using apply_joins[OF assms(1-3) Cons.hyps(1) y(1) Cons.prems(3)] by blast
  note fits = Cons.prems(1)[unfolded fits_together_Cons]
  have same: "map2 (entryOf y target) rs cns = map2 (entryOf live target) rs cns"
  proof (rule map_cong[OF refl])
    fix rc assume "rc \<in> set (zip rs cns)"
    then have c': "snd rc \<in> set cns" by (metis prod.collapse set_zip_rightD)
    have "Get (JObj y) p = Get (JObj live) p" if p: "p \<in> set (cnPaths (snd rc))" for p
    proof -
      have "p \<in> set (claimed cns)" using p c' by (auto simp: claimed_def)
      then have "Matches (JObj y) p = Matches (JObj live) p" using written_once_facts(3)[OF _ y(1)] fits by blast
      moreover have "list_all addr_seg p" using claims_good(1)[of cns live] fits c' p by blast
      ultimately show ?thesis by (simp add: Get_Matches)
    qed
    then show "(case rc of (r, c) \<Rightarrow> entryOf y target r c) = (case rc of (r, c) \<Rightarrow> entryOf live target r c)"
      using entryOf_cong[of "snd rc" y live] by (cases rc) simp
  qed
  let ?ls = "addRecord (entryOf live target r c) (ls\<lparr>lpTracker := updStatus (observeLive (Some obs)) (lpTracker ls)\<rparr>)"
  obtain t where "run_state (applyLoop env target active [] (zip rs cns) ?ls) (w\<lparr>mwTarget := Some y\<rparr>) =
      (Next (?ls\<lparr>lpTracker := t, lpRecords := lpRecords ?ls @ map2 (entryOf y target) rs cns\<rparr>), w\<lparr>mwTarget := Some x\<rparr>)"
    "tkMeta t = tkMeta (lpTracker ?ls)" "tkCluster t = tkCluster (lpTracker ?ls)" "ssPromotedTo (tkStatus t) = ssPromotedTo (tkStatus (lpTracker ?ls))"
    using Cons.IH[OF fits_together_keeps[OF Cons.prems(1) y(1)] y(2), of "w\<lparr>mwTarget := Some y\<rparr>" ?ls] by auto
  with run show ?case
    by (intro exI[of _ t]) (simp add: same addRecord_def)
qed

section \<open>Disjoint claims are not contested\<close>

lemma disjoint_irrefl: "\<not> disjoint p p"
  by (induction p) (auto simp: disjoint_seg_def)

lemma claimed_apart:
  assumes "apart (claimed cs)" and "i < length cs" and "j < length cs" and "i \<noteq> j"
    and "p \<in> set (cnPaths (cs ! i))" and "q \<in> set (cnPaths (cs ! j))"
  shows "disjoint p q"
  using assms
proof (induction cs arbitrary: i j)
  case (Cons c cs)
  have rest: "r \<in> set (claimed cs)" if "r \<in> set (cnPaths (cs ! k))" "k < length cs" for r k
    using that by (auto simp: claimed_def)
  show ?case
  proof (cases i)
    case 0
    then obtain j' where j': "j = Suc j'" "j' < length cs" using Cons.prems(3,4) by (cases j) auto
    then show ?thesis using 0 Cons.prems(1,5,6) rest[of q j'] by (auto simp: apart_append)
  next
    case (Suc i')
    show ?thesis
    proof (cases j)
      case 0
      then show ?thesis using Suc Cons.prems(1,2,5,6) rest[of p i'] by (auto simp: apart_append)
    next
      case (Suc j')
      then show ?thesis using \<open>i = Suc i'\<close> Cons.IH[of i' j'] Cons.prems by (auto simp: apart_append)
    qed
  qed
qed simp

lemma no_conflicts:
  assumes "fits_together cns live"
  shows "detectPathConflicts sha cns = []"
proof (rule ccontr)
  assume "detectPathConflicts sha cns \<noteq> []"
  then obtain s cl where "(s, cl) \<in> set (detectPathConflicts sha cns)" by (cases "detectPathConflicts sha cns") fastforce+
  then obtain i j p q where ij: "i < length cns" "j < length cns" "p \<in> set (cnPaths (cns ! i))" "q \<in> set (cnPaths (cns ! j))"
    "PathString p = s" "PathString q = s" "valueHash sha (cns ! i) p \<noteq> valueHash sha (cns ! j) q"
    using detect_conflicts_exact[of s sha cns] by blast
  have "printable p" "printable q" using claims_good(3)[OF assms] ij nth_mem by blast+
  then have "p = q" using ij(5,6) Parse_PathString_aux[of p] Parse_PathString_aux[of q] by simp
  moreover have "disjoint p q" if "i \<noteq> j"
    using claimed_apart[OF _ ij(1,2) that ij(3,4)] assms by (simp add: fits_together_def)
  ultimately show False using disjoint_irrefl ij(7) by (cases "i = j") auto
qed

section \<open>A pass\<close>

lemma renderAll_joins: "list_all2 (joins env target) rs cns \<Longrightarrow> renderAll env rs target = Inr cns"
  by (induction rule: list_all2_induct) (simp_all add: joins_def)

lemma applyActive_joins:
  assumes "teClient env = mem_client" and "teNewFor env = None" and "teIter env [] = []"
    and "mwTrackers w = [t]" and "\<not> IsFenced (tkStatus t)"
    and "list_all2 (joins env target) rs cns" and "fits_together cns live" and "written (teSha env) cns live = Some x"
    and "mwTarget w = Some live"
  shows "\<exists>t'. run_state (applyActive env t rs target) w = (Inr done_result, w\<lparr>mwTarget := Some x, mwTrackers := [t']\<rparr>) \<and>
    kept t t' \<and> \<not> IsFenced (tkStatus t') \<and> ssContributors (tkStatus t') = map2 (entryOf live target) rs cns"
proof -
  let ?ls = "\<lparr>lpTracker = t, lpRecords = [], lpConflicts = [], lpAnyConflict = False, lpTargetExists = True\<rparr>"
  let ?w = "w\<lparr>mwTarget := Some x\<rparr>"
  obtain t1 where t1: "run_state (applyLoop env target rs [] (zip rs cns) ?ls) w =
      (Next (?ls\<lparr>lpTracker := t1, lpRecords := lpRecords ?ls @ map2 (entryOf live target) rs cns\<rparr>), ?w)"
    "tkMeta t1 = tkMeta t" "tkCluster t1 = tkCluster t" "ssPromotedTo (tkStatus t1) = ssPromotedTo (tkStatus t)"
    using loop_joins[OF assms(1-3,6-9), of rs ?ls] by auto
  define ls where "ls = ?ls\<lparr>lpTracker := t1, lpRecords := map2 (entryOf live target) rs cns\<rparr>"
  have loop: "run_state (applyLoop env target rs [] (zip rs cns) ?ls) w = (Next ls, ?w)" using t1(1) by (simp add: ls_def)
  let ?t2 = "updStatus (verdict (teNow env) ls) (lpTracker ls)"
  have "mwTrackers ?w = [t]" "tkMeta ?t2 = tkMeta t" "tkCluster ?t2 = tkCluster t" using t1(2,3) assms(4) by (simp_all add: ls_def)
  then obtain t' where t': "run_state (writeStatus mem_client ?t2 (Some (lpRecords ls)) (lpConflicts ls)) ?w = ((None, t'), ?w\<lparr>mwTrackers := [t']\<rparr>)"
    "t' = bumpTracker (t\<lparr>tkStatus := carryStatus (Some (lpRecords ls)) (lpConflicts ls) (tkStatus ?t2) (tkStatus ?t2)\<rparr>)"
    using writeStatus_mem[of ?w t ?t2] by auto
  have "run_state (applyActive env t rs target) w = (Inr done_result, ?w\<lparr>mwTrackers := [t']\<rparr>)"
    using assms(1) loop t'(1)
    by (simp add: applyActive_def renderAll_joins[OF assms(6)] no_conflicts[OF assms(7)] withStatus_def done_result_def ls_def del: applyLoop.simps)
  moreover have "kept t t'" unfolding t'(2) by (rule kept_write)
  moreover have "\<not> IsFenced (tkStatus t')" "ssContributors (tkStatus t') = map2 (entryOf live target) rs cns"
    using t1(4) assms(5) unfolding t'(2) by (auto simp: bumpTracker_def IsFenced_def verdict_def ls_def)
  ultimately show ?thesis by auto
qed

lemma pass_joins:
  assumes "teClient env = mem_client" and "teNewFor env = None" and "teIter env [] = []"
    and "mwTrackers w = [t]" and "working t" and "run_state (listContributors env t) w = (Inr rs, w)" and "rs \<noteq> []"
    and "\<forall>r \<in> set rs. omDeletionTimestamp (coMeta (rcObj r)) = None"
    and "list_all2 (joins env (renderTarget t)) rs cns" and "fits_together cns live" and "written (teSha env) cns live = Some x"
    and "mwTarget w = Some live"
  shows "\<exists>t'. trackerPass env t w = (Inr done_result, w\<lparr>mwTarget := Some x, mwTrackers := [t']\<rparr>) \<and>
    kept t t' \<and> \<not> IsFenced (tkStatus t') \<and> ssContributors (tkStatus t') = map2 (entryOf live (renderTarget t)) rs cns"
proof -
  have unfenced: "\<not> IsFenced (tkStatus t)" using assms(5) by (simp add: working_def)
  have "splitReleasing rs = ([], rs)" using assms(8) by (auto simp: splitReleasing_def filter_empty_conv filter_id_conv)
  then have "run_state (reconcileContributions env t rs) w = run_state (applyActive env t rs (renderTarget t)) w"
    by (simp add: reconcileContributions_def Let_def)
  moreover have "run_state (kcGetTracker mem_client (tkCluster t) (omNamespace (tkMeta t)) (omName (tkMeta t))) w = (Inr t, w)"
    by (rule get_only[OF assms(4)]) (simp add: sameTracker_def)
  ultimately have "trackerPass env t w = run_state (applyActive env t rs (renderTarget t)) w"
    using assms(1,5-7) by (simp add: ReconcileTracker_def working_def)
  with applyActive_joins[OF assms(1-4) unfenced assms(9-12)] show ?thesis by metis
qed

section \<open>At rest\<close>

text \<open>The contributors of one tracker: each could be there alone, and no two are taken for one.\<close>

definition sharing :: "System \<Rightarrow> Tracker \<Rightarrow> Contributor list \<Rightarrow> bool" where
  "sharing sy m cs \<longleftrightarrow> cs \<noteq> [] \<and> distinct (map refKey cs) \<and> teIter (syTracker sy) [] = [] \<and>
     list_all (\<lambda>c. staying sy c \<and> madeTracker (ceSha (syContributor sy)) c = m) cs \<and>
     pairwise (\<lambda>c c'. \<not> SameContributor (ContributorRefOf c) (ContributorRefOf c')) (set cs)"

definition readied :: "Contributor \<Rightarrow> ResourcePatchStatus \<Rightarrow> bool" where
  "readied c st \<longleftrightarrow> conditionIs st ''Ready'' ConditionTrue \<and> psAppliedGeneration st = omGeneration (coMeta c)"

text \<open>
  All of them are on record, as \<open>E\<close> says, none would write to the target \<open>x\<close>, and the ones of \<open>D\<close> have been reported Ready.
\<close>

definition noted :: "System \<Rightarrow> Tracker \<Rightarrow> jmap \<Rightarrow> (Contributor \<Rightarrow> Contribution) \<Rightarrow> (Contributor \<Rightarrow> ContributorStatus) \<Rightarrow> Contributor \<Rightarrow> bool" where
  "noted sy m x CN E c \<longleftrightarrow> (\<exists>base priors. on_record (syTracker sy) m c (CN c) base priors (E c)) \<and>
     written_once (teSha (syTracker sy)) (CN c) x = Some x"

definition resting ::
  "System \<Rightarrow> Tracker \<Rightarrow> jmap \<Rightarrow> (Contributor \<Rightarrow> ContributorStatus) \<Rightarrow> Contributor list \<Rightarrow> Contributor set \<Rightarrow> MemCluster \<Rightarrow> bool" where
  "resting sy m x E cs D w \<longleftrightarrow> mwTarget w = Some x \<and>
     (\<exists>t. mwTrackers w = [t] \<and> kept m t \<and> \<not> IsFenced (tkStatus t) \<and> mset (ssContributors (tkStatus t)) = image_mset E (mset cs)) \<and>
     (\<exists>S. mwPatches w = map (\<lambda>c. c\<lparr>coStatus := S c\<rparr>) cs \<and> (\<forall>c \<in> set cs \<inter> D. readied c (S c)))"

lemma refKey_status [simp]: "refKey (c\<lparr>coStatus := st\<rparr>) = refKey c"
  by (simp add: refKey_def ContributorRefOf_def ContributorKind_def)

lemma onPatch_refKey: "onPatch c p \<Longrightarrow> refKey p = refKey c"
  by (simp add: samePatch_def refKey_def ContributorRefOf_def ContributorKind_def RefString_def)

lemma find_onPatch:
  assumes "distinct (map refKey ps)" and "p \<in> set ps" and "onPatch c p"
  shows "find (onPatch c) ps = Some p"
  using assms
proof (induction ps)
  case (Cons q ps)
  show ?case
  proof (cases "onPatch c q")
    case True
    then have "refKey q = refKey p" using onPatch_refKey Cons.prems(3) by metis
    with Cons.prems(1,2) True show ?thesis by (auto simp: rev_image_eqI)
  next
    case False
    with Cons show ?thesis by auto
  qed
qed simp

lemma found_entry:
  assumes "mset es = image_mset E (mset cs)" and "c \<in> set cs"
    and "pairwise (\<lambda>c c'. \<not> SameContributor (ContributorRefOf c) (ContributorRefOf c')) (set cs)"
    and "\<forall>c \<in> set cs. csPatchRef (E c) = ContributorRefOf c"
  shows "find (\<lambda>e. SameContributor (csPatchRef e) (ContributorRefOf c)) es = Some (E c)"
proof -
  have es: "set es = E ` set cs" using arg_cong[OF assms(1), of set_mset] by simp
  have only: "e = E c" if e: "e \<in> set es" "SameContributor (csPatchRef e) (ContributorRefOf c)" for e
  proof -
    obtain c' where c': "c' \<in> set cs" "e = E c'" using e(1) es by auto
    then have "SameContributor (ContributorRefOf c') (ContributorRefOf c)" using e(2) assms(4) by simp
    then have "c' = c" using assms(2,3) c'(1) by (auto simp: pairwise_def)
    with c' show ?thesis by simp
  qed
  have "SameContributor r r" for r by (simp add: SameContributor_def)
  then have "E c \<in> set es \<and> SameContributor (csPatchRef (E c)) (ContributorRefOf c)" using es assms(2,4) by simp
  then show ?thesis using only
  proof (induction es)
    case (Cons e es)
    then show ?case by (cases "SameContributor (csPatchRef e) (ContributorRefOf c)") auto
  qed simp
qed

lemma listed_map:
  "mset xs = image_mset f (mset ys) \<Longrightarrow> \<exists>ys'. mset ys' = mset ys \<and> xs = map f ys'"
proof (induction xs arbitrary: ys)
  case (Cons x xs)
  from Cons.prems[symmetric] obtain B y where y: "mset ys = add_mset y B" "x = f y" "mset xs = image_mset f B"
    by (auto dest!: msed_map_invR)
  obtain bs where "mset bs = B" using ex_mset by blast
  with Cons.IH[of bs] y obtain ys' where "mset ys' = B" "xs = map f ys'" by auto
  with y show ?case by (intro exI[of _ "y # ys'"]) simp
qed simp

text \<open>Which contributions fit together does not depend on their order.\<close>

lemma fits_together_iff:
  "fits_together cs live \<longleftrightarrow> wf_json (JObj live) \<and> (\<forall>c \<in> set cs. fits_target c live) \<and>
     sorted_wrt (\<lambda>a b. \<forall>p \<in> set (cnPaths a). \<forall>q \<in> set (cnPaths b). disjoint p q \<and> disjoint q p) cs"
proof (induction cs)
  case Nil
  then show ?case by (simp add: fits_together_def)
next
  case (Cons c cs)
  have "fits_together (c # cs) live \<longleftrightarrow> fits_target c live \<and> fits_together cs live \<and>
      (\<forall>b \<in> set cs. \<forall>p \<in> set (cnPaths c). \<forall>q \<in> set (cnPaths b). disjoint p q \<and> disjoint q p)"
    by (auto simp: fits_together_Cons claimed_def)
  with Cons show ?case by (auto simp: fits_target_def)
qed

lemma sorted_wrt_mset:
  assumes "\<And>a b. R a b \<Longrightarrow> R b a" and "mset xs = mset ys" and "sorted_wrt R xs"
  shows "sorted_wrt R ys"
  using assms(2,3)
proof (induction ys arbitrary: xs)
  case (Cons y ys)
  then have "y \<in> set xs" by (metis list.set_intros(1) set_mset_mset)
  then obtain a b where xs: "xs = a @ y # b" by (meson split_list)
  have ab: "mset (a @ b) = mset ys" using Cons.prems(1) xs by simp
  have sorted: "sorted_wrt R (a @ b)" "\<forall>z \<in> set (a @ b). R y z"
    using Cons.prems(2) assms(1) by (auto simp: xs sorted_wrt_append)
  have "set (a @ b) = set ys" using ab by (metis set_mset_mset)
  with sorted(2) Cons.IH[OF ab sorted(1)] show ?case by simp
qed simp

lemma fits_together_mset:
  assumes "mset cs = mset cs'" and "fits_together cs live"
  shows "fits_together cs' live"
proof -
  let ?R = "\<lambda>a b. \<forall>p \<in> set (cnPaths a). \<forall>q \<in> set (cnPaths b). disjoint p q \<and> disjoint q p"
  have "sorted_wrt ?R cs" using assms(2) by (simp add: fits_together_iff)
  then have "sorted_wrt ?R cs'" by (rule sorted_wrt_mset[OF _ assms(1), rotated]) blast
  moreover have "set cs = set cs'" using assms(1) by (rule mset_eq_setD)
  ultimately show ?thesis using assms(2) by (simp add: fits_together_iff)
qed

lemma withStatusOf_map:
  assumes "distinct (map refKey cs)" and "c \<in> set cs"
  shows "withStatusOf c' st (map (\<lambda>c. c\<lparr>coStatus := S c\<rparr>) cs) =
    map (\<lambda>c. c\<lparr>coStatus := (if onPatch c' c then st else S c)\<rparr>) cs"
  by (auto simp: withStatusOf_def samePatch_def)

lemma onPatch_status [simp]: "onPatch c (p\<lparr>coStatus := st\<rparr>) = onPatch c p" "onPatch (c\<lparr>coStatus := st\<rparr>) = onPatch c"
  by (simp_all add: samePatch_def)

lemma sharing_inj:
  assumes "sharing sy m cs" and "c \<in> set cs" and "c' \<in> set cs" and "onPatch c c'"
  shows "c = c'"
  using assms onPatch_refKey[OF assms(4)] by (auto simp: sharing_def distinct_map dest: inj_onD)

section \<open>Staying at rest\<close>

lemma resting_entry:
  assumes "sharing sy m cs" and "\<forall>c \<in> set cs. noted sy m x CN E c" and "c \<in> set cs"
    and "mset (ssContributors st) = image_mset E (mset cs)"
  shows "FindContributor st (ContributorRefOf c) = Some (E c)"
  unfolding FindContributor_def
  by (rule found_entry[OF assms(4,3)]) (use assms(1,2) in \<open>auto simp: sharing_def noted_def on_record_def\<close>)

lemma sharing_indexed:
  assumes "sharing sy m cs" and "c \<in> set cs" and "kept m t"
  shows "contributes t (c\<lparr>coStatus := st\<rparr>)"
proof -
  have c: "staying sy c" "madeTracker (ceSha (syContributor sy)) c = m" using assms(1,2) by (auto simp: sharing_def list_all_iff)
  have "trackerTargetKey t = TargetKeyFor c"
    using c(2) assms(3) madeTracker_fields(4)[of "ceSha (syContributor sy)" c] by (auto simp: kept_def trackerTargetKey_def)
  then have "indexed t (c\<lparr>coStatus := st\<rparr>)"
    by (intro madeTracker_indexed[where lookup = "Some (isNamespacedKind (syContributor sy))" and sha = "ceSha (syContributor sy)"])
      (use c assms(3) same_contribution_facts[OF with_status(1)] in \<open>auto simp: staying_def kept_def\<close>)
  then show ?thesis by (auto simp: indexed_def contributes_def visible_def)
qed

lemma resting_tracker:
  assumes "sharing sy m cs" and "\<forall>c \<in> set cs. noted sy m x CN E c" and "fits_together (map CN cs) x"
    and "resting sy m x E cs D w" and "mwTrackers w = [t]"
  shows "\<exists>w'. trackerPass (syTracker sy) t w = (Inr done_result, w') \<and> resting sy m x E cs D w'"
proof -
  let ?env = "syTracker sy"
  obtain S where w: "mwTarget w = Some x" "kept m t" "\<not> IsFenced (tkStatus t)" "mset (ssContributors (tkStatus t)) = image_mset E (mset cs)"
    "mwPatches w = map (\<lambda>c. c\<lparr>coStatus := S c\<rparr>) cs" "\<forall>c \<in> set cs \<inter> D. readied c (S c)"
    using assms(4,5) unfolding resting_def by auto
  have st: "staying sy c" "madeTracker (ceSha (syContributor sy)) c = m" if "c \<in> set cs" for c
    using assms(1) that by (auto simp: sharing_def list_all_iff)
  have ne: "cs \<noteq> []" using assms(1) by (simp add: sharing_def)
  then obtain c0 where c0: "c0 \<in> set cs" by (cases cs) auto
  have env: "teClient ?env = mem_client" "teNewFor ?env = None" "teIter ?env [] = []"
    using st(1)[OF c0] assms(1) by (auto simp: staying_def sharing_def)
  have target: "renderTarget t = renderTarget m" using w(2) by (simp add: kept_def renderTarget_def)
  let ?rec = "\<lambda>c. recordOf ?env t (c\<lparr>coStatus := S c\<rparr>)"
  have rec: "rcStatus (?rec c) = E c" if "c \<in> set cs" for c
  proof -
    have "recordFor (teSha ?env) c (tkStatus t) = E c"
      using assms(2) that resting_entry[OF assms(1,2) that w(4)] by (auto simp: noted_def on_record_def)
    then show ?thesis by (simp add: recordOf_def with_status)
  qed
  have keys: "distinct (map refKey (mwPatches w))" using assms(1) by (simp add: w(5) sharing_def comp_def)
  have "filter (contributes t) (mwPatches w) = mwPatches w"
    using sharing_indexed[OF assms(1) _ w(2)] by (auto simp: w(5) filter_id_conv)
  then obtain rs where rs: "run_state (listContributors ?env t) w = (Inr rs, w)" "mset rs = image_mset ?rec (mset cs)"
    using list_contributors_listed[OF env(1) keys, of t] by (auto simp: w(5) image_mset.compositionality comp_def)
  obtain cs' where cs': "mset cs' = mset cs" "rs = map ?rec cs'" using listed_map[OF rs(2)] by blast
  have mem: "c \<in> set cs' \<longleftrightarrow> c \<in> set cs" for c using cs'(1) by (metis set_mset_mset)
  have one: "joins ?env (renderTarget t) (?rec c) (CN c) \<and> entryOf x (renderTarget t) (?rec c) (CN c) = E c" if c: "c \<in> set cs" for c
  proof -
    obtain base priors where q: "on_record ?env m c (CN c) base priors (E c)" using assms(2) c unfolding noted_def by blast
    note q' = q[unfolded on_record_def]
    have obj: "coSpec (rcObj (?rec c)) = coSpec c" "baseFor (rcObj (?rec c)) = baseFor c" by (simp_all add: recordOf_def baseFor_def)
    have req: "rqPreviousPaths (requestFor (renderTarget t) (?rec c) (CN c)) = cnPaths (CN c)"
      "rqPriorValues (requestFor (renderTarget t) (?rec c) (CN c)) = priors"
      "rqPriorValuesCaptured (requestFor (renderTarget t) (?rec c) (CN c))"
      using q' by (simp_all add: requestFor_def applyRequest_def Let_def rec[OF c])
    have "joins ?env (renderTarget t) (?rec c) (CN c)"
      unfolding joins_def obj rec[OF c] target unwithdrawn_def req[unfolded target] using q' by auto
    moreover have "entryOf x (renderTarget t) (?rec c) (CN c) = E c"
      using q' req by (simp add: entryOf_def rec[OF c] base_priors_def)
    ultimately show ?thesis ..
  qed
  have "list_all2 (joins ?env (renderTarget t)) rs (map CN cs')"
    using one mem nth_mem[of _ cs'] by (auto simp: cs'(2) list_all2_conv_all_nth simp del: nth_mem)
  moreover have "fits_together (map CN cs') x"
    by (rule fits_together_mset[OF _ assms(3)]) (simp add: cs'(1))
  moreover have "written (teSha ?env) (map CN cs') x = Some x"
    by (rule written_at_rest) (use assms(2) mem in \<open>auto simp: noted_def\<close>)
  moreover have "rs \<noteq> []" using cs' ne by auto
  moreover have "\<forall>r \<in> set rs. omDeletionTimestamp (coMeta (rcObj r)) = None"
    using st(1) mem by (auto simp: cs'(2) recordOf_def staying_def)
  moreover have "working t" using w(2,3) st(2)[OF c0] kept_working[OF w(2)] madeTracker_fields[of "ceSha (syContributor sy)" c0]
    by (auto simp: working_def IsFenced_def no_status_def)
  ultimately obtain t' where t': "trackerPass ?env t w = (Inr done_result, w\<lparr>mwTarget := Some x, mwTrackers := [t']\<rparr>)" "kept t t'"
    "\<not> IsFenced (tkStatus t')" "ssContributors (tkStatus t') = map2 (entryOf x (renderTarget t)) rs (map CN cs')"
    using pass_joins[OF env assms(5) _ rs(1), of "map CN cs'" x x] w(1) by auto
  have "map2 (entryOf x (renderTarget t)) rs (map CN cs') = map E cs'"
    using one mem by (auto simp: cs'(2) zip_map_map zip_same_conv_map)
  then have "mset (ssContributors (tkStatus t')) = image_mset E (mset cs)" using t'(4) cs'(1) by simp
  with t' w kept_trans[OF w(2) t'(2)] show ?thesis unfolding resting_def by auto
qed

lemma sharing_facts:
  assumes "sharing sy m cs" and "kept m t"
  shows "teClient (syTracker sy) = mem_client" and "plain (syContributor sy)" and "omDeletionTimestamp (tkMeta t) = None"
proof -
  obtain c where "c \<in> set cs" "staying sy c" "madeTracker (ceSha (syContributor sy)) c = m"
    using assms(1) by (cases cs) (auto simp: sharing_def)
  then show "teClient (syTracker sy) = mem_client" "plain (syContributor sy)" "omDeletionTimestamp (tkMeta t) = None"
    using assms(2) by (auto simp: staying_def kept_def)
qed

lemma resting_contributor:
  assumes "sharing sy m cs" and "\<forall>c \<in> set cs. noted sy m x CN E c" and "resting sy m x E cs D w" and "c \<in> set cs"
  shows "\<exists>w'. contributorPass (syContributor sy) c w = (Inr (requeueAfter 0), w') \<and> resting sy m x E cs (insert c D) w'"
proof -
  let ?env = "syContributor sy"
  obtain t S where w: "mwTarget w = Some x" "mwTrackers w = [t]" "kept m t" "\<not> IsFenced (tkStatus t)"
    "mset (ssContributors (tkStatus t)) = image_mset E (mset cs)"
    "mwPatches w = map (\<lambda>c. c\<lparr>coStatus := S c\<rparr>) cs" "\<forall>c \<in> set cs \<inter> D. readied c (S c)"
    using assms(3) unfolding resting_def by auto
  have st: "staying sy c" "madeTracker (ceSha ?env) c = m" using assms(1,4) by (auto simp: sharing_def list_all_iff)
  let ?p = "c\<lparr>coStatus := S c\<rparr>"
  note same = same_contribution_facts[OF with_status(1)[of c "S c"]]
  have keys: "distinct (map refKey (mwPatches w))" using assms(1) by (simp add: w(6) sharing_def comp_def)
  have "find (onPatch c) (mwPatches w) = Some ?p"
    by (rule find_onPatch[OF keys]) (use assms(4) in \<open>auto simp: w(6) samePatch_def\<close>)
  then have "contributorPass ?env ?p w =
      (Inr (requeueAfter 0), w\<lparr>mwTrackers := [t], mwPatches := withStatusOf ?p (reported ?env t ?p) (mwPatches w)\<rparr>)"
    by (intro contributor_reports) (use st w(2-4) kept_id[OF w(3)] same in \<open>simp_all add: staying_def\<close>)
  moreover have "w\<lparr>mwTrackers := [t]\<rparr> = w" by (simp flip: w(2))
  ultimately have "contributorPass ?env ?p w = (Inr (requeueAfter 0), w\<lparr>mwPatches := withStatusOf ?p (reported ?env t ?p) (mwPatches w)\<rparr>)"
    by simp
  then have pass: "contributorPass ?env c w = (Inr (requeueAfter 0), w\<lparr>mwPatches := withStatusOf ?p (reported ?env t ?p) (mwPatches w)\<rparr>)"
    by simp
  have entry: "FindContributor (tkStatus t) (ContributorRefOf c) = Some (E c)" by (rule resting_entry[OF assms(1,2,4) w(5)])
  have "csState (E c) = ContributorStateApplied" using assms(2,4) by (auto simp: noted_def on_record_def)
  then have ready: "readied c (reported ?env t ?p)"
    using reported_applied[of t ?p "E c" ?env] entry same(5) by (simp add: readied_def)
  let ?S = "\<lambda>c'. if onPatch c c' then reported ?env t ?p else S c'"
  have "withStatusOf ?p (reported ?env t ?p) (mwPatches w) = map (\<lambda>c. c\<lparr>coStatus := ?S c\<rparr>) cs"
    using withStatusOf_map[of cs c ?p "reported ?env t ?p" S] assms(1,4) by (simp add: w(6) sharing_def)
  moreover have "readied c' (?S c')" if "c' \<in> set cs \<inter> insert c D" for c'
  proof (cases "onPatch c c'")
    case True
    then have "c' = c" using sharing_inj[OF assms(1,4)] that by blast
    with ready True show ?thesis by simp
  next
    case False
    then have "c' \<in> set cs \<inter> D" using that by (auto simp: samePatch_def)
    with w(7) False show ?thesis by simp
  qed
  ultimately have "resting sy m x E cs (insert c D) (w\<lparr>mwPatches := withStatusOf ?p (reported ?env t ?p) (mwPatches w)\<rparr>)"
    using w unfolding resting_def by (auto intro!: exI[of _ ?S])
  with pass show ?thesis by blast
qed

lemma resting_mono: "resting sy m x E cs D w \<Longrightarrow> D' \<subseteq> D \<Longrightarrow> resting sy m x E cs D' w"
  unfolding resting_def by blast

lemma resting_step:
  assumes "step sy (w, Q) a (w', Q')" and "sharing sy m cs" and "\<forall>c \<in> set cs. noted sy m x CN E c" and "fits_together (map CN cs) x"
    and "resting sy m x E cs D w"
  shows "resting sy m x E cs (D \<union> {c. a = patchPass c}) w'"
proof -
  obtain t S where w: "mwTarget w = Some x" "mwTrackers w = [t]" "kept m t" "mwPatches w = map (\<lambda>c. c\<lparr>coStatus := S c\<rparr>) cs"
    using assms(5) unfolding resting_def by auto
  note facts = sharing_facts[OF assms(2) w(3)]
  have st: "staying sy c" if "c \<in> set cs" for c using assms(2) that by (auto simp: sharing_def list_all_iff)
  from assms(1) show ?thesis
  proof cases
    case collects
    have "collect w = w" using st facts(3) w by (cases w) (auto simp: collect_def filter_id_conv staying_def)
    with collects assms(5) show ?thesis by simp
  next
    case (pass sv rq r)
    show ?thesis
    proof (cases sv)
      case (ServesTracker b)
      have none: "{c. a = patchPass c} = {}" using pass(1) ServesTracker by auto
      show ?thesis
      proof (cases "sameTracker b (fst rq) (snd rq) t")
        case True
        then have "serve sy sv rq = ReconcileTracker (syTracker sy) (tkCluster t) (omNamespace (tkMeta t)) (omName (tkMeta t))"
          by (simp add: serve_def ServesTracker sameTracker_def)
        with resting_tracker[OF assms(2-5) w(2)] pass(4) none show ?thesis by auto
      next
        case False
        then have "run_state (serve sy sv rq) w = (Inr done_result, w)"
          using facts(1) w(2) by (simp add: serve_def ServesTracker ReconcileTracker_def mem_client_def orDone_def IgnoreNotFound_def)
        with pass(4) assms(5) none show ?thesis by simp
      qed
    next
      case (ServesContributor b)
      show ?thesis
      proof (cases "\<exists>c \<in> set cs. samePatch b (fst rq) (snd rq) c")
        case True
        then obtain c where c: "c \<in> set cs" "samePatch b (fst rq) (snd rq) c" by blast
        then have srv: "serve sy sv rq = ReconcileContributor (syContributor sy) (coCluster c) (coNamespace c) (coName c)"
          by (simp add: serve_def ServesContributor samePatch_def)
        have "c' = c" if "a = patchPass c'" "c' \<in> set cs" for c'
          by (rule sharing_inj[OF assms(2) that(2) c(1)])
            (use that(1) pass(1) c(2) in \<open>auto simp: ServesContributor objRequest_def samePatch_def\<close>)
        moreover obtain w1 where "contributorPass (syContributor sy) c w = (Inr (requeueAfter 0), w1)" "resting sy m x E cs (insert c D) w1"
          using resting_contributor[OF assms(2,3,5) c(1)] by blast
        ultimately show ?thesis using pass(4) srv unfolding resting_def by auto
      next
        case False
        then have "find (samePatch b (fst rq) (snd rq)) (mwPatches w) = None"
          by (auto simp: w(4) find_None_iff samePatch_def)
        then have "run_state (kcGetPatch mem_client b (fst rq) (snd rq)) w = (Inl (NewNotFound ''patches'' (snd rq)), w)"
          by (simp add: mem_client_def)
        then have "run_state (serve sy sv rq) w = (Inr done_result, w)"
          using facts(2) by (simp add: serve_def ServesContributor ReconcileContributor_def IgnoreNotFound_def plain_def)
        moreover have "a \<noteq> patchPass c'" if "c' \<in> set cs" for c'
          using False that pass(1) by (auto simp: ServesContributor objRequest_def samePatch_def)
        ultimately show ?thesis using pass(4) assms(5) unfolding resting_def by auto
      qed
    qed
  qed
qed

lemma resting_run:
  assumes "run sy (w, Q) as (w', Q')" and "sharing sy m cs" and "\<forall>c \<in> set cs. noted sy m x CN E c" and "fits_together (map CN cs) x"
    and "resting sy m x E cs D w"
  shows "resting sy m x E cs (D \<union> {c. patchPass c \<in> set as}) w'"
  using assms(1,5)
proof (induction "(w, Q)" as "(w', Q')" arbitrary: w Q D rule: run.induct)
  case stop
  then show ?case by simp
next
  case (go a s' as)
  obtain w1 Q1 where s': "s' = (w1, Q1)" by fastforce
  have "resting sy m x E cs (D \<union> {c. a = patchPass c}) w1"
    using resting_step[OF go.hyps(1)[unfolded s'] assms(2-4) go.prems] .
  from go.hyps(3)[OF s' this] show ?case by (rule resting_mono) auto
qed

section \<open>All of them land\<close>

lemma entry_on_record:
  assumes "joins env (renderTarget t) (recordOf env t c) cn" and "list_all printable (cnPaths cn)" and "renderTarget t = renderTarget m"
  shows "\<exists>base priors. on_record env m c cn base priors (entryOf live (renderTarget t) (recordOf env t c) cn)"
proof -
  let ?r = "recordOf env t c"
  let ?entry = "entryOf live (renderTarget t) ?r cn" and ?priors = "base_priors (requestFor (renderTarget t) ?r cn) cn live"
  have obj: "rcObj ?r = c" by (simp add: recordOf_def)
  note j = assms(1)[unfolded joins_def obj]
  obtain base where base: "baseFor c = Inr base" using j by blast
  obtain ps where ps: "decodePriorValues (encodePriorValues ?priors) = Inr ps" "encodePriorValues ps = encodePriorValues ?priors"
    using priors_stored by blast
  have entry: "csOwnedPaths ?entry = PathStrings (cnPaths cn)" "csPriorValues ?entry = encodePriorValues ?priors"
    "csPriorValuesCaptured ?entry" "csState ?entry = ContributorStateApplied"
    "appliedRecord ?entry cn (csaResult False ch y cn ps) = ?entry" for ch y
    by (simp_all add: entryOf_def appliedRecord_def csaResult_def Let_def ps(2))
  have ref: "csPatchRef ?entry = ContributorRefOf c"
    by (simp add: entryOf_def appliedRecord_def recordOf_def recordFor_def Let_def split: option.split)
  have again: "recordFor (teSha env) c st = ?entry" if "FindContributor st (ContributorRefOf c) = Some ?entry" for st
    using recordFor_again[of st c "teSha env" "tkStatus t" cn "csaResult False False live cn ?priors"] that
    by (simp add: entryOf_def recordOf_def)
  have parsed: "ParsePaths (csOwnedPaths ?entry) = Inr (cnPaths cn)" unfolding entry(1) by (rule paths_stored[OF assms(2)])
  have "on_record env m c cn base ps ?entry"
    unfolding on_record_def using j base ref entry(2-5) ps(1) again parsed assms(3) by simp
  then show ?thesis by blast
qed


text \<open>A sample: two patches of one ConfigMap, each with a value of its own.\<close>

definition sharing_patch :: "string \<Rightarrow> string \<Rightarrow> string \<Rightarrow> Contributor" where
  "sharing_patch name key v =
     (let c = sample_contributor name 100 ConflictPolicyFail v; s = coSpec c
      in c\<lparr>coMeta := AddFinalizer ContributorFinalizer (coMeta c),
           coSpec := s\<lparr>rsPatch := (rsPatch s)\<lparr>psValue := Some (RawJson (JObj [(''data'', JObj [(key, JStr v)])]))\<rparr>\<rparr>\<rparr>)"

definition sharing_patches :: "Contributor list" where
  "sharing_patches = [sharing_patch ''p'' ''a'' ''1'', sharing_patch ''q'' ''c'' ''2'']"

definition shared_live :: jmap where
  "shared_live = [(''data'', JObj [(''a'', JStr ''old''), (''b'', JStr ''kept'')])]"

definition shared_result :: jmap where
  "shared_result = [(''data'', JObj [(''a'', JStr ''1''), (''b'', JStr ''kept''), (''c'', JStr ''2'')])]"

definition sharing_contribution :: "Contributor \<Rightarrow> Contribution" where
  "sharing_contribution c =
     (case Render (teSha mem_env) (teJsonpatch mem_env) (rsPatch (coSpec c)) (renderTarget (madeTracker (\<lambda>s. s) c)) of
        Inl e \<Rightarrow> landing_contribution | Inr cn \<Rightarrow> cn)"

definition sharing_tracker :: Tracker where
  "sharing_tracker = madeTracker (\<lambda>s. s) (sharing_patch ''p'' ''a'' ''1'')"

definition sharing_cluster :: MemCluster where
  "sharing_cluster = \<lparr>mwTarget = Some shared_live, mwTrackers = [sharing_tracker], mwPatches = sharing_patches\<rparr>"

definition joins_sample :: "Contributor \<Rightarrow> bool" where
  "joins_sample c \<longleftrightarrow>
     (let r = recordOf mem_env sharing_tracker c; cn = sharing_contribution c; target = renderTarget sharing_tracker
      in Render (teSha mem_env) (teJsonpatch mem_env) (rsPatch (coSpec c)) target = Inr cn \<and>
        For (asMode (rsApply (coSpec c))) = Inr ClientSideApplier \<and> baseFor c = Inr None \<and>
        decodePriorValues (csPriorValues (rcStatus r)) = Inr [] \<and> unwithdrawn (requestFor target r cn) cn)"

lemma joins_sampled: "joins_sample c \<Longrightarrow> joins mem_env (renderTarget sharing_tracker) (recordOf mem_env sharing_tracker c) (sharing_contribution c)"
  by (simp add: joins_sample_def joins_def Let_def recordOf_def)

lemma sharing_sample: "sharing mem_system sharing_tracker sharing_patches"
proof -
  let ?ok = "\<lambda>c. Validate c (Some (isNamespacedKind (mem_contributor_env None))) = [] \<and> omDeletionTimestamp (coMeta c) = None \<and>
    ContainsFinalizer (coMeta c) ContributorFinalizer \<and> targetMode (coSpec c) = TargetModeSingle \<and> madeTracker (\<lambda>s. s) c = sharing_tracker"
  have each: "list_all ?ok sharing_patches" by code_simp
  have keys: "distinct (map refKey sharing_patches)" "sharing_patches \<noteq> []"
    "list_all (\<lambda>c. list_all (\<lambda>d. c = d \<or> \<not> SameContributor (ContributorRefOf c) (ContributorRefOf d)) sharing_patches) sharing_patches"
    by code_simp+
  have "teClient mem_env = mem_client" "teNewFor mem_env = None" "teIter mem_env [] = []" "plain (mem_contributor_env None)"
    "ceSha (mem_contributor_env None) = (\<lambda>s. s)"
    by (simp_all add: mem_env_def mem_contributor_env_def plain_def reader_def)
  with each keys show ?thesis
    by (auto simp: sharing_def staying_def mem_system_def list_all_iff pairwise_def)
qed


end
