(* ===== verification/Startup.thy ===== *)
theory Startup
  imports Wiring Webhook
begin

text \<open>
  Starting the operator (\<^verbatim>\<open>cmd/main.go\<close>): the flags, what is built from them, and the order in which the
  manager, the indexes, the controllers, the admission handlers and the health checks are set up. What the
  library and the operating system do is in \<open>Process\<close>, a parameter.
\<close>

section \<open>Flags\<close>

text \<open>The interval is in milliseconds, as in \<open>ContributorEnv\<close>.\<close>

record Flags =
  flMetricsAddr :: string
  flProbeAddr :: string
  flEnableLeaderElection :: bool
  flSecureMetrics :: bool
  flEnableHTTP2 :: bool
  flWebhookPort :: int
  flWebhookCertDir :: string
  flReauthorizeAfter :: int
  flMaxWatchedGVKs :: int
  flDisableWebhooks :: bool
  flShowVersion :: bool

definition defaultFlags :: Flags where
  "defaultFlags =
     \<lparr>flMetricsAddr = ''0'', flProbeAddr = '':8081'', flEnableLeaderElection = False, flSecureMetrics = True,
      flEnableHTTP2 = False, flWebhookPort = 9443, flWebhookCertDir = ''/tmp/k8s-webhook-server/serving-certs'',
      flReauthorizeAfter = 10 * 60 * 1000, flMaxWatchedGVKs = DefaultMaxGVKs, flDisableWebhooks = False, flShowVersion = False\<rparr>"

section \<open>What is built from the flags\<close>

text \<open>The protocols a TLS server offers.\<close>

definition disableHTTP2 :: "bool \<Rightarrow> string list \<Rightarrow> string list" where
  "disableHTTP2 enableHTTP2 nextProtos = (if \<not> enableHTTP2 then [''http/1.1''] else nextProtos)"

record ManagerOptions =
  moWebhookPort :: int
  moWebhookCertDir :: string
  moWebhookTLS :: "string list \<Rightarrow> string list"
  moMetricsAddr :: string
  moSecureMetrics :: bool
  moMetricsTLS :: "string list \<Rightarrow> string list"
  moProbeAddr :: string
  moLeaderElection :: bool
  moLeaderElectionID :: string

definition managerOptions :: "Flags \<Rightarrow> ManagerOptions" where
  "managerOptions fl =
     \<lparr>moWebhookPort = flWebhookPort fl, moWebhookCertDir = flWebhookCertDir fl, moWebhookTLS = disableHTTP2 (flEnableHTTP2 fl),
      moMetricsAddr = flMetricsAddr fl, moSecureMetrics = flSecureMetrics fl, moMetricsTLS = disableHTTP2 (flEnableHTTP2 fl),
      moProbeAddr = flProbeAddr fl, moLeaderElection = flEnableLeaderElection fl,
      moLeaderElectionID = ''patch-operator.terasky.com''\<rparr>"

text \<open>
  The reconcilers: a contributor reconciler re-checks with the authorizer of the webhooks at the interval
  given, both tracker reconcilers share one impersonation factory and one manager of target watches, made with
  no kind disabled.
\<close>

datatype Reconciler = ContributorReconciler bool int | TrackerReconciler bool Manager

definition contributorReconciler :: "Flags \<Rightarrow> bool \<Rightarrow> Reconciler" where
  "contributorReconciler fl cluster = ContributorReconciler cluster (flReauthorizeAfter fl)"

definition trackerReconciler :: "Flags \<Rightarrow> bool \<Rightarrow> Reconciler" where
  "trackerReconciler fl cluster = TrackerReconciler cluster (NewManager (flMaxWatchedGVKs fl) [])"

text \<open>The admission handlers, by the kind their \<^verbatim>\<open>New\<close> makes.\<close>

datatype Handler = ValidatorFor bool | RecorderFor bool

section \<open>The process\<close>

text \<open>
  How the process ends: \<open>main\<close> returns, or \<^verbatim>\<open>os.Exit\<close> with a status after an error was logged with a
  message and its key-values.
\<close>

datatype Outcome = Returned | Exited nat string "(string \<times> string) list" goerror

text \<open>
  The library and the operating system. \<open>pcGetConfig\<close> is \<^verbatim>\<open>GetConfigOrDie\<close>, which ends the process itself
  when there is no configuration.
\<close>

record 'w Process =
  pcPrint :: "string \<Rightarrow> ('w, unit) state"
  pcGetConfig :: "('w, Outcome option) state"
  pcNewManager :: "ManagerOptions \<Rightarrow> ('w, unit) io"
  pcIndexField :: "string \<Rightarrow> string \<Rightarrow> (Contributor \<Rightarrow> string list) \<Rightarrow> ('w, unit) io"
  pcBuild :: "Reconciler \<Rightarrow> Controller \<Rightarrow> ('w, unit) io"
  pcRegister :: "string \<Rightarrow> Handler \<Rightarrow> ('w, unit) state"
  pcAddHealthzCheck :: "string \<Rightarrow> ('w, unit) io"
  pcAddReadyzCheck :: "string \<Rightarrow> ('w, unit) io"
  pcStart :: "('w, unit) io"

definition orExit :: "string \<Rightarrow> (string \<times> string) list \<Rightarrow> ('w, unit) io \<Rightarrow> ('w, Outcome) state \<Rightarrow> ('w, Outcome) state" where
  "orExit msg kvs m rest =
     do {
       r \<leftarrow> m;
       case r of Inl e \<Rightarrow> State_Monad.return (Exited 1 msg kvs e) | Inr _ \<Rightarrow> rest
     }"

definition registerWebhooks :: "'w Process \<Rightarrow> ('w, unit) state" where
  "registerWebhooks p =
     do {
       _ \<leftarrow> pcRegister p ''/validate-terasky-com-v1alpha1-resourcepatch'' (ValidatorFor False);
       _ \<leftarrow> pcRegister p ''/validate-terasky-com-v1alpha1-clusterresourcepatch'' (ValidatorFor True);
       _ \<leftarrow> pcRegister p ''/mutate-terasky-com-v1alpha1-resourcepatch'' (RecorderFor False);
       pcRegister p ''/mutate-terasky-com-v1alpha1-clusterresourcepatch'' (RecorderFor True)
     }"

definition trackerSetup :: "'w Process \<Rightarrow> (string \<Rightarrow> string) \<Rightarrow> Flags \<Rightarrow> bool \<Rightarrow> ('w, unit) io" where
  "trackerSetup p sha fl cluster =
     do {
       r \<leftarrow> SetupTracker (pcBuild p (trackerReconciler fl cluster)) sha cluster;
       State_Monad.return (fst r)
     }"

definition contributorSetup :: "'w Process \<Rightarrow> Flags \<Rightarrow> bool \<Rightarrow> ('w, unit) io" where
  "contributorSetup p fl cluster = SetupContributor (pcBuild p (contributorReconciler fl cluster)) cluster"

definition run_main :: "'w Process \<Rightarrow> (string \<Rightarrow> string) \<Rightarrow> string \<Rightarrow> Flags \<Rightarrow> ('w, Outcome) state" where
  "run_main p sha version fl =
     (if flShowVersion fl then do { _ \<leftarrow> pcPrint p version; State_Monad.return Returned }
      else
        do {
          died \<leftarrow> pcGetConfig p;
          case died of
            Some out \<Rightarrow> State_Monad.return out
          | None \<Rightarrow>
              orExit ''unable to start manager'' [] (pcNewManager p (managerOptions fl))
             (orExit ''unable to set up field indexes'' [] (SetupIndexes (pcIndexField p))
             (orExit ''unable to create controller'' [(''controller'', ''ResourcePatch'')] (contributorSetup p fl False)
             (orExit ''unable to create controller'' [(''controller'', ''ClusterResourcePatch'')] (contributorSetup p fl True)
             (orExit ''unable to create controller'' [(''controller'', ''SharedResource'')] (trackerSetup p sha fl False)
             (orExit ''unable to create controller'' [(''controller'', ''ClusterSharedResource'')] (trackerSetup p sha fl True)
               (do {
                  _ \<leftarrow> (if \<not> flDisableWebhooks fl then registerWebhooks p else State_Monad.return ());
                  orExit ''unable to set up health check'' [] (pcAddHealthzCheck p ''healthz'')
                 (orExit ''unable to set up ready check'' [] (pcAddReadyzCheck p ''readyz'')
                 (orExit ''problem running manager'' [] (pcStart p) (State_Monad.return Returned)))
                }))))))
        })"

section \<open>What starting promises\<close>

text \<open>The calls of a process that records them, each with the error it answers with, if any.\<close>

datatype Call =
    PrintCall string
  | ConfigCall
  | NewManagerCall ManagerOptions
  | IndexCall string string
  | BuildCall Reconciler string
  | RegisterCall string Handler
  | HealthzCall string
  | ReadyzCall string
  | StartCall

definition answers :: "(Call \<Rightarrow> goerror option) \<Rightarrow> Call \<Rightarrow> (Call list, unit) io" where
  "answers fails c = State (\<lambda>cs. ((case fails c of Some e \<Rightarrow> Inl e | None \<Rightarrow> Inr ()), cs @ [c]))"

definition recorded :: "Call \<Rightarrow> (Call list, unit) state" where
  "recorded c = State (\<lambda>cs. ((), cs @ [c]))"

definition scripted :: "(Call \<Rightarrow> goerror option) \<Rightarrow> Call list Process" where
  "scripted fails =
     \<lparr>pcPrint = \<lambda>s. recorded (PrintCall s),
      pcGetConfig = State (\<lambda>cs. (map_option (Exited 1 '''' []) (fails ConfigCall), cs @ [ConfigCall])),
      pcNewManager = \<lambda>o'. answers fails (NewManagerCall o'),
      pcIndexField = \<lambda>k i f. answers fails (IndexCall k i), pcBuild = \<lambda>r c. answers fails (BuildCall r (ctName c)),
      pcRegister = \<lambda>path h. recorded (RegisterCall path h), pcAddHealthzCheck = \<lambda>n. answers fails (HealthzCall n),
      pcAddReadyzCheck = \<lambda>n. answers fails (ReadyzCall n), pcStart = answers fails StartCall\<rparr>"

definition setupCalls :: "(string \<Rightarrow> string) \<Rightarrow> Flags \<Rightarrow> Call list" where
  "setupCalls sha fl =
     [ConfigCall, NewManagerCall (managerOptions fl), IndexCall KindResourcePatch TargetKeyIndex, IndexCall KindClusterResourcePatch TargetKeyIndex] @
     map (\<lambda>b. BuildCall (contributorReconciler fl b) (ctName (contributorController b))) [False, True] @
     map (\<lambda>b. BuildCall (trackerReconciler fl b) (ctName (trackerController sha b))) [False, True]"

definition webhookCalls :: "Call list" where
  "webhookCalls =
     [RegisterCall ''/validate-terasky-com-v1alpha1-resourcepatch'' (ValidatorFor False),
      RegisterCall ''/validate-terasky-com-v1alpha1-clusterresourcepatch'' (ValidatorFor True),
      RegisterCall ''/mutate-terasky-com-v1alpha1-resourcepatch'' (RecorderFor False),
      RegisterCall ''/mutate-terasky-com-v1alpha1-clusterresourcepatch'' (RecorderFor True)]"

lemma orExit_answers:
  "run_state (orExit msg kvs (answers fails c) rest) cs =
     (case fails c of Some e \<Rightarrow> (Exited 1 msg kvs e, cs @ [c]) | None \<Rightarrow> run_state rest (cs @ [c]))"
  by (simp add: orExit_def answers_def split: option.split)

lemma orExit_indexes:
  "run_state (orExit msg kvs (SetupIndexes (pcIndexField (scripted fails))) rest) cs =
     (let c1 = IndexCall KindResourcePatch TargetKeyIndex; c2 = IndexCall KindClusterResourcePatch TargetKeyIndex
      in case fails c1 of
           Some e \<Rightarrow> (Exited 1 msg kvs (Errorw ''indexing ResourcePatch by target key: %w'' [] e), cs @ [c1])
         | None \<Rightarrow>
             (case fails c2 of
                Some e \<Rightarrow> (Exited 1 msg kvs (Errorw ''indexing ClusterResourcePatch by target key: %w'' [] e), cs @ [c1, c2])
              | None \<Rightarrow> run_state rest (cs @ [c1, c2])))"
  by (simp add: orExit_def SetupIndexes_def scripted_def answers_def Let_def split: option.split)

lemma orExit_setup:
  "run_state (orExit msg kvs (contributorSetup (scripted fails) fl b) rest) cs =
     run_state (orExit msg kvs (answers fails (BuildCall (contributorReconciler fl b) (ctName (contributorController b)))) rest) cs"
  "run_state (orExit msg kvs (trackerSetup (scripted fails) sha fl b) rest) cs =
     run_state (orExit msg kvs (answers fails (BuildCall (trackerReconciler fl b) (ctName (trackerController sha b)))) rest) cs"
  by (simp_all add: orExit_def contributorSetup_def SetupContributor_def trackerSetup_def SetupTracker_def scripted_def answers_def
      split: option.split)

lemma run_webhooks:
  "run_state (registerWebhooks (scripted fails)) cs = ((), cs @ webhookCalls)"
  by (simp add: registerWebhooks_def scripted_def recorded_def webhookCalls_def)

lemma scripted_calls:
  "pcGetConfig (scripted fails) = State (\<lambda>cs. (map_option (Exited 1 '''' []) (fails ConfigCall), cs @ [ConfigCall]))"
  "pcNewManager (scripted fails) = (\<lambda>o'. answers fails (NewManagerCall o'))"
  "pcAddHealthzCheck (scripted fails) = (\<lambda>n. answers fails (HealthzCall n))"
  "pcAddReadyzCheck (scripted fails) = (\<lambda>n. answers fails (ReadyzCall n))"
  "pcStart (scripted fails) = answers fails StartCall"
  by (simp_all add: scripted_def)

lemmas startup_runs = scripted_calls orExit_indexes orExit_setup orExit_answers run_webhooks

text \<open>The calls of a start in their order, up to the last.\<close>

definition beforeStart :: "(string \<Rightarrow> string) \<Rightarrow> Flags \<Rightarrow> Call list" where
  "beforeStart sha fl =
     setupCalls sha fl @ (if flDisableWebhooks fl then [] else webhookCalls) @ [HealthzCall ''healthz'', ReadyzCall ''readyz'']"

fun canFail :: "Call \<Rightarrow> bool" where
  "canFail (PrintCall _) = False"
| "canFail (RegisterCall _ _) = False"
| "canFail _ = True"

text \<open>
  C10. The operator starts whole or not at all. The manager is started only as the last call, after the indexes,
  the four controllers and the health checks were set up without an error and, unless the flag disables
  them, the four admission handlers were registered; when a call fails it is the last, the process exits with status 1 and
  the manager is not started; and with the flag \<^verbatim>\<open>--version\<close> nothing but the version is printed.
\<close>

theorem startup_fails_closed:
  assumes "run_state (run_main (scripted fails) sha v fl) [] = (out, calls)"
  shows "(flShowVersion fl \<longrightarrow> out = Returned \<and> calls = [PrintCall v]) \<and>
    (\<not> flShowVersion fl \<longrightarrow>
       (StartCall \<in> set calls \<longrightarrow> calls = beforeStart sha fl @ [StartCall] \<and> (\<forall>c \<in> set (beforeStart sha fl). canFail c \<longrightarrow> fails c = None)) \<and>
       (out = Returned \<longleftrightarrow> StartCall \<in> set calls \<and> fails StartCall = None) \<and>
       (out \<noteq> Returned \<longrightarrow> (\<exists>msg kvs e. out = Exited 1 msg kvs e) \<and> canFail (last calls) \<and> fails (last calls) \<noteq> None))"
proof (cases "flShowVersion fl")
  case True
  with assms show ?thesis by (auto simp: run_main_def scripted_def recorded_def)
next
  case False
  note d = setupCalls_def beforeStart_def
  have w: "StartCall \<notin> set webhookCalls" "\<forall>c \<in> set webhookCalls. \<not> canFail c"
    by (simp_all add: webhookCalls_def)
  show ?thesis
    using assms False w
    by (auto simp: run_main_def startup_runs d Let_def split: option.splits if_splits)
qed


text \<open>
  Witness for C1: with the defaults the webhooks are served before the manager starts, and when the controller of
  \<^verbatim>\<open>SharedResource\<close> cannot be built there is no start and no webhook.
\<close>

definition noFailure :: "Call \<Rightarrow> goerror option" where
  "noFailure _ = None"

definition failsTracker :: "Call \<Rightarrow> goerror option" where
  "failsTracker c = (case c of BuildCall (TrackerReconciler False _) _ \<Rightarrow> Some (Errorf ''boom'' []) | _ \<Rightarrow> None)"

theorem startup_fails_closed_witness:
  "map (\<lambda>(out, calls). (out = Returned, calls = beforeStart id defaultFlags @ [StartCall], canFail (last calls)))
     [run_state (run_main (scripted noFailure) id ''dev'' defaultFlags) [],
      run_state (run_main (scripted failsTracker) id ''dev'' defaultFlags) []] =
   [(True, True, True), (False, False, True)]"
proof -
  note d = run_main_def startup_runs Let_def setupCalls_def beforeStart_def webhookCalls_def
  have a: "run_state (run_main (scripted noFailure) id ''dev'' defaultFlags) [] = (Returned, beforeStart id defaultFlags @ [StartCall])"
    by (simp add: d noFailure_def defaultFlags_def)
  obtain out calls where b: "run_state (run_main (scripted failsTracker) id ''dev'' defaultFlags) [] = (out, calls)" by fastforce
  then have "out \<noteq> Returned" "StartCall \<notin> set calls"
    by (auto simp: d failsTracker_def defaultFlags_def trackerReconciler_def contributorReconciler_def)
  moreover have "\<not> flShowVersion defaultFlags" by (simp add: defaultFlags_def)
  moreover have "calls \<noteq> beforeStart id defaultFlags @ [StartCall]" using \<open>StartCall \<notin> set calls\<close> by auto
  moreover have "canFail (last calls)" using startup_fails_closed[OF b] calculation by blast
  ultimately show ?thesis by (simp add: a b)
qed

end
