(* ===== verification/Registration.thy ===== *)
theory Registration
  imports Startup ServerSide
begin

text \<open>
  What the API declares beside its types: the kinds that the scheme of the operator knows (\<^verbatim>\<open>groupversion_info.go\<close>, \<^verbatim>\<open>init\<close> of
  \<^verbatim>\<open>cmd/main.go\<close>), and the conditions and reasons of a status (\<^verbatim>\<open>common_types.go\<close>), with what the reconcilers publish of them.
\<close>

section \<open>The scheme\<close>

text \<open>
  The library's \<^verbatim>\<open>runtime.Scheme\<close>: a new one, what \<^verbatim>\<open>AddKnownTypes\<close> adds for the names of Go types, what \<^verbatim>\<open>metav1.AddToGroupVersion\<close>
  adds, and client-go's own types, which may fail.
\<close>

record 's SchemeLibrary =
  slNewScheme :: 's
  slAddKnownTypes :: "string \<times> string \<Rightarrow> string list \<Rightarrow> 's \<Rightarrow> 's"
  slAddToGroupVersion :: "string \<times> string \<Rightarrow> 's \<Rightarrow> 's"
  slClientGo :: "'s \<Rightarrow> (goerror, 's) result"

definition GroupVersion :: "string \<times> string" where
  "GroupVersion = (''terasky.com'', ''v1alpha1'')"

definition addKnownTypes :: "'s SchemeLibrary \<Rightarrow> 's \<Rightarrow> (goerror, 's) result" where
  "addKnownTypes sl s =
     Inr (slAddToGroupVersion sl GroupVersion
       (slAddKnownTypes sl GroupVersion
          [''ResourcePatch'', ''ResourcePatchList'', ''ClusterResourcePatch'', ''ClusterResourcePatchList'',
           ''SharedResource'', ''SharedResourceList'', ''ClusterSharedResource'', ''ClusterSharedResourceList''] s))"

text \<open>\<^verbatim>\<open>utilruntime.Must\<close> panics on an error.\<close>

definition must :: "(goerror, 'a) result \<Rightarrow> 'a option" where
  "must r = (case r of Inl e \<Rightarrow> None | Inr x \<Rightarrow> Some x)"

definition initScheme :: "'s SchemeLibrary \<Rightarrow> 's option" where
  "initScheme sl = Option.bind (must (slClientGo sl (slNewScheme sl))) (\<lambda>s. must (addKnownTypes sl s))"

text \<open>
  What is documented of the library, with \<open>known\<close> for the types of a scheme: a name added is known under its group and version, and nothing is forgotten.
  Then the kinds of contributors and trackers are known, with their lists, once \<^verbatim>\<open>init\<close> has returned.
\<close>

definition registers :: "'s SchemeLibrary \<Rightarrow> ('s \<Rightarrow> (string \<times> string) \<times> string \<Rightarrow> bool) \<Rightarrow> bool" where
  "registers sl known \<longleftrightarrow> (\<forall>gv ns n s. n \<in> set ns \<longrightarrow> known (slAddKnownTypes sl gv ns s) (gv, n)) \<and>
     (\<forall>gv s k. known s k \<longrightarrow> known (slAddToGroupVersion sl gv s) k)"

lemma init_knows:
  assumes "registers sl known" and "initScheme sl = Some s"
    and "kind \<in> {KindResourcePatch, KindClusterResourcePatch, KindSharedResource, KindClusterSharedResource}"
  shows "known s (GroupVersion, kind)" and "known s (GroupVersion, kind @ ''List'')"
proof -
  obtain s0 where s: "addKnownTypes sl s0 = Inr s"
    using assms(2) by (auto simp: initScheme_def must_def bind_eq_Some_conv split: sum.splits)
  have "known s (GroupVersion, n)"
    if "n \<in> set [''ResourcePatch'', ''ResourcePatchList'', ''ClusterResourcePatch'', ''ClusterResourcePatchList'',
      ''SharedResource'', ''SharedResourceList'', ''ClusterSharedResource'', ''ClusterSharedResourceList'']" for n
    using s assms(1) that unfolding addKnownTypes_def registers_def by blast
  then show "known s (GroupVersion, kind)" "known s (GroupVersion, kind @ ''List'')"
    using assms(3) by (auto simp: KindResourcePatch_def KindClusterResourcePatch_def KindSharedResource_def KindClusterSharedResource_def)
qed

section \<open>Conditions\<close>

definition conditionTypes :: "string list" where
  "conditionTypes = [''Ready'', ''Synced'', ''TargetFound'', ''Applied'', ''Conflict'', ''Authorized'']"

definition conditionReasons :: "string list" where
  "conditionReasons =
     [''Applied'', ''WaitingForTarget'', ''TargetMissing'', ''Conflict'', ''Superseded'', ''BaseMismatch'', ''ListMergeUnsupported'',
      ''Unauthorized'', ''InvalidSpec'', ''Releasing'', ''Promoting'', ''TargetReplaced'', ''ApplyFailed'', ''TooManyTargets'']"

definition declared :: "Condition list \<Rightarrow> Condition list \<Rightarrow> bool" where
  "declared old new \<longleftrightarrow> cdType ` set new \<subseteq> cdType ` set old \<union> set conditionTypes"

lemma upsert_types: "cdType ` set (upsertCondition conds c) \<subseteq> insert (cdType c) (cdType ` set conds)"
  by (induction conds c rule: upsertCondition.induct) (auto split: if_splits)

lemma SetCondition_types: "cdType ` set (SetCondition now conds (condition ty s reason msg)) \<subseteq> insert ty (cdType ` set conds)"
proof -
  have "cdType ` set (upsertCondition conds c) \<subseteq> insert ty (cdType ` set conds)" if "cdType c = ty" for c
    using upsert_types[of conds c] that by simp
  then show ?thesis by (simp add: SetCondition_def condition_def)
qed

lemma declared_more: "A \<subseteq> insert ty B \<Longrightarrow> ty \<in> T \<Longrightarrow> B \<subseteq> C \<union> T \<Longrightarrow> A \<subseteq> C \<union> T"
  by blast

lemma setCond_declared:
  assumes "ty \<in> set conditionTypes"
  shows "declared conds (psConditions st) \<Longrightarrow> declared conds (psConditions (setCond now ty s reason msg st))"
    and "declared conds (ssConditions tst) \<Longrightarrow> declared conds (ssConditions (setTrackerCond now ty s reason msg tst))"
  unfolding declared_def setCond_def setTrackerCond_def
  using declared_more[OF SetCondition_types assms] by simp_all

lemma declared_refl: "declared conds conds"
  by (simp add: declared_def)

text \<open>Both reconcilers publish conditions of the declared types only.\<close>

lemma published_types:
  "declared (psConditions st) (psConditions (syncedStatus now generation trackers targets tally st))"
  "declared (psConditions st) (psConditions (statusError now reason msg st))"
  "declared (ssConditions tst) (ssConditions (verdict now ls tst))"
  by (auto simp: syncedStatus_def readiness_def statusError_def verdict_def Let_def conditionTypes_def
    intro!: setCond_declared declared_refl)

end
