(* ===== verification/JsonCopy.thy ===== *)
theory JsonCopy
  imports Json
begin

text \<open>
  The copies that \<^verbatim>\<open>render.go\<close> makes of untyped content, on a store in which maps and slices are references. \<open>deepCopyValue\<close> and \<open>deepCopyMap\<close>
  say what a copy reads as; here is what they promise their callers, that nothing is shared with it.
\<close>

section \<open>References\<close>

text \<open>
  A value of type \<^verbatim>\<open>any\<close> with decoded JSON in it: a map refers to its entries, which an iteration finds in any order, a slice to a part of an
  array; anything else is plain.
\<close>

datatype any = Plain json | MapOf nat | SliceOf nat nat nat

datatype cell = Entries "(string \<times> any) list" | Elements "any list"

type_synonym cells = "cell list"

lemma json_sizes: "(k, j) \<in> set m \<Longrightarrow> size j < size (JObj m)" "i < length xs \<Longrightarrow> size (xs ! i) < size (JArr xs)"
proof -
  show "(k, j) \<in> set m \<Longrightarrow> size j < size (JObj m)" by (induction m) auto
  show "i < length xs \<Longrightarrow> size (xs ! i) < size (JArr xs)"
    using size_list_estimation'[OF nth_mem, of i xs "size (xs ! i)" size] by simp
qed

text \<open>\<open>holds h A j v\<close>: the value \<open>v\<close> reads as \<open>j\<close>, through cells of \<open>A\<close> only.\<close>

function holds :: "cells \<Rightarrow> nat set \<Rightarrow> json \<Rightarrow> any \<Rightarrow> bool" where
  "holds h A (JObj m) v =
     (case v of
        MapOf c \<Rightarrow> c \<in> A \<and> c < length h \<and>
          (case h ! c of
             Entries es \<Rightarrow> distinct (map fst es) \<and> set (map fst es) = set (map fst m) \<and>
               (\<forall>(k, j) \<in> set m. case map_of es k of None \<Rightarrow> False | Some u \<Rightarrow> holds h A j u)
           | _ \<Rightarrow> False)
      | _ \<Rightarrow> False)"
| "holds h A (JArr xs) v =
     (case v of
        SliceOf c off n \<Rightarrow> c \<in> A \<and> c < length h \<and> n = length xs \<and>
          (case h ! c of
             Elements es \<Rightarrow> off + n \<le> length es \<and> (\<forall>i \<in> {..<length xs}. holds h A (xs ! i) (es ! (off + i)))
           | _ \<Rightarrow> False)
      | _ \<Rightarrow> False)"
| "holds h A JNull v = (v = Plain JNull)"
| "holds h A (JBool b) v = (v = Plain (JBool b))"
| "holds h A (JInt n) v = (v = Plain (JInt n))"
| "holds h A (JFloat s d e) v = (v = Plain (JFloat s d e))"
| "holds h A (JStr s) v = (v = Plain (JStr s))"
  by pat_completeness auto
termination
  by (relation "measure (\<lambda>(h, A, j, v). size j)") (use json_sizes in auto)

section \<open>The copies\<close>

text \<open>
  \<open>f\<close> copies one value. A map is made, then filled with a copy of each entry; a slice of the same length likewise. The depth of the recursion is bounded by
  \<open>d\<close>, as content may refer to itself; without enough of it there is no result.
\<close>

fun copyEntries :: "(any \<Rightarrow> cells \<Rightarrow> (any \<times> cells) option) \<Rightarrow> nat \<Rightarrow> (string \<times> any) list \<Rightarrow> cells \<Rightarrow> cells option" where
  "copyEntries f out [] h = Some h"
| "copyEntries f out ((k, v) # es) h =
     Option.bind (f v h) (\<lambda>(v', h').
       case h' ! out of
         Entries os \<Rightarrow> copyEntries f out es (h'[out := Entries (aput k v' os)])
       | _ \<Rightarrow> None)"

fun copyElems :: "(any \<Rightarrow> cells \<Rightarrow> (any \<times> cells) option) \<Rightarrow> nat \<Rightarrow> nat \<Rightarrow> any list \<Rightarrow> cells \<Rightarrow> cells option" where
  "copyElems f out i [] h = Some h"
| "copyElems f out i (v # vs) h =
     Option.bind (f v h) (\<lambda>(v', h').
       case h' ! out of
         Elements os \<Rightarrow> copyElems f out (Suc i) vs (h'[out := Elements (os[i := v'])])
       | _ \<Rightarrow> None)"

definition deepCopyMapAt :: "(any \<Rightarrow> cells \<Rightarrow> (any \<times> cells) option) \<Rightarrow> nat \<Rightarrow> cells \<Rightarrow> (any \<times> cells) option" where
  "deepCopyMapAt f c h =
     (if c < length h then
        (case h ! c of
           Entries es \<Rightarrow> map_option (Pair (MapOf (length h))) (copyEntries f (length h) es (h @ [Entries []]))
         | _ \<Rightarrow> None)
      else None)"

definition copySliceAt :: "(any \<Rightarrow> cells \<Rightarrow> (any \<times> cells) option) \<Rightarrow> nat \<Rightarrow> nat \<Rightarrow> nat \<Rightarrow> cells \<Rightarrow> (any \<times> cells) option" where
  "copySliceAt f c off n h =
     (if c < length h then
        (case h ! c of
           Elements es \<Rightarrow> if off + n \<le> length es
             then map_option (Pair (SliceOf (length h) 0 n))
               (copyElems f (length h) 0 (take n (drop off es)) (h @ [Elements (replicate n (Plain JNull))]))
             else None
         | _ \<Rightarrow> None)
      else None)"

primrec deepCopyValueAt :: "nat \<Rightarrow> any \<Rightarrow> cells \<Rightarrow> (any \<times> cells) option" where
  "deepCopyValueAt 0 v h = None"
| "deepCopyValueAt (Suc d) v h =
     (case v of
        MapOf c \<Rightarrow> deepCopyMapAt (deepCopyValueAt d) c h
      | SliceOf c off n \<Rightarrow> copySliceAt (deepCopyValueAt d) c off n h
      | Plain _ \<Rightarrow> Some (v, h))"

text \<open>What the package exports.\<close>

definition DeepCopyMap :: "nat \<Rightarrow> nat \<Rightarrow> cells \<Rightarrow> (any \<times> cells) option" where
  "DeepCopyMap d c h = deepCopyMapAt (deepCopyValueAt d) c h"

definition DeepCopyValue :: "nat \<Rightarrow> any \<Rightarrow> cells \<Rightarrow> (any \<times> cells) option" where
  "DeepCopyValue d v h = deepCopyValueAt d v h"

section \<open>What they promise\<close>

lemma holds_frame:
  assumes "holds h A j v" and "A \<subseteq> B" and "\<forall>a \<in> A. a < length h \<longrightarrow> a < length h' \<and> h' ! a = h ! a"
  shows "holds h' B j v"
  using assms(1)
proof (induction j arbitrary: v rule: json_induct)
  case (JArr xs)
  then show ?case using assms(2,3) by (fastforce split: any.splits cell.splits)
next
  case (JObj m)
  then show ?case using assms(2,3) by (fastforce split: any.splits cell.splits option.splits)
qed simp_all

text \<open>A copier that returns a copy through new cells of what reads as one of \<open>js\<close>.\<close>

definition copies_any :: "json set \<Rightarrow> (any \<Rightarrow> cells \<Rightarrow> (any \<times> cells) option) \<Rightarrow> bool" where
  "copies_any js f \<longleftrightarrow> (\<forall>h A j v. j \<in> js \<and> holds h A j v \<and> A \<subseteq> {..<length h} \<longrightarrow>
     (\<exists>v' new. f v h = Some (v', h @ new) \<and> holds (h @ new) {length h..<length (h @ new)} j v'))"

lemma copies_anyD:
  assumes "copies_any js f" and "j \<in> js" and "holds h A j v" and "A \<subseteq> {..<length h}"
  obtains v' new where "f v h = Some (v', h @ new)" and "holds (h @ new) {length h..<length (h @ new)} j v'"
  using assms unfolding copies_any_def by blast

lemma filling:
  assumes "holds h A j v" and "A \<subseteq> {..<n}" and "n \<le> length h"
  shows "holds (h[n := c] @ new) A j v"
  by (rule holds_frame[OF assms(1) subset_refl]) (use assms(2,3) in \<open>auto simp: nth_append nth_list_update\<close>)

lemma filled_stays:
  assumes "holds h {n<..<length h} j v"
  shows "holds (h[n := c] @ new) {n<..<length (h @ new)} j v"
  by (rule holds_frame[OF assms]) (auto simp: nth_append nth_list_update)

lemma copyEntries_copies:
  assumes "copies_any js f" and "\<forall>(k, u) \<in> set es. \<exists>j \<in> js. val k = Some j \<and> holds h A j u" and "A \<subseteq> {..<out}"
    and "out < length h" and "h ! out = Entries os" and "akeys_ok os" and "distinct (map fst es)"
    and "\<forall>k u. map_of os k = Some u \<longrightarrow> (\<exists>j. val k = Some j \<and> holds h {out<..<length h} j u)"
  shows "\<exists>os' new. copyEntries f out es h = Some (h[out := Entries os'] @ new) \<and> akeys_ok os' \<and>
    fst ` set os' = fst ` set os \<union> fst ` set es \<and>
    (\<forall>k u. map_of os' k = Some u \<longrightarrow>
      (\<exists>j. val k = Some j \<and> holds (h[out := Entries os'] @ new) {out<..<length (h @ new)} j u))"
  using assms(2-)
proof (induction es arbitrary: h os)
  case Nil
  have "h[out := Entries os] = h" using Nil.prems(4) by (simp add: list_update_same_conv Nil.prems(3))
  with Nil show ?case by (intro exI[of _ os] exI[of _ "[]"]) simp
next
  case (Cons e es)
  obtain k u where e: "e = (k, u)" by (cases e)
  obtain j where j: "j \<in> js" "val k = Some j" "holds h A j u" using Cons.prems(1) by (auto simp: e)
  have A: "A \<subseteq> {..<length h}" using Cons.prems(2,3) by auto
  obtain v' new where v': "f u h = Some (v', h @ new)" "holds (h @ new) {length h..<length (h @ new)} j v'"
    by (rule copies_anyD[OF assms(1) j(1,3) A])
  let ?os = "aput k v' os"
  let ?h = "h[out := Entries ?os] @ new"
  have up: "(h @ new)[out := Entries ?os] = ?h" using Cons.prems(3) by (simp add: list_update_append)
  have v'h: "holds ?h {out<..<length ?h} j v'"
    by (rule holds_frame[OF v'(2)]) (use Cons.prems(3) in \<open>auto simp: nth_append nth_list_update\<close>)
  have ih: "\<exists>os' new'. copyEntries f out es ?h = Some (?h[out := Entries os'] @ new') \<and> akeys_ok os' \<and>
    fst ` set os' = fst ` set ?os \<union> fst ` set es \<and>
    (\<forall>k u. map_of os' k = Some u \<longrightarrow> (\<exists>j. val k = Some j \<and> holds (?h[out := Entries os'] @ new') {out<..<length (?h @ new')} j u))"
  proof (rule Cons.IH)
    show "\<forall>(k, u) \<in> set es. \<exists>j \<in> js. val k = Some j \<and> holds ?h A j u"
    proof (clarify)
      fix l w assume "(l, w) \<in> set es"
      then obtain i where i: "i \<in> js" "val l = Some i" "holds h A i w" using Cons.prems(1) by auto
      have "holds ?h A i w" by (rule filling[OF i(3) Cons.prems(2)]) (use Cons.prems(3) in simp)
      with i(1,2) show "\<exists>j \<in> js. val l = Some j \<and> holds ?h A j w" by blast
    qed
    show "A \<subseteq> {..<out}" by (rule Cons.prems(2))
    show "out < length ?h" "?h ! out = Entries ?os" using Cons.prems(3) by (simp_all add: nth_append)
    show "akeys_ok ?os" using Cons.prems(5) by (rule akeys_ok_aput)
    show "distinct (map fst es)" using Cons.prems(6) by simp
    show "\<forall>k u. map_of ?os k = Some u \<longrightarrow> (\<exists>j. val k = Some j \<and> holds ?h {out<..<length ?h} j u)"
    proof (intro allI impI)
      fix l w assume l: "map_of ?os l = Some w"
      show "\<exists>j. val l = Some j \<and> holds ?h {out<..<length ?h} j w"
      proof (cases "l = k")
        case True
        then show ?thesis using l j(2) v'h by (simp add: map_of_aput)
      next
        case False
        then obtain i where "val l = Some i" "holds h {out<..<length h} i w" using l Cons.prems(7) by (auto simp: map_of_aput)
        then show ?thesis using filled_stays[of h out i w] by auto
      qed
    qed
  qed
  obtain os' new' where r: "copyEntries f out es ?h = Some (?h[out := Entries os'] @ new')" "akeys_ok os'"
    "fst ` set os' = fst ` set ?os \<union> fst ` set es"
    "\<forall>k u. map_of os' k = Some u \<longrightarrow> (\<exists>j. val k = Some j \<and> holds (?h[out := Entries os'] @ new') {out<..<length (?h @ new')} j u)"
    using ih by (elim exE conjE) (rule that; assumption)
  have eq: "?h[out := Entries os'] @ new' = h[out := Entries os'] @ (new @ new')" using Cons.prems(3) by (simp add: list_update_append)
  have "copyEntries f out (e # es) h = Some (h[out := Entries os'] @ (new @ new'))"
    using v'(1) r(1) Cons.prems(3,4) up eq by (simp add: e nth_append)
  moreover have "fst ` set os' = fst ` set os \<union> fst ` set (e # es)" using r(3) by (auto simp: e set_keys_aput)
  ultimately show ?case using r(2,4) unfolding eq by (intro exI[of _ os'] exI[of _ "new @ new'"]) (simp del: list_update_append)
qed

lemma copyElems_copies:
  assumes "copies_any js f" and "set xs \<subseteq> js" and "i + length vs = length xs" and "\<forall>m < length vs. holds h A (xs ! (i + m)) (vs ! m)"
    and "A \<subseteq> {..<out}" and "out < length h" and "h ! out = Elements os" and "length os = length xs"
    and "\<forall>m < i. holds h {out<..<length h} (xs ! m) (os ! m)"
  shows "\<exists>os' new. copyElems f out i vs h = Some (h[out := Elements os'] @ new) \<and> length os' = length xs \<and>
    (\<forall>m < length xs. holds (h[out := Elements os'] @ new) {out<..<length (h @ new)} (xs ! m) (os' ! m))"
  using assms(3-)
proof (induction vs arbitrary: i h os)
  case Nil
  have "h[out := Elements os] = h" using Nil.prems(5) by (simp add: list_update_same_conv Nil.prems(4))
  with Nil show ?case by (intro exI[of _ os] exI[of _ "[]"]) simp
next
  case (Cons u vs)
  have i: "i < length xs" using Cons.prems(1) by simp
  have j: "xs ! i \<in> js" using i assms(2) by (meson nth_mem subsetD)
  have u: "holds h A (xs ! i) u" using Cons.prems(2) by (auto dest: spec[of _ 0])
  have A: "A \<subseteq> {..<length h}" using Cons.prems(3,4) by auto
  obtain v' new where v': "f u h = Some (v', h @ new)" "holds (h @ new) {length h..<length (h @ new)} (xs ! i) v'"
    by (rule copies_anyD[OF assms(1) j u A])
  let ?os = "os[i := v']"
  let ?h = "h[out := Elements ?os] @ new"
  have up: "(h @ new)[out := Elements ?os] = ?h" using Cons.prems(4) by (simp add: list_update_append)
  have v'h: "holds ?h {out<..<length ?h} (xs ! i) v'"
    by (rule holds_frame[OF v'(2)]) (use Cons.prems(4) in \<open>auto simp: nth_append nth_list_update\<close>)
  have ih: "\<exists>os' new'. copyElems f out (Suc i) vs ?h = Some (?h[out := Elements os'] @ new') \<and> length os' = length xs \<and>
    (\<forall>m < length xs. holds (?h[out := Elements os'] @ new') {out<..<length (?h @ new')} (xs ! m) (os' ! m))"
  proof (rule Cons.IH)
    show "Suc i + length vs = length xs" using Cons.prems(1) by simp
    show "\<forall>m < length vs. holds ?h A (xs ! (Suc i + m)) (vs ! m)"
    proof (intro allI impI)
      fix m assume m: "m < length vs"
      have "holds h A (xs ! (Suc i + m)) (vs ! m)" using spec[OF Cons.prems(2), of "Suc m"] m by simp
      then show "holds ?h A (xs ! (Suc i + m)) (vs ! m)" by (rule filling[OF _ Cons.prems(3)]) (use Cons.prems(4) in simp)
    qed
    show "A \<subseteq> {..<out}" by (rule Cons.prems(3))
    show "out < length ?h" "?h ! out = Elements ?os" using Cons.prems(4) by (simp_all add: nth_append)
    show "length ?os = length xs" using Cons.prems(6) by simp
    show "\<forall>m < Suc i. holds ?h {out<..<length ?h} (xs ! m) (?os ! m)"
    proof (intro allI impI)
      fix m assume m: "m < Suc i"
      show "holds ?h {out<..<length ?h} (xs ! m) (?os ! m)"
      proof (cases "m = i")
        case True
        then show ?thesis using v'h i Cons.prems(6) by simp
      next
        case False
        with m have "holds h {out<..<length h} (xs ! m) (os ! m)" using Cons.prems(7) by simp
        from filled_stays[OF this, of "Elements ?os" new] show ?thesis using False by simp
      qed
    qed
  qed
  obtain os' new' where r: "copyElems f out (Suc i) vs ?h = Some (?h[out := Elements os'] @ new')" "length os' = length xs"
    "\<forall>m < length xs. holds (?h[out := Elements os'] @ new') {out<..<length (?h @ new')} (xs ! m) (os' ! m)"
    using ih by (elim exE conjE) (rule that; assumption)
  have eq: "?h[out := Elements os'] @ new' = h[out := Elements os'] @ (new @ new')" using Cons.prems(4) by (simp add: list_update_append)
  have "copyElems f out i (u # vs) h = Some (h[out := Elements os'] @ (new @ new'))"
    using v'(1) r(1) Cons.prems(4,5) up eq by (simp add: nth_append)
  then show ?case using r(2,3) unfolding eq by (intro exI[of _ os'] exI[of _ "new @ new'"]) (simp del: list_update_append)
qed

lemma deepCopyMapAt_copies:
  assumes "copies_any (snd ` set m) f" and "distinct (map fst m)" and "holds h A (JObj m) (MapOf c)" and "A \<subseteq> {..<length h}"
  shows "\<exists>v' new. deepCopyMapAt f c h = Some (v', h @ new) \<and> holds (h @ new) {length h..<length (h @ new)} (JObj m) v'"
proof -
  obtain es where es: "c \<in> A" "c < length h" "h ! c = Entries es" "distinct (map fst es)" "fst ` set es = fst ` set m"
    and each: "\<And>k j. (k, j) \<in> set m \<Longrightarrow> \<exists>u. map_of es k = Some u \<and> holds h A j u"
    using assms(3) by (fastforce split: cell.splits option.splits)
  let ?h = "h @ [Entries []]"
  have entries: "\<forall>(k, u) \<in> set es. \<exists>j \<in> snd ` set m. map_of m k = Some j \<and> holds ?h A j u"
  proof (clarify)
    fix k u assume ku: "(k, u) \<in> set es"
    then have "k \<in> fst ` set m" unfolding es(5)[symmetric] by (force intro: image_eqI)
    then obtain j where j: "(k, j) \<in> set m" by auto
    then obtain w where "map_of es k = Some w" "holds h A j w" using each by blast
    moreover have "map_of es k = Some u" using ku es(4) by simp
    ultimately have "holds h A j u" by simp
    then have "holds ?h A j u" by (rule holds_frame) (auto simp: nth_append)
    moreover have "map_of m k = Some j" using j assms(2) by simp
    ultimately show "\<exists>j \<in> snd ` set m. map_of m k = Some j \<and> holds ?h A j u" using j by force
  qed
  have run: "\<exists>os' new. copyEntries f (length h) es ?h = Some (?h[length h := Entries os'] @ new) \<and> akeys_ok os' \<and>
    fst ` set os' = fst ` set ([] :: (string \<times> any) list) \<union> fst ` set es \<and>
    (\<forall>k u. map_of os' k = Some u \<longrightarrow>
      (\<exists>j. map_of m k = Some j \<and> holds (?h[length h := Entries os'] @ new) {length h<..<length (?h @ new)} j u))"
    by (rule copyEntries_copies[OF assms(1) entries assms(4)]) (use es(4) in \<open>simp_all add: akeys_ok_def\<close>)
  obtain os' new where r: "copyEntries f (length h) es ?h = Some (?h[length h := Entries os'] @ new)" "akeys_ok os'"
    "fst ` set os' = fst ` set ([] :: (string \<times> any) list) \<union> fst ` set es"
    "\<forall>k u. map_of os' k = Some u \<longrightarrow>
      (\<exists>j. map_of m k = Some j \<and> holds (?h[length h := Entries os'] @ new) {length h<..<length (?h @ new)} j u)"
    using run by (elim exE conjE) (rule that; assumption)
  let ?new = "Entries os' # new"
  have h': "?h[length h := Entries os'] @ new = h @ ?new" by simp
  have "\<exists>u. map_of os' k = Some u \<and> holds (h @ ?new) {length h..<length (h @ ?new)} j u" if "(k, j) \<in> set m" for k j
  proof -
    have "k \<in> fst ` set os'" using that r(3) es(5) by force
    then obtain u where u: "map_of os' k = Some u" by (metis map_of_eq_None_iff not_None_eq)
    obtain i where i: "map_of m k = Some i" "holds (h @ ?new) {length h<..<length (?h @ new)} i u" using r(4) u unfolding h' by blast
    have "i = j" using i(1) that assms(2) by simp
    moreover have "holds (h @ ?new) {length h..<length (h @ ?new)} i u" by (rule holds_frame[OF i(2)]) auto
    ultimately show ?thesis using u by blast
  qed
  moreover have "distinct (map fst os')" using r(2) by (simp add: akeys_ok_def strict_sorted_iff)
  moreover have "set (map fst os') = set (map fst m)" using r(3) es(5) by simp
  ultimately have "holds (h @ ?new) {length h..<length (h @ ?new)} (JObj m) (MapOf (length h))"
    by (fastforce simp: nth_append)
  moreover have "deepCopyMapAt f c h = Some (MapOf (length h), h @ ?new)"
    using es(2,3) r(1) unfolding h' by (simp add: deepCopyMapAt_def)
  ultimately show ?thesis by blast
qed

lemma copySliceAt_copies:
  assumes "copies_any (set xs) f" and "holds h A (JArr xs) (SliceOf c off n)" and "A \<subseteq> {..<length h}"
  shows "\<exists>v' new. copySliceAt f c off n h = Some (v', h @ new) \<and> holds (h @ new) {length h..<length (h @ new)} (JArr xs) v'"
proof -
  obtain es where es: "c \<in> A" "c < length h" "h ! c = Elements es" "n = length xs" "off + n \<le> length es"
    and each: "\<And>i. i < length xs \<Longrightarrow> holds h A (xs ! i) (es ! (off + i))"
    using assms(2) by (auto split: cell.splits)
  let ?zs = "replicate n (Plain JNull)"
  let ?h = "h @ [Elements ?zs]" and ?vs = "take n (drop off es)"
  have len: "length ?vs = n" using es(5) by simp
  have elems: "\<forall>m < length ?vs. holds ?h A (xs ! (0 + m)) (?vs ! m)"
  proof (intro allI impI)
    fix m assume m: "m < length ?vs"
    have "holds h A (xs ! m) (es ! (off + m))" using each m len es(4) by simp
    then have "holds ?h A (xs ! m) (es ! (off + m))" by (rule holds_frame) (auto simp: nth_append)
    then show "holds ?h A (xs ! (0 + m)) (?vs ! m)" using m es(5) by simp
  qed
  have run: "\<exists>os' new. copyElems f (length h) 0 ?vs ?h = Some (?h[length h := Elements os'] @ new) \<and> length os' = length xs \<and>
    (\<forall>m < length xs. holds (?h[length h := Elements os'] @ new) {length h<..<length (?h @ new)} (xs ! m) (os' ! m))"
  proof (rule copyElems_copies[OF assms(1) subset_refl _ elems assms(3)])
    show "0 + length ?vs = length xs" using len es(4) by simp
    show "length ?zs = length xs" by (simp only: length_replicate es(4))
  qed (use len in simp_all)
  obtain os' new where r: "copyElems f (length h) 0 ?vs ?h = Some (?h[length h := Elements os'] @ new)" "length os' = length xs"
    "\<forall>m < length xs. holds (?h[length h := Elements os'] @ new) {length h<..<length (?h @ new)} (xs ! m) (os' ! m)"
    using run by (elim exE conjE) (rule that; assumption)
  let ?new = "Elements os' # new"
  have h': "?h[length h := Elements os'] @ new = h @ ?new" by simp
  have "holds (h @ ?new) {length h..<length (h @ ?new)} (xs ! m) (os' ! m)" if "m < length xs" for m
  proof -
    have "holds (h @ ?new) {length h<..<length (?h @ new)} (xs ! m) (os' ! m)" using r(3) that unfolding h' by blast
    then show ?thesis by (rule holds_frame) auto
  qed
  then have "holds (h @ ?new) {length h..<length (h @ ?new)} (JArr xs) (SliceOf (length h) 0 n)" using r(2) es(4) by (simp add: nth_append)
  moreover have "copySliceAt f c off n h = Some (SliceOf (length h) 0 n, h @ ?new)"
    using es(2,3,5) r(1) unfolding h' by (simp add: copySliceAt_def)
  ultimately show ?thesis by blast
qed

text \<open>The keys of a map are distinct, at every level; the depth of what is copied bounds the recursion.\<close>

function keyed :: "json \<Rightarrow> bool" where
  "keyed (JObj m) = (distinct (map fst m) \<and> (\<forall>(k, j) \<in> set m. keyed j))"
| "keyed (JArr xs) = (\<forall>i \<in> {..<length xs}. keyed (xs ! i))"
| "keyed JNull = True"
| "keyed (JBool b) = True"
| "keyed (JInt n) = True"
| "keyed (JFloat s d e) = True"
| "keyed (JStr s) = True"
  by pat_completeness auto
termination
  by (relation "measure size") (use json_sizes in auto)

lemma deepCopyValueAt_copies: "copies_any {j. keyed j \<and> size j < d} (deepCopyValueAt d)"
proof (induction d)
  case 0
  then show ?case by (simp add: copies_any_def)
next
  case (Suc d)
  show ?case
    unfolding copies_any_def
  proof (intro allI impI, elim conjE)
    fix h A j v
    assume j: "j \<in> {j. keyed j \<and> size j < Suc d}" and v: "holds h A j v" and A: "A \<subseteq> {..<length h}"
    have sub: "copies_any js (deepCopyValueAt d)" if "js \<subseteq> {j. keyed j \<and> size j < d}" for js
      using Suc.IH that unfolding copies_any_def by blast
    show "\<exists>v' new. deepCopyValueAt (Suc d) v h = Some (v', h @ new) \<and> holds (h @ new) {length h..<length (h @ new)} j v'"
    proof (cases j)
      case (JObj m)
      obtain c where c: "v = MapOf c" using v by (auto simp: JObj split: any.splits)
      have "snd ` set m \<subseteq> {j. keyed j \<and> size j < d}" using j json_sizes(1)[of _ _ m] by (fastforce simp: JObj)
      from deepCopyMapAt_copies[OF sub[OF this] _ v[unfolded JObj c] A] show ?thesis using j by (simp add: JObj c)
    next
      case (JArr xs)
      obtain c off n where c: "v = SliceOf c off n" using v by (auto simp: JArr split: any.splits)
      have "set xs \<subseteq> {j. keyed j \<and> size j < d}"
        using j json_sizes(2)[of _ xs] by (fastforce simp: JArr in_set_conv_nth)
      from copySliceAt_copies[OF sub[OF this] v[unfolded JArr c] A] show ?thesis by (simp add: JArr c)
    qed (use v in \<open>auto intro!: exI[of _ "[]"]\<close>)
  qed
qed

text \<open>
  C21. The copies of untyped content share nothing with it. What \<^verbatim>\<open>DeepCopyValue\<close> returns, and \<^verbatim>\<open>DeepCopyMap\<close> for a map, reads as what the
  value-level function computes, the content it was given, through new cells only, and what was there before is as it was. So a caller that
  merges into the copy or sets a path of it leaves the original alone, a contribution or an object of the informer cache.
  A recursion as deep as the content is enough.
\<close>

theorem json_copy_independent:
  assumes "keyed j" and "size j \<le> d" and "holds h A j v" and "A \<subseteq> {..<length h}"
  shows "\<exists>v' new. DeepCopyValue (Suc d) v h = Some (v', h @ new) \<and> (\<forall>c. v = MapOf c \<longrightarrow> DeepCopyMap d c h = Some (v', h @ new)) \<and>
    holds (h @ new) {length h..<length (h @ new)} (deepCopyValue j) v' \<and>
    (\<forall>h'. length h \<le> length h' \<longrightarrow> (\<forall>a < length h. h' ! a = h ! a) \<longrightarrow> holds h' A j v)"
proof -
  have "j \<in> {j. keyed j \<and> size j < Suc d}" using assms(1,2) by simp
  then obtain v' new where r: "deepCopyValueAt (Suc d) v h = Some (v', h @ new)" "holds (h @ new) {length h..<length (h @ new)} j v'"
    by (rule copies_anyD[OF deepCopyValueAt_copies _ assms(3,4)])
  have "holds h' A j v" if "length h \<le> length h'" "\<forall>a < length h. h' ! a = h ! a" for h'
    by (rule holds_frame[OF assms(3) subset_refl]) (use that in auto)
  moreover have "\<forall>c. v = MapOf c \<longrightarrow> DeepCopyMap d c h = Some (v', h @ new)" using r(1) by (auto simp: DeepCopyMap_def)
  ultimately show ?thesis using r by (intro exI[of _ v'] exI[of _ new]) (simp add: DeepCopyValue_def del: deepCopyValueAt.simps)
qed

text \<open>A sample: a map with a list in it.\<close>

definition sample_cells :: cells where
  "sample_cells = [Entries [(''b'', SliceOf 1 0 2), (''a'', Plain (JStr ''x''))], Elements [Plain (JInt 1), Plain JNull]]"

definition sample_content :: json where
  "sample_content = JObj [(''a'', JStr ''x''), (''b'', JArr [JInt 1, JNull])]"

text \<open>C21 for a map with a list in it: whatever is written to the copy, the map reads the same.\<close>

theorem json_copy_independent_witness:
  "\<exists>new. DeepCopyMap 20 0 sample_cells = Some (MapOf 2, sample_cells @ new) \<and>
     holds (sample_cells @ new) {2..<2 + length new} sample_content (MapOf 2) \<and>
     holds (sample_cells @ [Entries []]) {0, 1} sample_content (MapOf 0)"
proof -
  have s: "keyed sample_content" "size sample_content \<le> 20" "holds sample_cells {0, 1} sample_content (MapOf 0)"
    "{0, 1} \<subseteq> {..<length sample_cells}" by code_simp+
  obtain v' new where r: "DeepCopyMap 20 0 sample_cells = Some (v', sample_cells @ new)"
    "holds (sample_cells @ new) {length sample_cells..<length (sample_cells @ new)} sample_content v'"
    "\<And>h'. \<lbrakk>length sample_cells \<le> length h'; \<forall>a < length sample_cells. h' ! a = sample_cells ! a\<rbrakk> \<Longrightarrow> holds h' {0, 1} sample_content (MapOf 0)"
    using json_copy_independent[OF s] by auto
  have len: "length sample_cells = 2" by (simp add: sample_cells_def)
  have "map_option fst (DeepCopyMap 20 0 sample_cells) = Some (MapOf 2)" by code_simp
  then have v': "v' = MapOf 2" using r(1) by simp
  have "holds (sample_cells @ [Entries []]) {0, 1} sample_content (MapOf 0)" by (rule r(3)) (auto simp: nth_append)
  then show ?thesis using r(1,2) v' len by auto
qed

end
