(* ===== verification/GoStore.thy ===== *)
theory GoStore
  imports Prelude "HOL-Library.Monad_Syntax"
begin

text \<open>
  Go values that share: a store of cells, pointers and slices into it, and the statements by which a struct is copied. This is where a
  copy differs from an assignment; the rest of the development computes on values, which share nothing.
\<close>

section \<open>Values\<close>

text \<open>
  A location is a cell and a way into it, as \<^verbatim>\<open>&in.Claimants\<close> or \<^verbatim>\<open>&(*out)[i]\<close> is. A slice is a part of an array
  somewhere: the location of the array, the offset and the length. No code here appends to one, so it has no capacity.
\<close>

datatype basic = BString string | BInt int | BBool bool

datatype selector = Fld string | Idx nat

type_synonym loc = "nat \<times> selector list"

datatype val = Basic basic | Struct "(string \<times> val) list" | Array "val list" | NilV | Ptr loc | Slice loc nat nat

type_synonym store = "val list"

abbreviation inside :: "loc \<Rightarrow> selector \<Rightarrow> loc" where
  "inside l d \<equiv> (fst l, snd l @ [d])"

fun part :: "val \<Rightarrow> selector list \<Rightarrow> val option" where
  "part v [] = Some v"
| "part (Struct vs) (Fld f # p) = Option.bind (map_of vs f) (\<lambda>v. part v p)"
| "part (Array vs) (Idx i # p) = (if i < length vs then part (vs ! i) p else None)"
| "part _ _ = None"

fun setField :: "string \<Rightarrow> 'a \<Rightarrow> (string \<times> 'a) list \<Rightarrow> (string \<times> 'a) list" where
  "setField f v [] = []"
| "setField f v ((g, u) # vs) = (if g = f then (g, v) # vs else (g, u) # setField f v vs)"

fun replaceAt :: "val \<Rightarrow> selector list \<Rightarrow> val \<Rightarrow> val option" where
  "replaceAt c [] v = Some v"
| "replaceAt (Struct vs) (Fld f # p) v =
     Option.bind (map_of vs f) (\<lambda>u. map_option (\<lambda>u'. Struct (setField f u' vs)) (replaceAt u p v))"
| "replaceAt (Array vs) (Idx i # p) v =
     (if i < length vs then map_option (\<lambda>u'. Array (vs[i := u'])) (replaceAt (vs ! i) p v) else None)"
| "replaceAt _ _ _ = None"

definition readAt :: "store \<Rightarrow> loc \<Rightarrow> val option" where
  "readAt h l = (if fst l < length h then part (h ! fst l) (snd l) else None)"

definition writeAt :: "store \<Rightarrow> loc \<Rightarrow> val \<Rightarrow> store option" where
  "writeAt h l v = (if fst l < length h then map_option (\<lambda>c. h[fst l := c]) (replaceAt (h ! fst l) (snd l) v) else None)"

section \<open>Types\<close>

text \<open>The part of a Go type that matters to a copy, and its zero value.\<close>

datatype kind = KString | KInt | KBool

datatype gotype = TBasic kind | TStruct "(string \<times> gotype) list" | TPtr gotype | TSlice gotype

fun kindOf :: "basic \<Rightarrow> kind" where
  "kindOf (BString _) = KString"
| "kindOf (BInt _) = KInt"
| "kindOf (BBool _) = KBool"

fun zeroValue :: "gotype \<Rightarrow> val" where
  "zeroValue (TBasic KString) = Basic (BString '''')"
| "zeroValue (TBasic KInt) = Basic (BInt 0)"
| "zeroValue (TBasic KBool) = Basic (BBool False)"
| "zeroValue (TStruct Ts) = Struct (map (\<lambda>(f, T). (f, zeroValue T)) Ts)"
| "zeroValue (TPtr _) = NilV"
| "zeroValue (TSlice _) = NilV"

fun flat :: "gotype \<Rightarrow> bool" where
  "flat (TBasic _) = True"
| "flat (TStruct Ts) = (\<forall>(f, T) \<in> set Ts. flat T)"
| "flat _ = False"

text \<open>What a value reads as, whatever the cells are: \<open>reads h A T v t\<close> says that \<open>v\<close>, of type \<open>T\<close>, reads as \<open>t\<close> through cells of \<open>A\<close> only.\<close>

datatype view = Leaf basic | Node "(string \<times> view) list" | Absent | To view | Items "view list"

fun reads :: "store \<Rightarrow> nat set \<Rightarrow> gotype \<Rightarrow> val \<Rightarrow> view \<Rightarrow> bool" where
  "reads h A (TBasic k) v t = (case v of Basic b \<Rightarrow> kindOf b = k \<and> t = Leaf b | _ \<Rightarrow> False)"
| "reads h A (TStruct Ts) v t =
     (case v of
        Struct vs \<Rightarrow>
          (case t of
             Node ts \<Rightarrow> map fst vs = map fst Ts \<and> map fst ts = map fst Ts \<and>
               (\<forall>(f, T) \<in> set Ts. case map_of vs f of
                  None \<Rightarrow> False
                | Some u \<Rightarrow> (case map_of ts f of None \<Rightarrow> False | Some s \<Rightarrow> reads h A T u s))
           | _ \<Rightarrow> False)
      | _ \<Rightarrow> False)"
| "reads h A (TPtr T) v t =
     (case v of
        NilV \<Rightarrow> t = Absent
      | Ptr l \<Rightarrow> fst l \<in> A \<and>
          (case readAt h l of None \<Rightarrow> False | Some u \<Rightarrow> (case t of To s \<Rightarrow> reads h A T u s | _ \<Rightarrow> False))
      | _ \<Rightarrow> False)"
| "reads h A (TSlice T) v t =
     (case v of
        NilV \<Rightarrow> t = Absent
      | Slice l off n \<Rightarrow> fst l \<in> A \<and>
          (case readAt h l of
             Some (Array vs) \<Rightarrow>
               (case t of
                  Items ts \<Rightarrow> off + n \<le> length vs \<and> length ts = n \<and> (\<forall>i \<in> {..<n}. reads h A T (vs ! (off + i)) (ts ! i))
                | _ \<Rightarrow> False)
           | _ \<Rightarrow> False)
      | _ \<Rightarrow> False)"

section \<open>Statements\<close>

text \<open>A statement that copies works on two locations \<^verbatim>\<open>in\<close> and \<^verbatim>\<open>out\<close>; \<open>None\<close> is a panic.\<close>

type_synonym copier = "loc \<Rightarrow> loc \<Rightarrow> store \<Rightarrow> store option"

text \<open>\<^verbatim>\<open>*out = *in\<close>, and \<^verbatim>\<open>out.F = in.F\<close> as \<open>field F assign\<close>.\<close>

definition assign :: copier where
  "assign i out h = Option.bind (readAt h i) (writeAt h out)"

definition field :: "string \<Rightarrow> copier \<Rightarrow> copier" where
  "field f g i out = g (inside i (Fld f)) (inside out (Fld f))"

fun body :: "copier list \<Rightarrow> copier" where
  "body [] i out h = Some h"
| "body (g # gs) i out h = Option.bind (g i out h) (body gs i out)"

text \<open>A struct: \<^verbatim>\<open>*out = *in\<close>, then statements on fields.\<close>

definition structCopy :: "(string \<times> copier) list \<Rightarrow> copier" where
  "structCopy fs = body (assign # map (\<lambda>(f, g). field f g) fs)"

text \<open>\<^verbatim>\<open>if *in != nil\<close>, \<^verbatim>\<open>*out = new(T)\<close>, and a copier called on what the two point to.\<close>

definition unlessNil :: "copier \<Rightarrow> copier" where
  "unlessNil g i out h = (case readAt h i of None \<Rightarrow> None | Some v \<Rightarrow> if v = NilV then Some h else g i out h)"

definition allocate :: "gotype \<Rightarrow> copier" where
  "allocate T i out h = writeAt (h @ [zeroValue T]) out (Ptr (length h, []))"

definition pointees :: "copier \<Rightarrow> copier" where
  "pointees g i out h = (case readAt h i of
       Some (Ptr l) \<Rightarrow> (case readAt h out of Some (Ptr m) \<Rightarrow> g l m h | _ \<Rightarrow> None)
     | _ \<Rightarrow> None)"

text \<open>
  \<^verbatim>\<open>*out = make([]T, len(*in))\<close>; a copier called on each element by a \<^verbatim>\<open>range\<close> loop, which panics out of range; and \<^verbatim>\<open>copy(*out, *in)\<close>,
  here between arrays that do not overlap, up to the shorter length.
\<close>

fun lengthOf :: "val \<Rightarrow> nat option" where
  "lengthOf NilV = Some 0"
| "lengthOf (Slice _ _ n) = Some n"
| "lengthOf _ = None"

definition makeSlice :: "gotype \<Rightarrow> copier" where
  "makeSlice T i out h = Option.bind (Option.bind (readAt h i) lengthOf) (\<lambda>n.
     writeAt (h @ [Array (replicate n (zeroValue T))]) out (Slice (length h, []) 0 n))"

fun elementwise :: "copier \<Rightarrow> loc \<Rightarrow> loc \<Rightarrow> (nat \<times> nat) list \<Rightarrow> store \<Rightarrow> store option" where
  "elementwise g l m [] h = Some h"
| "elementwise g l m ((i, j) # ijs) h = Option.bind (g (inside l (Idx i)) (inside m (Idx j)) h) (elementwise g l m ijs)"

definition eachElement :: "copier \<Rightarrow> copier" where
  "eachElement g i out h = (case readAt h i of
       Some (Slice l o1 n) \<Rightarrow>
         (case readAt h out of
            Some (Slice m o2 n') \<Rightarrow>
              (if n \<le> n' then elementwise g l m (map (\<lambda>k. (o1 + k, o2 + k)) [0..<n]) h
               else Option.bind (elementwise g l m (map (\<lambda>k. (o1 + k, o2 + k)) [0..<n']) h) (\<lambda>_. None))
          | _ \<Rightarrow> if n = 0 then Some h else None)
     | Some NilV \<Rightarrow> Some h
     | _ \<Rightarrow> None)"

definition copyElements :: copier where
  "copyElements i out h = (case readAt h i of
       Some (Slice l o1 n) \<Rightarrow>
         (case readAt h out of
            Some (Slice m o2 n') \<Rightarrow> elementwise assign l m (map (\<lambda>k. (o1 + k, o2 + k)) [0..<min n n']) h
          | Some NilV \<Rightarrow> Some h
          | _ \<Rightarrow> None)
     | Some NilV \<Rightarrow> Some h
     | _ \<Rightarrow> None)"

text \<open>
  The function that makes a copier's copies: \<^verbatim>\<open>nil\<close> for \<^verbatim>\<open>nil\<close>, else a new cell that the copier fills. \<open>called\<close> is \<^verbatim>\<open>*out = (*in).DeepCopy()\<close>,
  and \<open>objectOf\<close> passes a copy on as an interface, whose \<^verbatim>\<open>nil\<close> stays one.
\<close>

type_synonym duplicator = "val \<Rightarrow> store \<Rightarrow> (val \<times> store) option"

definition newCopy :: "gotype \<Rightarrow> copier \<Rightarrow> duplicator" where
  "newCopy T into v h = (case v of
       NilV \<Rightarrow> Some (NilV, h)
     | Ptr i \<Rightarrow> map_option (Pair (Ptr (length h, []))) (into i (length h, []) (h @ [zeroValue T]))
     | _ \<Rightarrow> None)"

definition called :: "duplicator \<Rightarrow> copier" where
  "called f i out h = Option.bind (readAt h i) (\<lambda>v. Option.bind (f v h) (\<lambda>(v', h'). writeAt h' out v'))"

definition objectOf :: "duplicator \<Rightarrow> duplicator" where
  "objectOf f v h = Option.bind (f v h) (\<lambda>(c, h'). if c \<noteq> NilV then Some (c, h') else Some (NilV, h'))"

end
