(* ===== verification/DeepCopy.thy ===== *)
theory DeepCopy
  imports GoStore
begin

text \<open>
  The generated copies of the API types, \<^verbatim>\<open>zz_generated.deepcopy.go\<close>, on a store: for each struct its type, \<^verbatim>\<open>DeepCopyInto\<close>, statement
  by statement, \<^verbatim>\<open>DeepCopy\<close>, and for the kinds that the scheme registers \<^verbatim>\<open>DeepCopyObject\<close>.
\<close>

text \<open>
  The types of the Kubernetes libraries, by name, with their \<^verbatim>\<open>DeepCopyInto\<close>, and \<^verbatim>\<open>DeepCopy\<close> of \<^verbatim>\<open>metav1.Time\<close>. What is documented
  of them is what a generated copy is for; \<^verbatim>\<open>metav1.TypeMeta\<close> has two strings, and is assigned.
\<close>

record Externals =
  xType :: "string \<Rightarrow> gotype"
  xInto :: "string \<Rightarrow> copier"
  xCopy :: duplicator

section \<open>The types\<close>

text \<open>Of an enumeration, a string type, the copies see the string.\<close>

definition TApplySpec :: "gotype" where
  "TApplySpec = TStruct [(''Mode'', TBasic KString), (''FieldManager'', TBasic KString), (''ConflictPolicy'', TBasic KString)]"

definition TTargetRef :: "Externals \<Rightarrow> gotype" where
  "TTargetRef X = TStruct [(''Mode'', TBasic KString), (''APIVersion'', TBasic KString), (''Kind'', TBasic KString),
    (''Name'', TBasic KString), (''Namespace'', TBasic KString), (''Selector'', TPtr (xType X ''LabelSelector'')),
    (''NamespaceSelector'', TPtr (xType X ''LabelSelector'')), (''MaxTargets'', TBasic KInt)]"

definition TLifecycleSpec :: "gotype" where
  "TLifecycleSpec = TStruct [(''OnMissing'', TBasic KString), (''OnRelease'', TBasic KString),
    (''AdoptExisting'', TPtr (TBasic KBool)), (''BaseReconcile'', TBasic KString)]"

definition TServiceAccountRef :: "gotype" where
  "TServiceAccountRef = TStruct [(''Name'', TBasic KString), (''Namespace'', TBasic KString)]"

definition TMergeKey :: "gotype" where
  "TMergeKey = TStruct [(''Path'', TBasic KString), (''Key'', TBasic KString)]"

definition TPatchSpec :: "Externals \<Rightarrow> gotype" where
  "TPatchSpec X = TStruct [(''Type'', TBasic KString), (''Value'', TPtr (xType X ''RawExtension'')),
    (''Ops'', TPtr (xType X ''RawExtension'')), (''MergeKeys'', TSlice TMergeKey)]"

definition TResourcePatchSpec :: "Externals \<Rightarrow> gotype" where
  "TResourcePatchSpec X = TStruct [(''Target'', TTargetRef X), (''Lifecycle'', TLifecycleSpec), (''Apply'', TApplySpec),
    (''Priority'', TBasic KInt), (''ServiceAccountRef'', TPtr TServiceAccountRef),
    (''Base'', TPtr (xType X ''RawExtension'')), (''Patch'', TPatchSpec X)]"

definition TTargetStatus :: "gotype" where
  "TTargetStatus = TStruct [(''APIVersion'', TBasic KString), (''Kind'', TBasic KString), (''Name'', TBasic KString),
    (''Namespace'', TBasic KString), (''UID'', TBasic KString), (''State'', TBasic KString)]"

definition TTrackerRef :: "gotype" where
  "TTrackerRef = TStruct [(''Kind'', TBasic KString), (''Name'', TBasic KString), (''Namespace'', TBasic KString)]"

definition TResourcePatchStatus :: "Externals \<Rightarrow> gotype" where
  "TResourcePatchStatus X = TStruct [(''Conditions'', TSlice (xType X ''Condition'')),
    (''ObservedTargets'', TSlice TTargetStatus), (''SharedResourceRefs'', TSlice TTrackerRef),
    (''AppliedGeneration'', TBasic KInt), (''AuthorizedAs'', TBasic KString),
    (''LastAuthorizedTime'', TPtr (xType X ''Time''))]"

definition TClusterResourcePatch :: "Externals \<Rightarrow> gotype" where
  "TClusterResourcePatch X = TStruct [(''TypeMeta'', xType X ''TypeMeta''), (''ObjectMeta'', xType X ''ObjectMeta''),
    (''Spec'', TResourcePatchSpec X), (''Status'', TResourcePatchStatus X)]"

definition TClusterResourcePatchList :: "Externals \<Rightarrow> gotype" where
  "TClusterResourcePatchList X = TStruct [(''TypeMeta'', xType X ''TypeMeta''), (''ListMeta'', xType X ''ListMeta''),
    (''Items'', TSlice (TClusterResourcePatch X))]"

definition TTrackerTargetRef :: "gotype" where
  "TTrackerTargetRef = TStruct [(''APIVersion'', TBasic KString), (''Kind'', TBasic KString), (''Name'', TBasic KString),
    (''Namespace'', TBasic KString)]"

definition TSharedResourceSpec :: "gotype" where
  "TSharedResourceSpec = TStruct [(''TargetRef'', TTrackerTargetRef)]"

definition TPromotionRef :: "gotype" where
  "TPromotionRef = TStruct [(''Name'', TBasic KString), (''Adopted'', TBasic KBool)]"

definition TContributorRef :: "gotype" where
  "TContributorRef = TStruct [(''Kind'', TBasic KString), (''Name'', TBasic KString), (''Namespace'', TBasic KString),
    (''UID'', TBasic KString)]"

definition TContributorStatus :: "Externals \<Rightarrow> gotype" where
  "TContributorStatus X = TStruct [(''PatchRef'', TContributorRef), (''ObservedGeneration'', TBasic KInt),
    (''Priority'', TBasic KInt), (''FieldManager'', TBasic KString), (''State'', TBasic KString),
    (''LastAppliedHash'', TBasic KString), (''OwnedPaths'', TSlice (TBasic KString)),
    (''PriorValues'', TPtr (xType X ''RawExtension'')), (''PriorValuesCaptured'', TBasic KBool),
    (''CreationTimestamp'', TPtr (xType X ''Time''))]"

definition TConflictStatus :: "gotype" where
  "TConflictStatus = TStruct [(''FieldPath'', TBasic KString), (''Claimants'', TSlice (TBasic KString)),
    (''Holder'', TBasic KString)]"

definition TSharedResourceStatus :: "Externals \<Rightarrow> gotype" where
  "TSharedResourceStatus X = TStruct [(''Phase'', TBasic KString), (''Conditions'', TSlice (xType X ''Condition'')),
    (''PromotedTo'', TPtr TPromotionRef), (''CreatedByOperator'', TBasic KBool),
    (''CreatorPatchRef'', TPtr TContributorRef), (''ObservedBaseHash'', TBasic KString),
    (''ObservedTargetUID'', TBasic KString), (''ObservedResourceVersion'', TBasic KString),
    (''Contributors'', TSlice (TContributorStatus X)), (''ContributorCount'', TBasic KInt),
    (''Conflicts'', TSlice TConflictStatus)]"

definition TClusterSharedResource :: "Externals \<Rightarrow> gotype" where
  "TClusterSharedResource X = TStruct [(''TypeMeta'', xType X ''TypeMeta''), (''ObjectMeta'', xType X ''ObjectMeta''),
    (''Spec'', TSharedResourceSpec), (''Status'', TSharedResourceStatus X)]"

definition TClusterSharedResourceList :: "Externals \<Rightarrow> gotype" where
  "TClusterSharedResourceList X = TStruct [(''TypeMeta'', xType X ''TypeMeta''), (''ListMeta'', xType X ''ListMeta''),
    (''Items'', TSlice (TClusterSharedResource X))]"

definition TResourcePatch :: "Externals \<Rightarrow> gotype" where
  "TResourcePatch X = TStruct [(''TypeMeta'', xType X ''TypeMeta''), (''ObjectMeta'', xType X ''ObjectMeta''),
    (''Spec'', TResourcePatchSpec X), (''Status'', TResourcePatchStatus X)]"

definition TResourcePatchList :: "Externals \<Rightarrow> gotype" where
  "TResourcePatchList X = TStruct [(''TypeMeta'', xType X ''TypeMeta''), (''ListMeta'', xType X ''ListMeta''),
    (''Items'', TSlice (TResourcePatch X))]"

definition TSharedResource :: "Externals \<Rightarrow> gotype" where
  "TSharedResource X = TStruct [(''TypeMeta'', xType X ''TypeMeta''), (''ObjectMeta'', xType X ''ObjectMeta''),
    (''Spec'', TSharedResourceSpec), (''Status'', TSharedResourceStatus X)]"

definition TSharedResourceList :: "Externals \<Rightarrow> gotype" where
  "TSharedResourceList X = TStruct [(''TypeMeta'', xType X ''TypeMeta''), (''ListMeta'', xType X ''ListMeta''),
    (''Items'', TSlice (TSharedResource X))]"

section \<open>The copies\<close>

text \<open>\<^verbatim>\<open>in, out := &in.F, &out.F\<close> is the field \<open>F\<close> that a statement is paired with.\<close>

definition ApplySpec_DeepCopyInto :: "copier" where
  "ApplySpec_DeepCopyInto = assign"

definition ApplySpec_DeepCopy :: "duplicator" where
  "ApplySpec_DeepCopy = newCopy TApplySpec ApplySpec_DeepCopyInto"

definition TargetRef_DeepCopyInto :: "Externals \<Rightarrow> copier" where
  "TargetRef_DeepCopyInto X = structCopy
     [(''Selector'', unlessNil (body [allocate (xType X ''LabelSelector''), pointees (xInto X ''LabelSelector'')])),
      (''NamespaceSelector'', unlessNil (body [allocate (xType X ''LabelSelector''), pointees (xInto X ''LabelSelector'')]))]"

definition TargetRef_DeepCopy :: "Externals \<Rightarrow> duplicator" where
  "TargetRef_DeepCopy X = newCopy (TTargetRef X) (TargetRef_DeepCopyInto X)"

definition LifecycleSpec_DeepCopyInto :: "copier" where
  "LifecycleSpec_DeepCopyInto = structCopy
     [(''AdoptExisting'', unlessNil (body [allocate (TBasic KBool), pointees assign]))]"

definition LifecycleSpec_DeepCopy :: "duplicator" where
  "LifecycleSpec_DeepCopy = newCopy TLifecycleSpec LifecycleSpec_DeepCopyInto"

definition ServiceAccountRef_DeepCopyInto :: "copier" where
  "ServiceAccountRef_DeepCopyInto = assign"

definition ServiceAccountRef_DeepCopy :: "duplicator" where
  "ServiceAccountRef_DeepCopy = newCopy TServiceAccountRef ServiceAccountRef_DeepCopyInto"

definition MergeKey_DeepCopyInto :: "copier" where
  "MergeKey_DeepCopyInto = assign"

definition MergeKey_DeepCopy :: "duplicator" where
  "MergeKey_DeepCopy = newCopy TMergeKey MergeKey_DeepCopyInto"

definition PatchSpec_DeepCopyInto :: "Externals \<Rightarrow> copier" where
  "PatchSpec_DeepCopyInto X = structCopy
     [(''Value'', unlessNil (body [allocate (xType X ''RawExtension''), pointees (xInto X ''RawExtension'')])),
      (''Ops'', unlessNil (body [allocate (xType X ''RawExtension''), pointees (xInto X ''RawExtension'')])),
      (''MergeKeys'', unlessNil (body [makeSlice TMergeKey, copyElements]))]"

definition PatchSpec_DeepCopy :: "Externals \<Rightarrow> duplicator" where
  "PatchSpec_DeepCopy X = newCopy (TPatchSpec X) (PatchSpec_DeepCopyInto X)"

definition ResourcePatchSpec_DeepCopyInto :: "Externals \<Rightarrow> copier" where
  "ResourcePatchSpec_DeepCopyInto X = structCopy
     [(''Target'', TargetRef_DeepCopyInto X),
      (''Lifecycle'', LifecycleSpec_DeepCopyInto),
      (''Apply'', assign),
      (''ServiceAccountRef'', unlessNil (body [allocate TServiceAccountRef, pointees assign])),
      (''Base'', unlessNil (body [allocate (xType X ''RawExtension''), pointees (xInto X ''RawExtension'')])),
      (''Patch'', PatchSpec_DeepCopyInto X)]"

definition ResourcePatchSpec_DeepCopy :: "Externals \<Rightarrow> duplicator" where
  "ResourcePatchSpec_DeepCopy X = newCopy (TResourcePatchSpec X) (ResourcePatchSpec_DeepCopyInto X)"

definition TargetStatus_DeepCopyInto :: "copier" where
  "TargetStatus_DeepCopyInto = assign"

definition TargetStatus_DeepCopy :: "duplicator" where
  "TargetStatus_DeepCopy = newCopy TTargetStatus TargetStatus_DeepCopyInto"

definition TrackerRef_DeepCopyInto :: "copier" where
  "TrackerRef_DeepCopyInto = assign"

definition TrackerRef_DeepCopy :: "duplicator" where
  "TrackerRef_DeepCopy = newCopy TTrackerRef TrackerRef_DeepCopyInto"

definition ResourcePatchStatus_DeepCopyInto :: "Externals \<Rightarrow> copier" where
  "ResourcePatchStatus_DeepCopyInto X = structCopy
     [(''Conditions'', unlessNil (body [makeSlice (xType X ''Condition''), eachElement (xInto X ''Condition'')])),
      (''ObservedTargets'', unlessNil (body [makeSlice TTargetStatus, copyElements])),
      (''SharedResourceRefs'', unlessNil (body [makeSlice TTrackerRef, copyElements])),
      (''LastAuthorizedTime'', unlessNil (called (xCopy X)))]"

definition ResourcePatchStatus_DeepCopy :: "Externals \<Rightarrow> duplicator" where
  "ResourcePatchStatus_DeepCopy X = newCopy (TResourcePatchStatus X) (ResourcePatchStatus_DeepCopyInto X)"

definition ClusterResourcePatch_DeepCopyInto :: "Externals \<Rightarrow> copier" where
  "ClusterResourcePatch_DeepCopyInto X = structCopy
     [(''TypeMeta'', assign),
      (''ObjectMeta'', xInto X ''ObjectMeta''),
      (''Spec'', ResourcePatchSpec_DeepCopyInto X),
      (''Status'', ResourcePatchStatus_DeepCopyInto X)]"

definition ClusterResourcePatch_DeepCopy :: "Externals \<Rightarrow> duplicator" where
  "ClusterResourcePatch_DeepCopy X = newCopy (TClusterResourcePatch X) (ClusterResourcePatch_DeepCopyInto X)"

definition ClusterResourcePatch_DeepCopyObject :: "Externals \<Rightarrow> duplicator" where
  "ClusterResourcePatch_DeepCopyObject X = objectOf (ClusterResourcePatch_DeepCopy X)"

definition ClusterResourcePatchList_DeepCopyInto :: "Externals \<Rightarrow> copier" where
  "ClusterResourcePatchList_DeepCopyInto X = structCopy
     [(''TypeMeta'', assign),
      (''ListMeta'', xInto X ''ListMeta''),
      (''Items'', unlessNil (body [makeSlice (TClusterResourcePatch X), eachElement (ClusterResourcePatch_DeepCopyInto X)]))]"

definition ClusterResourcePatchList_DeepCopy :: "Externals \<Rightarrow> duplicator" where
  "ClusterResourcePatchList_DeepCopy X = newCopy (TClusterResourcePatchList X) (ClusterResourcePatchList_DeepCopyInto X)"

definition ClusterResourcePatchList_DeepCopyObject :: "Externals \<Rightarrow> duplicator" where
  "ClusterResourcePatchList_DeepCopyObject X = objectOf (ClusterResourcePatchList_DeepCopy X)"

definition TrackerTargetRef_DeepCopyInto :: "copier" where
  "TrackerTargetRef_DeepCopyInto = assign"

definition TrackerTargetRef_DeepCopy :: "duplicator" where
  "TrackerTargetRef_DeepCopy = newCopy TTrackerTargetRef TrackerTargetRef_DeepCopyInto"

definition SharedResourceSpec_DeepCopyInto :: "copier" where
  "SharedResourceSpec_DeepCopyInto = structCopy
     [(''TargetRef'', assign)]"

definition SharedResourceSpec_DeepCopy :: "duplicator" where
  "SharedResourceSpec_DeepCopy = newCopy TSharedResourceSpec SharedResourceSpec_DeepCopyInto"

definition PromotionRef_DeepCopyInto :: "copier" where
  "PromotionRef_DeepCopyInto = assign"

definition PromotionRef_DeepCopy :: "duplicator" where
  "PromotionRef_DeepCopy = newCopy TPromotionRef PromotionRef_DeepCopyInto"

definition ContributorRef_DeepCopyInto :: "copier" where
  "ContributorRef_DeepCopyInto = assign"

definition ContributorRef_DeepCopy :: "duplicator" where
  "ContributorRef_DeepCopy = newCopy TContributorRef ContributorRef_DeepCopyInto"

definition ContributorStatus_DeepCopyInto :: "Externals \<Rightarrow> copier" where
  "ContributorStatus_DeepCopyInto X = structCopy
     [(''PatchRef'', assign),
      (''OwnedPaths'', unlessNil (body [makeSlice (TBasic KString), copyElements])),
      (''PriorValues'', unlessNil (body [allocate (xType X ''RawExtension''), pointees (xInto X ''RawExtension'')])),
      (''CreationTimestamp'', unlessNil (called (xCopy X)))]"

definition ContributorStatus_DeepCopy :: "Externals \<Rightarrow> duplicator" where
  "ContributorStatus_DeepCopy X = newCopy (TContributorStatus X) (ContributorStatus_DeepCopyInto X)"

definition ConflictStatus_DeepCopyInto :: "copier" where
  "ConflictStatus_DeepCopyInto = structCopy
     [(''Claimants'', unlessNil (body [makeSlice (TBasic KString), copyElements]))]"

definition ConflictStatus_DeepCopy :: "duplicator" where
  "ConflictStatus_DeepCopy = newCopy TConflictStatus ConflictStatus_DeepCopyInto"

definition SharedResourceStatus_DeepCopyInto :: "Externals \<Rightarrow> copier" where
  "SharedResourceStatus_DeepCopyInto X = structCopy
     [(''Conditions'', unlessNil (body [makeSlice (xType X ''Condition''), eachElement (xInto X ''Condition'')])),
      (''PromotedTo'', unlessNil (body [allocate TPromotionRef, pointees assign])),
      (''CreatorPatchRef'', unlessNil (body [allocate TContributorRef, pointees assign])),
      (''Contributors'', unlessNil (body [makeSlice (TContributorStatus X), eachElement (ContributorStatus_DeepCopyInto X)])),
      (''Conflicts'', unlessNil (body [makeSlice TConflictStatus, eachElement ConflictStatus_DeepCopyInto]))]"

definition SharedResourceStatus_DeepCopy :: "Externals \<Rightarrow> duplicator" where
  "SharedResourceStatus_DeepCopy X = newCopy (TSharedResourceStatus X) (SharedResourceStatus_DeepCopyInto X)"

definition ClusterSharedResource_DeepCopyInto :: "Externals \<Rightarrow> copier" where
  "ClusterSharedResource_DeepCopyInto X = structCopy
     [(''TypeMeta'', assign),
      (''ObjectMeta'', xInto X ''ObjectMeta''),
      (''Spec'', assign),
      (''Status'', SharedResourceStatus_DeepCopyInto X)]"

definition ClusterSharedResource_DeepCopy :: "Externals \<Rightarrow> duplicator" where
  "ClusterSharedResource_DeepCopy X = newCopy (TClusterSharedResource X) (ClusterSharedResource_DeepCopyInto X)"

definition ClusterSharedResource_DeepCopyObject :: "Externals \<Rightarrow> duplicator" where
  "ClusterSharedResource_DeepCopyObject X = objectOf (ClusterSharedResource_DeepCopy X)"

definition ClusterSharedResourceList_DeepCopyInto :: "Externals \<Rightarrow> copier" where
  "ClusterSharedResourceList_DeepCopyInto X = structCopy
     [(''TypeMeta'', assign),
      (''ListMeta'', xInto X ''ListMeta''),
      (''Items'', unlessNil (body [makeSlice (TClusterSharedResource X), eachElement (ClusterSharedResource_DeepCopyInto X)]))]"

definition ClusterSharedResourceList_DeepCopy :: "Externals \<Rightarrow> duplicator" where
  "ClusterSharedResourceList_DeepCopy X = newCopy (TClusterSharedResourceList X) (ClusterSharedResourceList_DeepCopyInto X)"

definition ClusterSharedResourceList_DeepCopyObject :: "Externals \<Rightarrow> duplicator" where
  "ClusterSharedResourceList_DeepCopyObject X = objectOf (ClusterSharedResourceList_DeepCopy X)"

definition ResourcePatch_DeepCopyInto :: "Externals \<Rightarrow> copier" where
  "ResourcePatch_DeepCopyInto X = structCopy
     [(''TypeMeta'', assign),
      (''ObjectMeta'', xInto X ''ObjectMeta''),
      (''Spec'', ResourcePatchSpec_DeepCopyInto X),
      (''Status'', ResourcePatchStatus_DeepCopyInto X)]"

definition ResourcePatch_DeepCopy :: "Externals \<Rightarrow> duplicator" where
  "ResourcePatch_DeepCopy X = newCopy (TResourcePatch X) (ResourcePatch_DeepCopyInto X)"

definition ResourcePatch_DeepCopyObject :: "Externals \<Rightarrow> duplicator" where
  "ResourcePatch_DeepCopyObject X = objectOf (ResourcePatch_DeepCopy X)"

definition ResourcePatchList_DeepCopyInto :: "Externals \<Rightarrow> copier" where
  "ResourcePatchList_DeepCopyInto X = structCopy
     [(''TypeMeta'', assign),
      (''ListMeta'', xInto X ''ListMeta''),
      (''Items'', unlessNil (body [makeSlice (TResourcePatch X), eachElement (ResourcePatch_DeepCopyInto X)]))]"

definition ResourcePatchList_DeepCopy :: "Externals \<Rightarrow> duplicator" where
  "ResourcePatchList_DeepCopy X = newCopy (TResourcePatchList X) (ResourcePatchList_DeepCopyInto X)"

definition ResourcePatchList_DeepCopyObject :: "Externals \<Rightarrow> duplicator" where
  "ResourcePatchList_DeepCopyObject X = objectOf (ResourcePatchList_DeepCopy X)"

definition SharedResource_DeepCopyInto :: "Externals \<Rightarrow> copier" where
  "SharedResource_DeepCopyInto X = structCopy
     [(''TypeMeta'', assign),
      (''ObjectMeta'', xInto X ''ObjectMeta''),
      (''Spec'', assign),
      (''Status'', SharedResourceStatus_DeepCopyInto X)]"

definition SharedResource_DeepCopy :: "Externals \<Rightarrow> duplicator" where
  "SharedResource_DeepCopy X = newCopy (TSharedResource X) (SharedResource_DeepCopyInto X)"

definition SharedResource_DeepCopyObject :: "Externals \<Rightarrow> duplicator" where
  "SharedResource_DeepCopyObject X = objectOf (SharedResource_DeepCopy X)"

definition SharedResourceList_DeepCopyInto :: "Externals \<Rightarrow> copier" where
  "SharedResourceList_DeepCopyInto X = structCopy
     [(''TypeMeta'', assign),
      (''ListMeta'', xInto X ''ListMeta''),
      (''Items'', unlessNil (body [makeSlice (TSharedResource X), eachElement (SharedResource_DeepCopyInto X)]))]"

definition SharedResourceList_DeepCopy :: "Externals \<Rightarrow> duplicator" where
  "SharedResourceList_DeepCopy X = newCopy (TSharedResourceList X) (SharedResourceList_DeepCopyInto X)"

definition SharedResourceList_DeepCopyObject :: "Externals \<Rightarrow> duplicator" where
  "SharedResourceList_DeepCopyObject X = objectOf (SharedResourceList_DeepCopy X)"

section \<open>All of them\<close>

definition deepCopies :: "Externals \<Rightarrow> (gotype \<times> duplicator) list" where
  "deepCopies X =
     [(TApplySpec, ApplySpec_DeepCopy), (TTargetRef X, TargetRef_DeepCopy X), (TLifecycleSpec, LifecycleSpec_DeepCopy),
      (TServiceAccountRef, ServiceAccountRef_DeepCopy), (TMergeKey, MergeKey_DeepCopy),
      (TPatchSpec X, PatchSpec_DeepCopy X), (TResourcePatchSpec X, ResourcePatchSpec_DeepCopy X),
      (TTargetStatus, TargetStatus_DeepCopy), (TTrackerRef, TrackerRef_DeepCopy),
      (TResourcePatchStatus X, ResourcePatchStatus_DeepCopy X), (TClusterResourcePatch X, ClusterResourcePatch_DeepCopy X),
      (TClusterResourcePatchList X, ClusterResourcePatchList_DeepCopy X), (TTrackerTargetRef, TrackerTargetRef_DeepCopy),
      (TSharedResourceSpec, SharedResourceSpec_DeepCopy), (TPromotionRef, PromotionRef_DeepCopy),
      (TContributorRef, ContributorRef_DeepCopy), (TContributorStatus X, ContributorStatus_DeepCopy X),
      (TConflictStatus, ConflictStatus_DeepCopy), (TSharedResourceStatus X, SharedResourceStatus_DeepCopy X),
      (TClusterSharedResource X, ClusterSharedResource_DeepCopy X),
      (TClusterSharedResourceList X, ClusterSharedResourceList_DeepCopy X), (TResourcePatch X, ResourcePatch_DeepCopy X),
      (TResourcePatchList X, ResourcePatchList_DeepCopy X), (TSharedResource X, SharedResource_DeepCopy X),
      (TSharedResourceList X, SharedResourceList_DeepCopy X)]"

definition objectCopies :: "Externals \<Rightarrow> (gotype \<times> duplicator) list" where
  "objectCopies X =
     [(TClusterResourcePatch X, ClusterResourcePatch_DeepCopyObject X),
      (TClusterResourcePatchList X, ClusterResourcePatchList_DeepCopyObject X),
      (TClusterSharedResource X, ClusterSharedResource_DeepCopyObject X),
      (TClusterSharedResourceList X, ClusterSharedResourceList_DeepCopyObject X),
      (TResourcePatch X, ResourcePatch_DeepCopyObject X), (TResourcePatchList X, ResourcePatchList_DeepCopyObject X),
      (TSharedResource X, SharedResource_DeepCopyObject X), (TSharedResourceList X, SharedResourceList_DeepCopyObject X)]"

end
