(* ===== verification/CopyRules.thy ===== *)
theory CopyRules
  imports GoStore
begin

text \<open>
  What a statement that copies promises, and the rules by which the statements of a generated copy keep the promise: the value at
  \<^verbatim>\<open>out\<close> reads as the one at \<^verbatim>\<open>in\<close>, through new cells only, and nothing else of the store has changed.
\<close>

section \<open>Parts of a value\<close>

lemma map_of_setField: "map_of (setField f v vs) g = (if g = f then map_option (\<lambda>_. v) (map_of vs f) else map_of vs g)"
  by (induction vs) auto

lemma setField_same: "map_of vs f = Some v \<Longrightarrow> setField f v vs = vs"
  by (induction vs) (auto split: if_splits)

lemma setField_simps [simp]:
  "map fst (setField f v vs) = map fst vs" "setField f v (setField f u vs) = setField f v vs"
  by (induction vs) auto

lemma part_append: "part c (p @ q) = Option.bind (part c p) (\<lambda>u. part u q)"
  by (induction c p rule: part.induct) (auto split: bind_splits)

lemma replaceAt_append:
  "part c p = Some u \<Longrightarrow> replaceAt c (p @ q) v = Option.bind (replaceAt u q v) (replaceAt c p)"
  by (induction c p rule: part.induct)
    (auto simp: bind_eq_Some_conv map_option_case split: bind_splits option.splits if_splits)

lemma replaceAt_facts:
  assumes "replaceAt c p v = Some c'"
  shows "part c' p = Some v" and "replaceAt c' p u = replaceAt c p u"
  using assms
  by (induction c p v arbitrary: c' rule: replaceAt.induct) (auto simp: bind_eq_Some_conv map_of_setField split: if_splits)

lemma replaceAt_same: "part c p = Some u \<Longrightarrow> replaceAt c p u = Some c"
  by (induction c p rule: part.induct) (auto simp: bind_eq_Some_conv setField_same split: if_splits)

lemma replaceAt_defined: "part c p = Some u \<Longrightarrow> \<exists>c'. replaceAt c p v = Some c'"
  by (induction c p rule: part.induct) (auto simp: bind_eq_Some_conv split: if_splits)

fun alike :: "val \<Rightarrow> val \<Rightarrow> bool" where
  "alike (Struct vs) (Struct ws) \<longleftrightarrow> map fst vs = map fst ws"
| "alike (Array vs) (Array ws) \<longleftrightarrow> length vs = length ws"
| "alike v w \<longleftrightarrow> v = w"

lemma alike_refl: "alike v v"
  by (cases v) auto

lemma alike_trans: "alike u v \<Longrightarrow> alike v w \<Longrightarrow> alike u w"
  by (cases u; cases v; cases w) auto

lemma replace_child:
  assumes "replaceAt c [d] v = Some c'"
  shows "part c' [d] = Some v" and "e \<noteq> d \<Longrightarrow> part c' [e] = part c [e]" and "alike c c'"
  using assms replaceAt_facts(1)[OF assms]
  by (cases c; cases d; cases e; auto simp: bind_eq_Some_conv map_of_setField split: if_splits)+

section \<open>The store\<close>

definition filled :: "store \<Rightarrow> loc \<Rightarrow> val \<Rightarrow> store \<Rightarrow> bool" where
  "filled h out v h' \<longleftrightarrow> (\<exists>h1 new. writeAt h out v = Some h1 \<and> h' = h1 @ new)"

definition fresh :: "store \<Rightarrow> store \<Rightarrow> nat set" where
  "fresh h h' = {length h..<length h'}"

lemma writeAt_facts:
  assumes "writeAt h out v = Some h1"
  shows "fst out < length h" and "length h1 = length h" and "a \<noteq> fst out \<Longrightarrow> h1 ! a = h ! a" and "readAt h1 out = Some v"
    and "writeAt h1 out u = writeAt h out u"
proof -
  obtain c where c: "fst out < length h" "replaceAt (h ! fst out) (snd out) v = Some c" "h1 = h[fst out := c]"
    using assms by (auto simp: writeAt_def split: if_splits)
  note r = replaceAt_facts[OF c(2)]
  show "fst out < length h" and "length h1 = length h" using c by simp_all
  show "h1 ! a = h ! a" if "a \<noteq> fst out" using c that by simp
  show "readAt h1 out = Some v" using c r by (simp add: readAt_def)
  have "list_update h1 (fst out) = list_update h (fst out)" using c(3) by (simp add: fun_eq_iff)
  then show "writeAt h1 out u = writeAt h out u" using c(1,3) r(2) by (simp add: writeAt_def)
qed

lemma readAt_append: "readAt h l = Some v \<Longrightarrow> readAt (h @ new) l = Some v"
  by (auto simp: readAt_def nth_append split: if_splits)

lemma writeAt_append: "fst l < length h \<Longrightarrow> writeAt (h @ new) l v = map_option (\<lambda>h1. h1 @ new) (writeAt h l v)"
  by (cases "replaceAt (h ! fst l) (snd l) v") (simp_all add: writeAt_def nth_append list_update_append)

lemma filled_facts:
  assumes "filled h out v h'"
  shows "fst out < length h" and "length h \<le> length h'" and "\<lbrakk>a < length h; a \<noteq> fst out\<rbrakk> \<Longrightarrow> h' ! a = h ! a"
    and "readAt h' out = Some v"
proof -
  obtain h1 new where h1: "writeAt h out v = Some h1" "h' = h1 @ new" using assms by (auto simp: filled_def)
  note w = writeAt_facts[OF h1(1)]
  show "fst out < length h" and "length h \<le> length h'" using w(1,2) h1(2) by simp_all
  show "h' ! a = h ! a" if "a < length h" "a \<noteq> fst out" using w(2) w(3)[OF that(2)] h1(2) that(1) by (simp add: nth_append)
  show "readAt h' out = Some v" unfolding h1(2) by (rule readAt_append[OF w(4)])
qed

lemma filled_read:
  assumes "filled h out v h'" and "readAt h l = Some u" and "fst l \<noteq> fst out"
  shows "readAt h' l = Some u"
  using filled_facts[OF assms(1)] assms(2,3) by (auto simp: readAt_def split: if_splits)

lemma filled_again:
  assumes "filled h out v h'" and "filled h' out u h''"
  shows "filled h out u h''"
proof -
  obtain h1 new where h1: "writeAt h out v = Some h1" "h' = h1 @ new" using assms(1) by (auto simp: filled_def)
  obtain h2 new' where h2: "writeAt h' out u = Some h2" "h'' = h2 @ new'" using assms(2) by (auto simp: filled_def)
  have "writeAt h' out u = map_option (\<lambda>h1. h1 @ new) (writeAt h out u)"
    unfolding h1(2) using writeAt_facts[OF h1(1)] by (simp add: writeAt_append)
  with h2 show ?thesis by (auto simp: filled_def)
qed

lemma filled_child:
  assumes "readAt h out = Some c" and "filled h (inside out d) v h'"
  obtains c' where "replaceAt c [d] v = Some c'" and "filled h out c' h'"
proof -
  obtain h1 new where h1: "writeAt h (inside out d) v = Some h1" "h' = h1 @ new" using assms(2) by (auto simp: filled_def)
  have c: "fst out < length h" "part (h ! fst out) (snd out) = Some c" using assms(1) by (auto simp: readAt_def split: if_splits)
  obtain c' where c': "replaceAt c [d] v = Some c'" "map_option (\<lambda>c. h[fst out := c]) (replaceAt (h ! fst out) (snd out) c') = Some h1"
    using h1(1) c(1) by (auto simp: writeAt_def replaceAt_append[OF c(2)] bind_eq_Some_conv)
  with c(1) have "writeAt h out c' = Some h1" by (simp add: writeAt_def)
  with c'(1) h1(2) that show thesis by (auto simp: filled_def)
qed

lemma reads_frame:
  assumes "reads h A T v t" and "A \<subseteq> B" and "\<forall>a \<in> A. a < length h \<longrightarrow> a < length h' \<and> h' ! a = h ! a"
  shows "reads h' B T v t"
proof -
  have read: "readAt h' l = readAt h l" if "fst l \<in> A" "readAt h l = Some u" for l u
    using that assms(3) by (auto simp: readAt_def split: if_splits)
  show ?thesis
    using assms(1)
  proof (induction T arbitrary: v t)
    case (TBasic k)
    then show ?case by simp
  next
    case (TStruct Ts)
    then show ?case by (fastforce split: val.splits view.splits option.splits)
  next
    case (TPtr T)
    then show ?case using assms(2) by (auto simp: read split: val.splits view.splits option.splits)
  next
    case (TSlice T)
    then show ?case using assms(2) by (auto simp: read split: val.splits view.splits option.splits)
  qed
qed

lemma reads_flat: "reads h A T v t \<Longrightarrow> flat T \<Longrightarrow> reads h' B T v t"
proof (induction T arbitrary: v t)
  case (TStruct Ts)
  then show ?case by (fastforce split: val.splits view.splits option.splits)
qed auto

section \<open>The promise\<close>

text \<open>
  \<open>works P T g\<close>: where \<^verbatim>\<open>in\<close> holds a value of type \<open>T\<close> that shares nothing with the cell of \<^verbatim>\<open>out\<close>, and \<^verbatim>\<open>out\<close> holds one that \<open>P\<close>
  allows, \<open>g\<close> does not panic, and leaves at \<^verbatim>\<open>out\<close> a value that reads the same through new cells, everything else as it was.
  A copier works over any value; the statements after \<^verbatim>\<open>*out = *in\<close> over the value assigned.
\<close>

definition works :: "(val \<Rightarrow> val \<Rightarrow> bool) \<Rightarrow> gotype \<Rightarrow> copier \<Rightarrow> bool" where
  "works P T g \<longleftrightarrow> (\<forall>h A i out v t w.
     readAt h i = Some v \<and> readAt h out = Some w \<and> P w v \<and> reads h A T v t \<and> A \<subseteq> {..<length h} - {fst out} \<and> fst i \<noteq> fst out \<longrightarrow>
     (\<exists>h' v'. g i out h = Some h' \<and> filled h out v' h' \<and> reads h' (fresh h h') T v' t))"

abbreviation copies :: "gotype \<Rightarrow> copier \<Rightarrow> bool" where
  "copies \<equiv> works (\<lambda>_ _. True)"

abbreviation refills :: "gotype \<Rightarrow> copier \<Rightarrow> bool" where
  "refills \<equiv> works (=)"

definition grown :: "nat \<Rightarrow> store \<Rightarrow> store \<Rightarrow> bool" where
  "grown b h h' \<longleftrightarrow> length h \<le> length h' \<and> (\<forall>a < length h. a \<noteq> b \<longrightarrow> h' ! a = h ! a)"

lemma filled_grown: "filled h out v h' \<Longrightarrow> grown (fst out) h h'"
  using filled_facts by (auto simp: grown_def)

lemma grown_trans: "grown b h h' \<Longrightarrow> grown b h' h'' \<Longrightarrow> grown b h h''"
  by (auto simp: grown_def)

lemma grown_reads:
  assumes "reads h A T v t" and "grown b h h'" and "b \<notin> A" and "A \<subseteq> B"
  shows "reads h' B T v t"
  using reads_frame[OF assms(1,4), of h'] assms(2,3) unfolding grown_def by (metis order_less_le_trans)

lemma grown_read: "readAt h l = Some u \<Longrightarrow> grown b h h' \<Longrightarrow> fst l \<noteq> b \<Longrightarrow> readAt h' l = Some u"
  by (auto simp: readAt_def grown_def split: if_splits)

lemma worksD:
  assumes "works P T g" and "readAt h i = Some v" and "readAt h out = Some w" and "P w v" and "reads h A T v t"
    and "A \<subseteq> {..<length h} - {fst out}" and "fst i \<noteq> fst out"
  obtains h' v' where "g i out h = Some h'" and "filled h out v' h'" and "reads h' (fresh h h') T v' t"
  using assms unfolding works_def by blast

lemma copies_works: "copies T g \<Longrightarrow> works P T g"
  by (auto simp: works_def)

section \<open>One part after another\<close>

text \<open>What the statements of a struct and the turns of a loop have in common: each fills one part of the value at \<^verbatim>\<open>out\<close>.\<close>

fun steps :: "loc \<Rightarrow> (loc \<times> selector \<times> copier) list \<Rightarrow> store \<Rightarrow> store option" where
  "steps out [] h = Some h"
| "steps out ((s, d, g) # xs) h = Option.bind (g s (inside out d) h) (steps out xs)"

definition can_step :: "store \<Rightarrow> nat set \<Rightarrow> loc \<Rightarrow> val \<Rightarrow> (selector \<Rightarrow> gotype) \<Rightarrow> (selector \<Rightarrow> view) \<Rightarrow> loc \<times> selector \<times> copier \<Rightarrow> bool" where
  "can_step h A out c T t x \<longleftrightarrow> (case x of (s, d, g) \<Rightarrow> fst s \<noteq> fst out \<and>
     (\<exists>P v w. readAt h s = Some v \<and> part c [d] = Some w \<and> P w v \<and> works P (T d) g \<and> reads h A (T d) v (t d)))"

definition stepped ::
  "store \<Rightarrow> loc \<Rightarrow> val \<Rightarrow> selector set \<Rightarrow> (selector \<Rightarrow> gotype) \<Rightarrow> (selector \<Rightarrow> view) \<Rightarrow> store \<Rightarrow> store \<Rightarrow> val \<Rightarrow> bool" where
  "stepped h0 out c D T t h h' c' \<longleftrightarrow> filled h0 out c' h' \<and> grown (fst out) h h' \<and> alike c c' \<and>
     (\<forall>e. e \<notin> D \<longrightarrow> part c' [e] = part c [e]) \<and>
     (\<forall>d \<in> D. \<exists>v'. part c' [d] = Some v' \<and> reads h' (fresh h0 h') (T d) v' (t d))"

lemma stepped_facts:
  assumes "stepped h0 out c D T t h h' c'"
  shows "filled h0 out c' h'" and "grown (fst out) h h'" and "alike c c'" and "e \<notin> D \<Longrightarrow> part c' [e] = part c [e]"
    and "d \<in> D \<Longrightarrow> \<exists>v'. part c' [d] = Some v' \<and> reads h' (fresh h0 h') (T d) v' (t d)"
  using assms by (simp_all add: stepped_def)

lemma readAt_inside: "readAt h out = Some c \<Longrightarrow> readAt h (inside out d) = part c [d]"
  by (auto simp: readAt_def part_append split: if_splits)

lemma steps_work:
  assumes "filled h0 out c h" and "A \<subseteq> {..<length h} - {fst out}" and "distinct (map (fst \<circ> snd) xs)"
    and "\<forall>x \<in> set xs. can_step h A out c T t x"
  shows "\<exists>h' c'. steps out xs h = Some h' \<and> stepped h0 out c ((fst \<circ> snd) ` set xs) T t h h' c'"
  using assms
proof (induction xs arbitrary: h c)
  case Nil
  then show ?case by (auto simp: stepped_def alike_refl grown_def)
next
  case (Cons x xs)
  obtain s d g where x: "x = (s, d, g)" by (cases x)
  have out: "readAt h out = Some c" using filled_facts(4)[OF Cons.prems(1)] .
  obtain P v w where st: "fst s \<noteq> fst out" "readAt h s = Some v" "part c [d] = Some w" "P w v" "works P (T d) g" "reads h A (T d) v (t d)"
    using Cons.prems(4) by (auto simp: x can_step_def)
  have "readAt h (inside out d) = Some w" using readAt_inside[OF out] st(3) by simp
  from worksD[OF st(5,2) this st(4,6)] obtain h2 v' where
    g: "g s (inside out d) h = Some h2" "filled h (inside out d) v' h2" "reads h2 (fresh h h2) (T d) v' (t d)"
    using Cons.prems(2) st(1) by auto
  obtain c2 where c2: "replaceAt c [d] v' = Some c2" "filled h out c2 h2" by (rule filled_child[OF out g(2)])
  note child = replace_child[OF c2(1)] and grown = filled_grown[OF c2(2)]
  have len: "length h0 \<le> length h" "fst out < length h" "length h \<le> length h2"
    using filled_facts[OF Cons.prems(1)] filled_facts[OF c2(2)] by auto
  have "\<exists>h' c'. steps out xs h2 = Some h' \<and> stepped h0 out c2 ((fst \<circ> snd) ` set xs) T t h2 h' c'"
  proof (rule Cons.IH)
    show "filled h0 out c2 h2" by (rule filled_again[OF Cons.prems(1) c2(2)])
    show "A \<subseteq> {..<length h2} - {fst out}" using Cons.prems(2) len(3) by auto
    show "distinct (map (fst \<circ> snd) xs)" using Cons.prems(3) by (simp add: comp_def)
    show "\<forall>x \<in> set xs. can_step h2 A out c2 T t x"
    proof
      fix y assume y: "y \<in> set xs"
      obtain s' e g' where y': "y = (s', e, g')" by (cases y)
      have e: "e \<noteq> d" using Cons.prems(3) y by (auto simp: x y' rev_image_eqI)
      obtain P v w where can: "fst s' \<noteq> fst out" "readAt h s' = Some v" "part c [e] = Some w" "P w v" "works P (T e) g'" "reads h A (T e) v (t e)"
        using Cons.prems(4) y by (auto simp: y' can_step_def)
      have "readAt h2 s' = Some v" by (rule grown_read[OF can(2) grown can(1)])
      moreover have "reads h2 A (T e) v (t e)" by (rule grown_reads[OF can(6) grown]) (use Cons.prems(2) in auto)
      ultimately show "can_step h2 A out c2 T t y" using can(1,3-5) child(2)[OF e] unfolding can_step_def y' by auto
    qed
  qed
  then obtain h' c' where run: "steps out xs h2 = Some h'" and r: "stepped h0 out c2 ((fst \<circ> snd) ` set xs) T t h2 h' c'" by blast
  note r = stepped_facts[OF r]
  have d: "d \<notin> (fst \<circ> snd) ` set xs" using Cons.prems(3) by (simp add: x)
  have "reads h' (fresh h0 h') (T d) v' (t d)"
    by (rule grown_reads[OF g(3) r(2)]) (use len r(2) in \<open>auto simp: fresh_def grown_def\<close>)
  then have this_one: "part c' [d] = Some v' \<and> reads h' (fresh h0 h') (T d) v' (t d)" using r(4)[OF d] child(1) by simp
  have "stepped h0 out c ((fst \<circ> snd) ` set (x # xs)) T t h h' c'"
    unfolding stepped_def
  proof (intro conjI allI ballI impI)
    show "filled h0 out c' h'" by (rule r(1))
    show "grown (fst out) h h'" by (rule grown_trans[OF grown r(2)])
    show "alike c c'" by (rule alike_trans[OF child(3) r(3)])
    show "part c' [e] = part c [e]" if "e \<notin> (fst \<circ> snd) ` set (x # xs)" for e
      using that r(4)[of e] child(2)[of e] by (auto simp: x)
    show "\<exists>v'. part c' [e] = Some v' \<and> reads h' (fresh h0 h') (T e) v' (t e)" if "e \<in> (fst \<circ> snd) ` set (x # xs)" for e
      using that r(5)[of e] this_one by (auto simp: x)
  qed
  moreover have "steps out (x # xs) h = Some h'" using g(1) run by (simp add: x)
  ultimately show ?case by blast
qed

section \<open>Structs\<close>

lemma write_defined: "readAt h out = Some w \<Longrightarrow> \<exists>h1. writeAt h out v = Some h1"
  using replaceAt_defined by (fastforce simp: readAt_def writeAt_def split: if_splits)

lemma write_filled: "writeAt (h @ new) out v = Some h' \<Longrightarrow> fst out < length h \<Longrightarrow> filled h out v h'"
  by (auto simp: writeAt_append filled_def)

lemma copies_flat: "flat T \<Longrightarrow> copies T assign"
  unfolding works_def
proof (intro allI impI, elim conjE)
  fix h A i out v t w
  assume flat: "flat T" and v: "readAt h i = Some v" "readAt h out = Some w" "reads h A T v t"
  obtain h1 where "writeAt h out v = Some h1" using write_defined[OF v(2)] by blast
  then show "\<exists>h' v'. assign i out h = Some h' \<and> filled h out v' h' \<and> reads h' (fresh h h') T v' t"
    using v(1) reads_flat[OF v(3) flat] by (intro exI[of _ h1] exI[of _ v]) (auto simp: assign_def filled_def)
qed

lemma body_fields:
  "body (map (\<lambda>(f, g). field f g) fs) i out = steps out (map (\<lambda>(f, g). (inside i (Fld f), Fld f, g)) fs)"
proof (rule ext)
  fix h
  show "body (map (\<lambda>(f, g). field f g) fs) i out h = steps out (map (\<lambda>(f, g). (inside i (Fld f), Fld f, g)) fs) h"
    by (induction fs arbitrary: h) (auto simp: field_def intro!: Option.bind_cong)
qed

definition field_works :: "(string \<times> gotype) list \<Rightarrow> string \<times> copier \<Rightarrow> bool" where
  "field_works Ts x \<longleftrightarrow> (case x of (f, g) \<Rightarrow> (case map_of Ts f of None \<Rightarrow> False | Some T \<Rightarrow> refills T g))"

lemma part_field: "part (Struct vs) [Fld f] = map_of vs f"
  by (cases "map_of vs f") auto

lemma copies_struct:
  assumes "distinct (map fst Ts)" and "distinct (map fst fs)" and "list_all (field_works Ts) fs"
    and "list_all (\<lambda>(f, T). f \<in> set (map fst fs) \<or> flat T) Ts"
  shows "copies (TStruct Ts) (structCopy fs)"
  unfolding works_def
proof (intro allI impI, elim conjE)
  fix h A i out v t w
  assume v: "readAt h i = Some v" "readAt h out = Some w" "reads h A (TStruct Ts) v t"
    and A: "A \<subseteq> {..<length h} - {fst out}" and apart: "fst i \<noteq> fst out"
  obtain vs ts where s: "v = Struct vs" "t = Node ts" "map fst vs = map fst Ts" "map fst ts = map fst Ts"
    and each: "\<And>f T. (f, T) \<in> set Ts \<Longrightarrow> \<exists>u s. map_of vs f = Some u \<and> map_of ts f = Some s \<and> reads h A T u s"
    using v(3) by (fastforce split: val.splits view.splits option.splits)
  obtain h1 where h1: "writeAt h out v = Some h1" using write_defined[OF v(2)] by blast
  then have filled: "filled h out v h1" by (auto simp: filled_def)
  let ?T = "\<lambda>d. case d of Fld f \<Rightarrow> the (map_of Ts f) | Idx _ \<Rightarrow> undefined"
  let ?t = "\<lambda>d. case d of Fld f \<Rightarrow> the (map_of ts f) | Idx _ \<Rightarrow> undefined"
  let ?xs = "map (\<lambda>(f, g). (inside i (Fld f), Fld f, g)) fs"
  have names: "map (fst \<circ> snd) ?xs = map Fld (map fst fs)" by auto
  then have sel: "(fst \<circ> snd) ` set ?xs = Fld ` set (map fst fs)" by (metis list.set_map)
  have i: "readAt h1 i = Some v" by (rule filled_read[OF filled v(1) apart])
  have can: "can_step h1 A out v ?T ?t x" if x: "x \<in> set ?xs" for x
  proof -
    obtain f g where x': "(f, g) \<in> set fs" "x = (inside i (Fld f), Fld f, g)" using x by auto
    obtain T where T: "map_of Ts f = Some T" "refills T g"
      using assms(3) x'(1) by (auto simp: list_all_iff field_works_def split: option.splits)
    obtain u s' where u: "map_of vs f = Some u" "map_of ts f = Some s'" "reads h A T u s'" using each[OF map_of_SomeD[OF T(1)]] by blast
    have "reads h1 A T u s'" by (rule grown_reads[OF u(3) filled_grown[OF filled]]) (use A in auto)
    then show ?thesis
      using T u apart readAt_inside[OF i, of "Fld f"] unfolding can_step_def x'(2)
      by (auto simp: s(1) part_field intro!: exI[of _ "(=)"])
  qed
  have A1: "A \<subseteq> {..<length h1} - {fst out}" using A filled_facts(2)[OF filled] by auto
  have dist: "distinct (map (fst \<circ> snd) ?xs)" unfolding names using assms(2) by (simp add: distinct_map inj_on_def)
  have all: "\<forall>x \<in> set ?xs. can_step h1 A out v ?T ?t x" using can by blast
  obtain h' c' where run: "steps out ?xs h1 = Some h'" and r: "stepped h out v (Fld ` set (map fst fs)) ?T ?t h1 h' c'"
    using steps_work[OF filled A1 dist all] unfolding sel by blast
  note r = stepped_facts[OF r]
  obtain ws where ws: "c' = Struct ws" "map fst ws = map fst Ts" using r(3) s(1,3) by (cases c') auto
  have "\<exists>u s. map_of ws f = Some u \<and> map_of ts f = Some s \<and> reads h' (fresh h h') T u s" if T: "(f, T) \<in> set Ts" for f T
  proof (cases "f \<in> set (map fst fs)")
    case True
    have "map_of Ts f = Some T" using T assms(1) by simp
    with r(5)[of "Fld f"] True each[OF T] show ?thesis by (auto simp: ws(1) part_field)
  next
    case False
    have "flat T" using assms(4) T False by (auto simp: list_all_iff)
    moreover have "map_of ws f = map_of vs f" using r(4)[of "Fld f"] False by (auto simp: ws(1) s(1) part_field)
    ultimately show ?thesis using each[OF T] reads_flat by metis
  qed
  then have "\<forall>(f, T) \<in> set Ts. case map_of ws f of None \<Rightarrow> False | Some u \<Rightarrow>
      (case map_of ts f of None \<Rightarrow> False | Some s \<Rightarrow> reads h' (fresh h h') T u s)" by fastforce
  then have "reads h' (fresh h h') (TStruct Ts) c' t" using ws s(2,4) by simp
  moreover have "structCopy fs i out h = Some h'" using run v(1) h1 by (simp add: structCopy_def body_fields assign_def)
  ultimately show "\<exists>h' v'. structCopy fs i out h = Some h' \<and> filled h out v' h' \<and> reads h' (fresh h h') (TStruct Ts) v' t"
    using r(1) by blast
qed

section \<open>Pointers and slices\<close>

lemma filled_same: "readAt h out = Some v \<Longrightarrow> filled h out v h"
  by (auto simp: filled_def readAt_def writeAt_def replaceAt_same split: if_splits)

lemma filled_beyond:
  assumes "filled (h1 @ more) out v h'" and "length h1 \<le> fst out"
  shows "\<exists>new. h' = h1 @ new"
proof -
  obtain c new where "h' = (h1 @ more)[fst out := c] @ new" using assms(1) by (auto simp: filled_def writeAt_def split: if_splits)
  then show ?thesis using assms(2) by (auto simp: list_update_append)
qed

text \<open>Room made for what \<^verbatim>\<open>out\<close> will refer to: a new cell, and the reference to it at \<^verbatim>\<open>out\<close>.\<close>

lemma room:
  assumes "readAt h out = Some w"
  obtains h1 where "writeAt (h @ [z]) out r = Some (h1 @ [z])" and "writeAt h out r = Some h1" and "length h1 = length h"
    and "\<And>l u. \<lbrakk>readAt h l = Some u; fst l \<noteq> fst out\<rbrakk> \<Longrightarrow> readAt (h1 @ [z]) l = Some u" and "readAt (h1 @ [z]) out = Some r"
    and "\<And>A B T v t. \<lbrakk>reads h A T v t; A \<subseteq> {..<length h} - {fst out}; A \<subseteq> B\<rbrakk> \<Longrightarrow> reads (h1 @ [z]) B T v t"
proof -
  obtain h1 where h1: "writeAt h out r = Some h1" using write_defined[OF assms] by blast
  note w = writeAt_facts[OF h1]
  have filled: "filled h out r (h1 @ [z])" using h1 by (auto simp: filled_def)
  show thesis
  proof (rule that[OF _ h1 w(2)])
    show "writeAt (h @ [z]) out r = Some (h1 @ [z])" using h1 w(1) by (simp add: writeAt_append)
    show "readAt (h1 @ [z]) l = Some u" if "readAt h l = Some u" "fst l \<noteq> fst out" for l u by (rule filled_read[OF filled that])
    show "readAt (h1 @ [z]) out = Some r" by (rule filled_facts(4)[OF filled])
    show "reads (h1 @ [z]) B T v t" if "reads h A T v t" "A \<subseteq> {..<length h} - {fst out}" "A \<subseteq> B" for A B T v t
      by (rule grown_reads[OF that(1) filled_grown[OF filled]]) (use that(2,3) in auto)
  qed
qed

lemma room_filled: "writeAt h out r = Some h1 \<Longrightarrow> filled (h1 @ [z]) (length h1, p) v h' \<Longrightarrow> filled h out r h'"
  using filled_beyond[of h1 "[z]" "(length h1, p)" v h'] by (auto simp: filled_def)

lemma refills_unlessNil:
  assumes "\<And>h A i out v t. \<lbrakk>readAt h i = Some v; readAt h out = Some v; v \<noteq> NilV; reads h A T v t; A \<subseteq> {..<length h} - {fst out};
      fst i \<noteq> fst out\<rbrakk> \<Longrightarrow> \<exists>h' v'. g i out h = Some h' \<and> filled h out v' h' \<and> reads h' (fresh h h') T v' t"
    and "\<And>h A B t. reads h A T NilV t \<Longrightarrow> reads h B T NilV t"
  shows "refills T (unlessNil g)"
  unfolding works_def
proof (intro allI impI, elim conjE)
  fix h A i out v t w
  assume v: "readAt h i = Some v" "readAt h out = Some w" "w = v" "reads h A T v t" "A \<subseteq> {..<length h} - {fst out}" "fst i \<noteq> fst out"
  show "\<exists>h' v'. unlessNil g i out h = Some h' \<and> filled h out v' h' \<and> reads h' (fresh h h') T v' t"
  proof (cases "v = NilV")
    case True
    then show ?thesis using v(1-4) assms(2) filled_same
      by (intro exI[of _ h] exI[of _ v]) (auto simp: unlessNil_def)
  next
    case False
    then show ?thesis using assms(1)[OF v(1) _ False v(4-6)] v(1-3) by (simp add: unlessNil_def)
  qed
qed

lemma refills_pointer: "copies T g \<Longrightarrow> refills (TPtr T) (unlessNil (body [allocate T, pointees g]))"
proof (rule refills_unlessNil)
  fix h A i out v t
  assume g: "copies T g" and v: "readAt h i = Some v" "readAt h out = Some v" "v \<noteq> NilV" "reads h A (TPtr T) v t"
    and A: "A \<subseteq> {..<length h} - {fst out}" and apart: "fst i \<noteq> fst out"
  obtain l u s where l: "v = Ptr l" "fst l \<in> A" "readAt h l = Some u" "t = To s" "reads h A T u s"
    using v(3,4) by (auto split: val.splits option.splits view.splits)
  let ?z = "zeroValue T" and ?c = "(length h, []) :: loc"
  obtain h1 where r: "writeAt (h @ [?z]) out (Ptr ?c) = Some (h1 @ [?z])" "writeAt h out (Ptr ?c) = Some h1" "length h1 = length h"
    "\<And>l u. \<lbrakk>readAt h l = Some u; fst l \<noteq> fst out\<rbrakk> \<Longrightarrow> readAt (h1 @ [?z]) l = Some u" "readAt (h1 @ [?z]) out = Some (Ptr ?c)"
    "\<And>A B T v t. \<lbrakk>reads h A T v t; A \<subseteq> {..<length h} - {fst out}; A \<subseteq> B\<rbrakk> \<Longrightarrow> reads (h1 @ [?z]) B T v t"
    by (rule room[OF v(2), of ?z "Ptr ?c"]) blast
  have cell: "readAt (h1 @ [?z]) ?c = Some ?z" by (simp add: readAt_def nth_append flip: r(3))
  have lo: "fst l \<noteq> fst out" "fst l \<noteq> length h" using l(2) A by auto
  obtain h' v' where g': "g l ?c (h1 @ [?z]) = Some h'" "filled (h1 @ [?z]) ?c v' h'" "reads h' (fresh (h1 @ [?z]) h') T v' s"
    by (rule worksD[OF g r(4)[OF l(3) lo(1)] cell TrueI r(6)[OF l(5) A subset_refl]]) (use A r(3) lo in auto)
  have filled: "filled h out (Ptr ?c) h'" by (rule room_filled[OF r(2), of ?z "[]" v']) (use g'(2) r(3) in simp)
  have "readAt h' ?c = Some v'" by (rule filled_facts(4)[OF g'(2)])
  moreover have "reads h' (fresh h h') T v' s"
    by (rule reads_frame[OF g'(3)]) (use r(3) in \<open>auto simp: fresh_def\<close>)
  moreover have "length h < length h'" using filled_facts(2)[OF g'(2)] r(3) by simp
  ultimately have "reads h' (fresh h h') (TPtr T) (Ptr ?c) t" using l(4) by (auto simp: fresh_def)
  moreover have "body [allocate T, pointees g] i out h = Some h'"
    using r(1,4,5) v(1) apart l(1) g'(1) by (simp add: allocate_def pointees_def)
  ultimately show "\<exists>h' v'. body [allocate T, pointees g] i out h = Some h' \<and> filled h out v' h' \<and> reads h' (fresh h h') (TPtr T) v' t"
    using filled by blast
qed simp

lemma elementwise_steps:
  "elementwise g l m ijs h = steps m (map (\<lambda>(i, j). (inside l (Idx i), Idx j, g)) ijs) h"
  by (induction ijs arbitrary: h) (auto intro!: Option.bind_cong)

lemma slice_made:
  assumes "copies T g" and "readAt h i = Some (Slice l off n)" and "readAt h out = Some w"
    and "reads h A (TSlice T) (Slice l off n) t" and "A \<subseteq> {..<length h} - {fst out}" and "fst i \<noteq> fst out"
  shows "\<exists>h0 h' v'. makeSlice T i out h = Some h0 \<and> readAt h0 i = Some (Slice l off n) \<and>
    readAt h0 out = Some (Slice (length h, []) 0 n) \<and>
    elementwise g l (length h, []) (map (\<lambda>k. (off + k, 0 + k)) [0..<n]) h0 = Some h' \<and> filled h out v' h' \<and> reads h' (fresh h h') (TSlice T) v' t"
proof -
  obtain vs ts where l: "fst l \<in> A" "readAt h l = Some (Array vs)" "t = Items ts" "off + n \<le> length vs" "length ts = n"
    "\<And>k. k < n \<Longrightarrow> reads h A T (vs ! (off + k)) (ts ! k)"
    using assms(4) by (auto split: val.splits option.splits view.splits)
  let ?zs = "replicate n (zeroValue T)" and ?c = "(length h, []) :: loc" and ?r = "Slice (length h, []) 0 n"
  obtain h1 where r: "writeAt (h @ [Array ?zs]) out ?r = Some (h1 @ [Array ?zs])" "writeAt h out ?r = Some h1" "length h1 = length h"
    "\<And>l u. \<lbrakk>readAt h l = Some u; fst l \<noteq> fst out\<rbrakk> \<Longrightarrow> readAt (h1 @ [Array ?zs]) l = Some u" "readAt (h1 @ [Array ?zs]) out = Some ?r"
    "\<And>A B T v t. \<lbrakk>reads h A T v t; A \<subseteq> {..<length h} - {fst out}; A \<subseteq> B\<rbrakk> \<Longrightarrow> reads (h1 @ [Array ?zs]) B T v t"
    by (rule room[OF assms(3), of "Array ?zs" ?r]) blast
  let ?h0 = "h1 @ [Array ?zs]" and ?ds = "(\<lambda>k. Idx k) ` {..<n}"
  let ?xs = "map (\<lambda>(i, j). (inside l (Idx i), Idx j, g)) (map (\<lambda>k. (off + k, 0 + k)) [0..<n])"
  let ?t = "\<lambda>d. case d of Idx k \<Rightarrow> ts ! k | Fld _ \<Rightarrow> undefined"
  have cell: "readAt ?h0 ?c = Some (Array ?zs)" by (simp add: readAt_def nth_append flip: r(3))
  have lo: "fst l \<noteq> fst out" "fst l < length h" using l(1) assms(5) by auto
  have array: "readAt ?h0 l = Some (Array vs)" by (rule r(4)[OF l(2) lo(1)])
  have sel: "(fst \<circ> snd) ` set ?xs = ?ds" by (auto simp: image_image)
  have names: "map (fst \<circ> snd) ?xs = map Idx [0..<n]" by auto
  have dist: "distinct (map (fst \<circ> snd) ?xs)" unfolding names by (simp add: distinct_map inj_on_def)
  have can: "\<forall>x \<in> set ?xs. can_step ?h0 A ?c (Array ?zs) (\<lambda>_. T) ?t x"
  proof
    fix x assume "x \<in> set ?xs"
    then obtain k where k: "k < n" "x = (inside l (Idx (off + k)), Idx k, g)" by auto
    have "reads ?h0 A T (vs ! (off + k)) (ts ! k)" by (rule r(6)[OF l(6)[OF k(1)] assms(5) subset_refl])
    moreover have "readAt ?h0 (inside l (Idx (off + k))) = Some (vs ! (off + k))"
      using readAt_inside[OF array, of "Idx (off + k)"] k(1) l(4) by simp
    ultimately show "can_step ?h0 A ?c (Array ?zs) (\<lambda>_. T) ?t x"
      using assms(1) k lo(2) unfolding can_step_def by auto
  qed
  have A: "A \<subseteq> {..<length ?h0} - {fst ?c}" using assms(5) r(3) by auto
  obtain h' c' where run: "steps ?c ?xs ?h0 = Some h'" and s: "stepped ?h0 ?c (Array ?zs) ?ds (\<lambda>_. T) ?t ?h0 h' c'"
    using steps_work[OF filled_same[OF cell] A dist can] unfolding sel by blast
  note s = stepped_facts[OF s]
  obtain ws where ws: "c' = Array ws" "length ws = n" using s(3) by (cases c') auto
  have filled: "filled h out ?r h'" by (rule room_filled[OF r(2), of "Array ?zs" "[]" c']) (use s(1) r(3) in simp)
  have "reads h' (fresh h h') T (ws ! k) (ts ! k)" if k: "k < n" for k
  proof -
    have "reads h' (fresh ?h0 h') T (ws ! k) (ts ! k)" using s(5)[of "Idx k"] k by (auto simp: ws)
    then show ?thesis by (rule reads_frame) (use r(3) in \<open>auto simp: fresh_def\<close>)
  qed
  moreover have "readAt h' ?c = Some (Array ws)" using filled_facts(4)[OF s(1)] ws(1) by simp
  moreover have "length h < length h'" using filled_facts(2)[OF s(1)] r(3) by simp
  ultimately have "reads h' (fresh h h') (TSlice T) ?r t" using l(3,5) ws(2) by (auto simp: fresh_def)
  moreover have "makeSlice T i out h = Some ?h0" using assms(2) r(1) by (simp add: makeSlice_def)
  moreover have "readAt ?h0 i = Some (Slice l off n)" by (rule r(4)[OF assms(2,6)])
  ultimately show ?thesis using r(5) run filled unfolding elementwise_steps by blast
qed

lemma slice_nil: "reads h A (TSlice T) v t \<Longrightarrow> v \<noteq> NilV \<Longrightarrow> \<exists>l off n. v = Slice l off n"
  by (cases v) auto

lemma refills_slice:
  assumes "copies T g"
  shows "refills (TSlice T) (unlessNil (body [makeSlice T, eachElement g]))"
proof (rule refills_unlessNil)
  fix h A i out v t
  assume v: "readAt h i = Some v" "readAt h out = Some v" "v \<noteq> NilV" "reads h A (TSlice T) v t"
    and A: "A \<subseteq> {..<length h} - {fst out}" "fst i \<noteq> fst out"
  obtain l off n where s: "v = Slice l off n" using slice_nil v(3,4) by blast
  note made = slice_made[OF assms v(1)[unfolded s] v(2) v(4)[unfolded s] A]
  show "\<exists>h' v'. body [makeSlice T, eachElement g] i out h = Some h' \<and> filled h out v' h' \<and> reads h' (fresh h h') (TSlice T) v' t"
    using made by (auto simp: eachElement_def)
qed simp

lemma refills_copied:
  assumes "flat T"
  shows "refills (TSlice T) (unlessNil (body [makeSlice T, copyElements]))"
proof (rule refills_unlessNil)
  fix h A i out v t
  assume v: "readAt h i = Some v" "readAt h out = Some v" "v \<noteq> NilV" "reads h A (TSlice T) v t"
    and A: "A \<subseteq> {..<length h} - {fst out}" "fst i \<noteq> fst out"
  obtain l off n where s: "v = Slice l off n" using slice_nil v(3,4) by blast
  note made = slice_made[OF copies_flat[OF assms] v(1)[unfolded s] v(2) v(4)[unfolded s] A]
  show "\<exists>h' v'. body [makeSlice T, copyElements] i out h = Some h' \<and> filled h out v' h' \<and> reads h' (fresh h h') (TSlice T) v' t"
    using made by (auto simp: copyElements_def)
qed simp

section \<open>Functions that make copies\<close>

text \<open>\<open>duplicates T f\<close>: of a pointer, \<open>f\<close> returns one that reads the same through new cells, and the store has grown only.\<close>

definition duplicates :: "gotype \<Rightarrow> duplicator \<Rightarrow> bool" where
  "duplicates T f \<longleftrightarrow> (\<forall>h A p t. reads h A (TPtr T) p t \<and> A \<subseteq> {..<length h} \<longrightarrow>
     (\<exists>p' new. f p h = Some (p', h @ new) \<and> reads (h @ new) (fresh h (h @ new)) (TPtr T) p' t))"

lemma duplicates_newCopy:
  assumes "copies T g"
  shows "duplicates T (newCopy T g)"
  unfolding duplicates_def
proof (intro allI impI, elim conjE)
  fix h A p t
  assume p: "reads h A (TPtr T) p t" and A: "A \<subseteq> {..<length h}"
  show "\<exists>p' new. newCopy T g p h = Some (p', h @ new) \<and> reads (h @ new) (fresh h (h @ new)) (TPtr T) p' t"
  proof (cases "p = NilV")
    case True
    then show ?thesis using p by (intro exI[of _ NilV] exI[of _ "[]"]) (simp add: newCopy_def)
  next
    case False
    obtain l u s where l: "p = Ptr l" "fst l \<in> A" "readAt h l = Some u" "t = To s" "reads h A T u s"
      using p False by (auto split: val.splits option.splits view.splits)
    let ?z = "zeroValue T" and ?c = "(length h, []) :: loc"
    have cell: "readAt (h @ [?z]) ?c = Some ?z" by (simp add: readAt_def)
    have u: "reads (h @ [?z]) A T u s" by (rule reads_frame[OF l(5)]) (auto simp: nth_append)
    obtain h' v' where g: "g l ?c (h @ [?z]) = Some h'" "filled (h @ [?z]) ?c v' h'" "reads h' (fresh (h @ [?z]) h') T v' s"
      by (rule worksD[OF assms readAt_append[OF l(3)] cell TrueI u]) (use A l(2) in auto)
    obtain new where new: "h' = h @ new" using filled_beyond[OF g(2)] by auto
    have "readAt h' ?c = Some v'" by (rule filled_facts(4)[OF g(2)])
    moreover have "reads h' (fresh h h') T v' s" by (rule reads_frame[OF g(3)]) (auto simp: fresh_def)
    moreover have "length h < length h'" using filled_facts(2)[OF g(2)] by simp
    ultimately have "reads h' (fresh h h') (TPtr T) (Ptr ?c) t" using l(4) by (auto simp: fresh_def)
    then show ?thesis using g(1) l(1) new by (intro exI[of _ "Ptr ?c"] exI[of _ new]) (simp add: newCopy_def)
  qed
qed

lemma duplicates_object: "duplicates T f \<Longrightarrow> duplicates T (objectOf f)"
  unfolding duplicates_def by (fastforce simp: objectOf_def)

lemma refills_called:
  assumes "duplicates T f"
  shows "refills (TPtr T) (unlessNil (called f))"
proof (rule refills_unlessNil)
  fix h A i out v t
  assume v: "readAt h i = Some v" "readAt h out = Some v" "reads h A (TPtr T) v t" and A: "A \<subseteq> {..<length h} - {fst out}"
  have "A \<subseteq> {..<length h}" using A by blast
  then obtain p' new where f: "f v h = Some (p', h @ new)" "reads (h @ new) (fresh h (h @ new)) (TPtr T) p' t"
    using assms v(3) unfolding duplicates_def by blast
  obtain h1 where h1: "writeAt h out p' = Some h1" using write_defined[OF v(2)] by blast
  note w = writeAt_facts[OF h1]
  have "reads (h1 @ new) (fresh h (h1 @ new)) (TPtr T) p' t"
    by (rule reads_frame[OF f(2)]) (use w(2) in \<open>auto simp: fresh_def nth_append\<close>)
  moreover have "called f i out h = Some (h1 @ new)" using v(1) f(1) h1 w(1) by (simp add: called_def writeAt_append)
  ultimately show "\<exists>h' v'. called f i out h = Some h' \<and> filled h out v' h' \<and> reads h' (fresh h h') (TPtr T) v' t"
    using h1 by (intro exI[of _ "h1 @ new"] exI[of _ p']) (auto simp: filled_def)
qed simp

end
