(* ===== verification/DeepCopyLaws.thy ===== *)
theory DeepCopyLaws
  imports DeepCopy CopyRules
begin

text \<open>
  The generated copies are deep: each returns a value that reads as the original and shares no cell with what was there before.
\<close>

text \<open>What is documented of the library's types. A map and an interface are references to a cell, as a slice is.\<close>

definition documented :: "Externals \<Rightarrow> bool" where
  "documented X \<longleftrightarrow> flat (xType X ''TypeMeta'') \<and> duplicates (xType X ''Time'') (xCopy X) \<and>
     list_all (\<lambda>n. copies (xType X n) (xInto X n)) [''ObjectMeta'', ''ListMeta'', ''Condition'', ''RawExtension'', ''LabelSelector'']"

named_theorems copy_types and copy_done

lemmas copy_type_defs [copy_types] =
  TApplySpec_def TTargetRef_def TLifecycleSpec_def TServiceAccountRef_def TMergeKey_def TPatchSpec_def
  TResourcePatchSpec_def TTargetStatus_def TTrackerRef_def TResourcePatchStatus_def TClusterResourcePatch_def
  TClusterResourcePatchList_def TTrackerTargetRef_def TSharedResourceSpec_def TPromotionRef_def TContributorRef_def
  TContributorStatus_def TConflictStatus_def TSharedResourceStatus_def TClusterSharedResource_def
  TClusterSharedResourceList_def TResourcePatch_def TResourcePatchList_def TSharedResource_def TSharedResourceList_def

lemma flat_types [simp]:
  "flat TApplySpec" "flat TServiceAccountRef" "flat TMergeKey" "flat TTargetStatus" "flat TTrackerRef"
  "flat TTrackerTargetRef" "flat TSharedResourceSpec" "flat TPromotionRef" "flat TContributorRef"
  by (simp_all add: copy_types)

lemma documented_facts:
  assumes "documented X"
  shows "flat (xType X ''TypeMeta'')" and "refills (TPtr (xType X ''Time'')) (unlessNil (called (xCopy X)))"
    and "copies (xType X ''ObjectMeta'') (xInto X ''ObjectMeta'')" and "copies (xType X ''ListMeta'') (xInto X ''ListMeta'')"
    and "copies (xType X ''Condition'') (xInto X ''Condition'')" and "copies (xType X ''RawExtension'') (xInto X ''RawExtension'')"
    and "copies (xType X ''LabelSelector'') (xInto X ''LabelSelector'')"
  using assms refills_called by (simp_all add: documented_def)

lemmas copy_rules = copies_flat copies_works refills_pointer refills_slice refills_copied field_works_def

lemma copies_ApplySpec [copy_done]: "copies TApplySpec ApplySpec_DeepCopyInto"
  by (simp add: ApplySpec_DeepCopyInto_def copies_flat)

lemma copies_TargetRef [copy_done]: "documented X \<Longrightarrow> copies (TTargetRef X) (TargetRef_DeepCopyInto X)"
  unfolding TTargetRef_def TargetRef_DeepCopyInto_def
  by (rule copies_struct) (simp_all add: copy_rules copy_done documented_facts)

lemma copies_LifecycleSpec [copy_done]: "copies TLifecycleSpec LifecycleSpec_DeepCopyInto"
  unfolding TLifecycleSpec_def LifecycleSpec_DeepCopyInto_def
  by (rule copies_struct) (simp_all add: copy_rules copy_done)

lemma copies_ServiceAccountRef [copy_done]: "copies TServiceAccountRef ServiceAccountRef_DeepCopyInto"
  by (simp add: ServiceAccountRef_DeepCopyInto_def copies_flat)

lemma copies_MergeKey [copy_done]: "copies TMergeKey MergeKey_DeepCopyInto"
  by (simp add: MergeKey_DeepCopyInto_def copies_flat)

lemma copies_PatchSpec [copy_done]: "documented X \<Longrightarrow> copies (TPatchSpec X) (PatchSpec_DeepCopyInto X)"
  unfolding TPatchSpec_def PatchSpec_DeepCopyInto_def
  by (rule copies_struct) (simp_all add: copy_rules copy_done documented_facts)

lemma copies_ResourcePatchSpec [copy_done]: "documented X \<Longrightarrow> copies (TResourcePatchSpec X) (ResourcePatchSpec_DeepCopyInto X)"
  unfolding TResourcePatchSpec_def ResourcePatchSpec_DeepCopyInto_def
  by (rule copies_struct) (simp_all add: copy_rules copy_done documented_facts)

lemma copies_TargetStatus [copy_done]: "copies TTargetStatus TargetStatus_DeepCopyInto"
  by (simp add: TargetStatus_DeepCopyInto_def copies_flat)

lemma copies_TrackerRef [copy_done]: "copies TTrackerRef TrackerRef_DeepCopyInto"
  by (simp add: TrackerRef_DeepCopyInto_def copies_flat)

lemma copies_ResourcePatchStatus [copy_done]: "documented X \<Longrightarrow> copies (TResourcePatchStatus X) (ResourcePatchStatus_DeepCopyInto X)"
  unfolding TResourcePatchStatus_def ResourcePatchStatus_DeepCopyInto_def
  by (rule copies_struct) (simp_all add: copy_rules copy_done documented_facts)

lemma copies_ClusterResourcePatch [copy_done]: "documented X \<Longrightarrow> copies (TClusterResourcePatch X) (ClusterResourcePatch_DeepCopyInto X)"
  unfolding TClusterResourcePatch_def ClusterResourcePatch_DeepCopyInto_def
  by (rule copies_struct) (simp_all add: copy_rules copy_done documented_facts)

lemma copies_ClusterResourcePatchList [copy_done]: "documented X \<Longrightarrow> copies (TClusterResourcePatchList X) (ClusterResourcePatchList_DeepCopyInto X)"
  unfolding TClusterResourcePatchList_def ClusterResourcePatchList_DeepCopyInto_def
  by (rule copies_struct) (simp_all add: copy_rules copy_done documented_facts)

lemma copies_TrackerTargetRef [copy_done]: "copies TTrackerTargetRef TrackerTargetRef_DeepCopyInto"
  by (simp add: TrackerTargetRef_DeepCopyInto_def copies_flat)

lemma copies_SharedResourceSpec [copy_done]: "copies TSharedResourceSpec SharedResourceSpec_DeepCopyInto"
  unfolding TSharedResourceSpec_def SharedResourceSpec_DeepCopyInto_def
  by (rule copies_struct) (simp_all add: copy_rules copy_done)

lemma copies_PromotionRef [copy_done]: "copies TPromotionRef PromotionRef_DeepCopyInto"
  by (simp add: PromotionRef_DeepCopyInto_def copies_flat)

lemma copies_ContributorRef [copy_done]: "copies TContributorRef ContributorRef_DeepCopyInto"
  by (simp add: ContributorRef_DeepCopyInto_def copies_flat)

lemma copies_ContributorStatus [copy_done]: "documented X \<Longrightarrow> copies (TContributorStatus X) (ContributorStatus_DeepCopyInto X)"
  unfolding TContributorStatus_def ContributorStatus_DeepCopyInto_def
  by (rule copies_struct) (simp_all add: copy_rules copy_done documented_facts)

lemma copies_ConflictStatus [copy_done]: "copies TConflictStatus ConflictStatus_DeepCopyInto"
  unfolding TConflictStatus_def ConflictStatus_DeepCopyInto_def
  by (rule copies_struct) (simp_all add: copy_rules copy_done)

lemma copies_SharedResourceStatus [copy_done]: "documented X \<Longrightarrow> copies (TSharedResourceStatus X) (SharedResourceStatus_DeepCopyInto X)"
  unfolding TSharedResourceStatus_def SharedResourceStatus_DeepCopyInto_def
  by (rule copies_struct) (simp_all add: copy_rules copy_done documented_facts)

lemma copies_ClusterSharedResource [copy_done]: "documented X \<Longrightarrow> copies (TClusterSharedResource X) (ClusterSharedResource_DeepCopyInto X)"
  unfolding TClusterSharedResource_def ClusterSharedResource_DeepCopyInto_def
  by (rule copies_struct) (simp_all add: copy_rules copy_done documented_facts)

lemma copies_ClusterSharedResourceList [copy_done]: "documented X \<Longrightarrow> copies (TClusterSharedResourceList X) (ClusterSharedResourceList_DeepCopyInto X)"
  unfolding TClusterSharedResourceList_def ClusterSharedResourceList_DeepCopyInto_def
  by (rule copies_struct) (simp_all add: copy_rules copy_done documented_facts)

lemma copies_ResourcePatch [copy_done]: "documented X \<Longrightarrow> copies (TResourcePatch X) (ResourcePatch_DeepCopyInto X)"
  unfolding TResourcePatch_def ResourcePatch_DeepCopyInto_def
  by (rule copies_struct) (simp_all add: copy_rules copy_done documented_facts)

lemma copies_ResourcePatchList [copy_done]: "documented X \<Longrightarrow> copies (TResourcePatchList X) (ResourcePatchList_DeepCopyInto X)"
  unfolding TResourcePatchList_def ResourcePatchList_DeepCopyInto_def
  by (rule copies_struct) (simp_all add: copy_rules copy_done documented_facts)

lemma copies_SharedResource [copy_done]: "documented X \<Longrightarrow> copies (TSharedResource X) (SharedResource_DeepCopyInto X)"
  unfolding TSharedResource_def SharedResource_DeepCopyInto_def
  by (rule copies_struct) (simp_all add: copy_rules copy_done documented_facts)

lemma copies_SharedResourceList [copy_done]: "documented X \<Longrightarrow> copies (TSharedResourceList X) (SharedResourceList_DeepCopyInto X)"
  unfolding TSharedResourceList_def SharedResourceList_DeepCopyInto_def
  by (rule copies_struct) (simp_all add: copy_rules copy_done documented_facts)

section \<open>Every copy\<close>

lemma deepCopies_duplicate: "documented X \<Longrightarrow> (T, f) \<in> set (deepCopies X) \<Longrightarrow> duplicates T f"
  by (auto simp: deepCopies_def ApplySpec_DeepCopy_def TargetRef_DeepCopy_def LifecycleSpec_DeepCopy_def ServiceAccountRef_DeepCopy_def
    MergeKey_DeepCopy_def PatchSpec_DeepCopy_def ResourcePatchSpec_DeepCopy_def TargetStatus_DeepCopy_def TrackerRef_DeepCopy_def
    ResourcePatchStatus_DeepCopy_def ClusterResourcePatch_DeepCopy_def ClusterResourcePatchList_DeepCopy_def TrackerTargetRef_DeepCopy_def
    SharedResourceSpec_DeepCopy_def PromotionRef_DeepCopy_def ContributorRef_DeepCopy_def ContributorStatus_DeepCopy_def
    ConflictStatus_DeepCopy_def SharedResourceStatus_DeepCopy_def ClusterSharedResource_DeepCopy_def ClusterSharedResourceList_DeepCopy_def
    ResourcePatch_DeepCopy_def ResourcePatchList_DeepCopy_def SharedResource_DeepCopy_def SharedResourceList_DeepCopy_def
    intro!: duplicates_newCopy copy_done)

lemma objectCopies_duplicate: "documented X \<Longrightarrow> (T, f) \<in> set (objectCopies X) \<Longrightarrow> duplicates T f"
  by (auto simp: objectCopies_def ClusterResourcePatch_DeepCopyObject_def ClusterResourcePatchList_DeepCopyObject_def
    ClusterSharedResource_DeepCopyObject_def ClusterSharedResourceList_DeepCopyObject_def ResourcePatch_DeepCopyObject_def
    ResourcePatchList_DeepCopyObject_def SharedResource_DeepCopyObject_def SharedResourceList_DeepCopyObject_def
    intro!: duplicates_object) (rule deepCopies_duplicate, assumption, simp add: deepCopies_def)+

text \<open>
  C22. A deep copy is independent. Whatever a pointer to an API object (or list, or part of one) refers to, its generated copy returns
  without a panic and changes nothing that was there; the copy reads as the original, \<^verbatim>\<open>nil\<close> as \<^verbatim>\<open>nil\<close>, through new cells only. So
  whoever writes to the copy afterwards does not change the original, as a reconciler relies on that gets its objects from a shared cache, and
  whoever writes to what was there before does not change the copy.
\<close>

theorem deep_copy_independent:
  assumes "documented X" and "(T, f) \<in> set (deepCopies X @ objectCopies X)"
    and "reads h A (TPtr T) p t" and "A \<subseteq> {..<length h}"
  shows "\<exists>p' new. f p h = Some (p', h @ new) \<and> reads (h @ new) (fresh h (h @ new)) (TPtr T) p' t \<and>
    (\<forall>h'. length h \<le> length h' \<longrightarrow> (\<forall>a < length h. h' ! a = h ! a) \<longrightarrow> reads h' A (TPtr T) p t) \<and>
    (\<forall>h'. length (h @ new) \<le> length h' \<longrightarrow> (\<forall>a \<in> fresh h (h @ new). h' ! a = (h @ new) ! a) \<longrightarrow>
       reads h' (fresh h (h @ new)) (TPtr T) p' t)"
proof -
  have "duplicates T f" using assms(1,2) deepCopies_duplicate objectCopies_duplicate by auto
  then obtain p' new where f: "f p h = Some (p', h @ new)" and p': "reads (h @ new) (fresh h (h @ new)) (TPtr T) p' t"
    using assms(3,4) unfolding duplicates_def by blast
  have "reads h' A (TPtr T) p t" if "length h \<le> length h'" "\<forall>a < length h. h' ! a = h ! a" for h'
    by (rule reads_frame[OF assms(3) subset_refl]) (use that in auto)
  moreover have "reads h' (fresh h (h @ new)) (TPtr T) p' t"
    if "length (h @ new) \<le> length h'" "\<forall>a \<in> fresh h (h @ new). h' ! a = (h @ new) ! a" for h'
    by (rule reads_frame[OF p' subset_refl]) (use that in \<open>auto simp: fresh_def\<close>)
  ultimately show ?thesis using f p' by blast
qed

text \<open>A sample: library types with an array of their own, and a status with a conflict.\<close>

definition sample_externals :: Externals where
  "sample_externals =
     \<lparr>xType = (\<lambda>n. if n = ''TypeMeta'' then TStruct [(''Kind'', TBasic KString), (''APIVersion'', TBasic KString)]
        else if n = ''Time'' then TStruct [(''wall'', TBasic KInt)] else TStruct [(''Raw'', TSlice (TBasic KInt))]),
      xInto = (\<lambda>n. structCopy [(''Raw'', unlessNil (body [makeSlice (TBasic KInt), copyElements]))]),
      xCopy = newCopy (TStruct [(''wall'', TBasic KInt)]) assign\<rparr>"

lemma sample_documented: "documented sample_externals"
proof -
  have "copies (TStruct [(''Raw'', TSlice (TBasic KInt))]) (structCopy [(''Raw'', unlessNil (body [makeSlice (TBasic KInt), copyElements]))])"
    by (rule copies_struct) (simp_all add: copy_rules)
  then show ?thesis by (simp add: documented_def sample_externals_def duplicates_newCopy copies_flat)
qed

definition sample_store :: store where
  "sample_store =
     [case zeroValue (TSharedResourceStatus sample_externals) of Struct vs \<Rightarrow> Struct (setField ''Conflicts'' (Slice (1, []) 0 1) vs) | v \<Rightarrow> v,
      Array [Struct [(''FieldPath'', Basic (BString ''data.a'')), (''Claimants'', Slice (2, []) 0 2), (''Holder'', Basic (BString ''p''))]],
      Array [Basic (BString ''p''), Basic (BString ''q'')]]"

definition sample_view :: view where
  "sample_view = To (Node
     [(''Phase'', Leaf (BString '''')), (''Conditions'', Absent), (''PromotedTo'', Absent), (''CreatedByOperator'', Leaf (BBool False)),
      (''CreatorPatchRef'', Absent), (''ObservedBaseHash'', Leaf (BString '''')), (''ObservedTargetUID'', Leaf (BString '''')),
      (''ObservedResourceVersion'', Leaf (BString '''')), (''Contributors'', Absent), (''ContributorCount'', Leaf (BInt 0)),
      (''Conflicts'', Items [Node [(''FieldPath'', Leaf (BString ''data.a'')),
        (''Claimants'', Items [Leaf (BString ''p''), Leaf (BString ''q'')]), (''Holder'', Leaf (BString ''p''))]])])"

text \<open>C22 for a tracker's status with a conflict of two: a claimant replaced in the original is still there in the copy.\<close>

theorem deep_copy_independent_witness:
  "\<exists>p' new. SharedResourceStatus_DeepCopy sample_externals (Ptr (0, [])) sample_store = Some (p', sample_store @ new) \<and> p' \<noteq> Ptr (0, []) \<and>
     reads (sample_store[2 := Array [Basic (BString ''x''), Basic (BString ''q'')]] @ new) {3..<3 + length new}
       (TPtr (TSharedResourceStatus sample_externals)) p' sample_view"
proof -
  let ?T = "TSharedResourceStatus sample_externals" and ?f = "SharedResourceStatus_DeepCopy sample_externals"
  have copy: "(?T, ?f) \<in> set (deepCopies sample_externals @ objectCopies sample_externals)" by (simp add: deepCopies_def)
  have view: "reads sample_store {0, 1, 2} (TPtr ?T) (Ptr (0, [])) sample_view" by code_simp
  have len: "length sample_store = 3" "{0, 1, 2} \<subseteq> {..<length sample_store}" by (auto simp: sample_store_def)
  obtain p' new where r: "?f (Ptr (0, [])) sample_store = Some (p', sample_store @ new)"
    "reads (sample_store @ new) (fresh sample_store (sample_store @ new)) (TPtr ?T) p' sample_view"
    "\<And>h'. \<lbrakk>length (sample_store @ new) \<le> length h'; \<forall>a \<in> fresh sample_store (sample_store @ new). h' ! a = (sample_store @ new) ! a\<rbrakk> \<Longrightarrow>
       reads h' (fresh sample_store (sample_store @ new)) (TPtr ?T) p' sample_view"
    using deep_copy_independent[OF sample_documented copy view len(2)] by blast
  have "p' \<noteq> Ptr (0, [])" using r(2) by (auto simp: fresh_def len(1))
  moreover have "reads (sample_store[2 := Array [Basic (BString ''x''), Basic (BString ''q'')]] @ new) (fresh sample_store (sample_store @ new))
      (TPtr ?T) p' sample_view"
    by (rule r(3)) (auto simp: fresh_def nth_append len(1))
  ultimately show ?thesis using r(1) by (auto simp: fresh_def len(1))
qed

end
